(* ===== verification/Kucero_Prelude.thy ===== *)
theory Kucero_Prelude
  imports Main "HOL-Library.Word" "HOL-Library.Sublist" "HOL-Library.Multiset"
begin

text \<open>
  Shared vocabulary of the development.

  \<^item> Go's \<open>error\<close> values are \<open>go_error\<close>: a message made by \<open>errors.New\<close> or by
    \<open>fmt.Errorf\<close> without a cause, or a message wrapped around another error
    (\<open>fmt.Errorf\<close> with \<open>%w\<close>, \<open>%v\<close> or \<open>%q\<close> of an error).
  \<^item> A Go function that returns \<open>(T, error)\<close> with a useless value on the error path is
    a sum \<open>go_error + 'a\<close>; one whose value is still read next to the error is a pair
    \<open>'a \<times> go_error option\<close>, where \<open>None\<close> is Go's \<open>nil\<close>.
  \<^item> A call that can panic returns an \<open>'a outcome\<close>.
  \<^item> Go's \<open>string\<close> and \<open>[]byte\<close> are both \<open>string\<close> (a list of bytes).
  \<^item> A Go \<open>map\<close> that the code ranges over is an association list with distinct keys;
    the order in which \<open>range\<close> visits it is a parameter.
\<close>

datatype go_error =
    Error string
  | Errorf string go_error

datatype 'a outcome =
    Returned 'a
  | Panicked string

type_synonym bytes = string

named_theorems go_simps \<open>equations of the modelled Go library functions\<close>
named_theorems effects \<open>what the operations of the host do to its state\<close>

fun is_err :: "'a + 'b \<Rightarrow> bool" where
  "is_err (Inl _) = True"
| "is_err (Inr _) = False"

lemma is_err_iff [simp]: "is_err r \<longleftrightarrow> (\<exists>e. r = Inl e)"
  by (cases r) auto

lemma not_Inl_iff: "(\<forall>e. r \<noteq> Inl e) \<longleftrightarrow> (\<exists>v. r = Inr v)"
  by (cases r) auto

subsection \<open>Association lists in the role of Go maps\<close>

text \<open>\<open>m[k] = v\<close>: a stored key keeps its place, a new key goes to the end.\<close>

fun map_put :: "'k \<Rightarrow> 'v \<Rightarrow> ('k \<times> 'v) list \<Rightarrow> ('k \<times> 'v) list" where
  "map_put k v [] = [(k, v)]"
| "map_put k v ((k', v') # m) = (if k' = k then (k, v) # m else (k', v') # map_put k v m)"

lemma map_of_map_put [simp]: "map_of (map_put k v m) = (map_of m)(k \<mapsto> v)"
  by (induction m) (auto simp: fun_eq_iff)

lemma keys_map_put [simp]: "fst ` set (map_put k v m) = insert k (fst ` set m)"
  by (induction k v m rule: map_put.induct) (simp_all add: insert_commute)

lemma distinct_map_put [simp]:
  "distinct (map fst m) \<Longrightarrow> distinct (map fst (map_put k v m))"
  by (induction k v m rule: map_put.induct) (simp_all, blast)

subsection \<open>Lists\<close>

lemma mset_eq_set: "mset xs = mset ys \<Longrightarrow> set xs = set ys"
  by (metis set_mset_mset)

lemma sorted_list_unique:
  fixes xs ys :: "'a::linorder list"
  assumes "sorted xs" "sorted ys" "distinct xs" "distinct ys" "set xs = set ys"
  shows "xs = ys"
  using assms by (metis sorted_distinct_set_unique)

lemma filter_eq_by_mset:
  "mset xs = mset ys \<Longrightarrow> mset (filter P xs) = mset (filter P ys)"
  by simp

end
