(* ===== verification/Go_Time.thy ===== *)
theory Go_Time
  imports Kucero_Prelude
begin

text \<open>
  The part of Go's package \<open>time\<close> that kucero uses: \<open>time.Duration\<close> is a signed 64-bit
  count of nanoseconds, kept at its width (\<open>64 word\<close>, read with \<open>sint\<close>), so that products
  and negations wrap and \<open>Time.Sub\<close> saturates as in Go. An instant \<open>time.Time\<close> is an
  \<open>int\<close>, the nanoseconds since the Unix epoch: the range of \<open>time.Time\<close> (292 billion years)
  is not reached by adding a \<open>Duration\<close> to a calendar date. \<open>time.Date\<close>, the calendar of
  an instant and the layout \<open>20060102030405\<close> of \<open>Time.Format\<close> follow.
\<close>

type_synonym duration = "64 word"
type_synonym time = int

abbreviation duration_le :: "duration \<Rightarrow> duration \<Rightarrow> bool" where
  "duration_le a b \<equiv> sint a \<le> sint b"

abbreviation duration_less :: "duration \<Rightarrow> duration \<Rightarrow> bool" where
  "duration_less a b \<equiv> sint a < sint b"

definition time_Second :: duration where
  "time_Second = 1000000000"

definition time_Minute :: duration where
  "time_Minute = 60 * time_Second"

definition time_Hour :: duration where
  "time_Hour = 60 * time_Minute"

definition maxDuration :: duration where
  "maxDuration = word_of_int (2 ^ 63 - 1)"

definition minDuration :: duration where
  "minDuration = word_of_int (- (2 ^ 63))"

definition Before :: "time \<Rightarrow> time \<Rightarrow> bool" where
  "Before t u \<longleftrightarrow> t < u"

definition Add :: "time \<Rightarrow> duration \<Rightarrow> time" where
  "Add t d = t + sint d"

text \<open>\<open>Time.Sub\<close>: the difference where it fits in a \<open>Duration\<close>, the nearer bound otherwise.\<close>

definition Sub :: "time \<Rightarrow> time \<Rightarrow> duration" where
  "Sub t u =
     (let d = word_of_int (t - u) :: duration
      in if Add u d = t then d else if Before t u then minDuration else maxDuration)"

subsection \<open>Durations as integers\<close>

lemma sint64_range: "- (2 ^ 63) \<le> sint (d :: 64 word)" "sint (d :: 64 word) < 2 ^ 63"
  using sint_ge [of d] sint_lt [of d] by simp_all

lemma sint64_of_int:
  "- (2 ^ 63) \<le> n \<Longrightarrow> n < 2 ^ 63 \<Longrightarrow> sint (word_of_int n :: 64 word) = n"
  by (simp add: sint_sbintrunc' signed_take_bit_int_eq_self)

lemma sint_duration_consts [simp]:
  "sint time_Second = 1000000000"
  "sint time_Minute = 60 * 1000000000"
  "sint time_Hour = 3600 * 1000000000"
  by (simp_all add: time_Second_def time_Minute_def time_Hour_def)

lemma sint_bounds_duration [simp]:
  "sint maxDuration = 2 ^ 63 - 1" "sint minDuration = - (2 ^ 63)"
  by (simp_all add: maxDuration_def minDuration_def sint64_of_int)

lemma sint_Sub:
  "sint (Sub t u) = (if t - u < - (2 ^ 63) then - (2 ^ 63)
                     else if 2 ^ 63 \<le> t - u then 2 ^ 63 - 1 else t - u)"
proof -
  consider (fits) "- (2 ^ 63) \<le> t - u" "t - u < 2 ^ 63"
    | (low) "t - u < - (2 ^ 63)" | (high) "2 ^ 63 \<le> t - u" by linarith
  then show ?thesis
  proof cases
    case fits
    then have "sint (word_of_int (t - u) :: 64 word) = t - u" by (rule sint64_of_int)
    with fits show ?thesis by (simp add: Sub_def Add_def Let_def del: of_int_diff)
  next
    case low
    have "u + sint (word_of_int (t - u) :: 64 word) \<noteq> t"
      using low sint64_range(1) [of "word_of_int (t - u)"] by linarith
    with low show ?thesis by (simp add: Sub_def Add_def Before_def)
  next
    case high
    have "u + sint (word_of_int (t - u) :: 64 word) \<noteq> t"
      using high sint64_range(2) [of "word_of_int (t - u)"] by linarith
    with high show ?thesis by (simp add: Sub_def Add_def Before_def)
  qed
qed

text \<open>A saturated difference is compared with any duration below the greatest like the exact one.\<close>

lemma Sub_le_iff:
  assumes "d \<noteq> maxDuration"
  shows "duration_le (Sub t u) d \<longleftrightarrow> t - u \<le> sint d"
proof -
  have "sint d \<noteq> sint maxDuration" using assms signed_word_eqI by blast
  then have "sint d < 2 ^ 63 - 1" using sint64_range(2) [of d] by simp
  with sint64_range(1) [of d] show ?thesis by (auto simp: sint_Sub)
qed

lemma sint_uminus_duration:
  assumes "sint d \<noteq> - (2 ^ 63)"
  shows "sint (- d :: 64 word) = - sint d"
proof -
  have "sint (word_of_int (- sint d) :: 64 word) = - sint d"
    using assms sint64_range [of d] by (intro sint64_of_int) simp_all
  then show ?thesis by simp
qed

subsection \<open>The calendar\<close>

definition isLeap :: "int \<Rightarrow> bool" where
  "isLeap y \<longleftrightarrow> y mod 4 = 0 \<and> (y mod 100 \<noteq> 0 \<or> y mod 400 = 0)"

definition daysBefore :: "int list" where
  "daysBefore = [0, 31, 59, 90, 120, 151, 181, 212, 243, 273, 304, 334, 365]"

definition daysIn :: "int \<Rightarrow> int \<Rightarrow> int" where
  "daysIn m y = (if m = 2 \<and> isLeap y then 29
                 else daysBefore ! nat m - daysBefore ! nat (m - 1))"

text \<open>Leap days in the years \<open>1, \<dots>, y\<close>, and the day number of the first of January.\<close>

definition leaps :: "int \<Rightarrow> int" where
  "leaps y = y div 4 - y div 100 + y div 400"

definition year_day :: "int \<Rightarrow> int" where
  "year_day y = 365 * (y - 1970) + leaps (y - 1) - leaps 1969"

definition date_day :: "int \<Rightarrow> int \<Rightarrow> int \<Rightarrow> int" where
  "date_day y m d =
     year_day y + daysBefore ! nat (m - 1) + (if isLeap y \<and> 3 \<le> m then 1 else 0) + d - 1"

text \<open>\<open>time.Date\<close> in UTC, for fields in their calendar range.\<close>

definition Date :: "int \<Rightarrow> int \<Rightarrow> int \<Rightarrow> int \<Rightarrow> int \<Rightarrow> int \<Rightarrow> int \<Rightarrow> time" where
  "Date y m d hour minute sec nsec =
     (date_day y m d * 86400 + hour * 3600 + minute * 60 + sec) * 1000000000 + nsec"

text \<open>The civil date of a day number, by cycles of 400, 100, 4 and 1 years.\<close>

definition cycle_split :: "int \<Rightarrow> int \<times> int" where
  "cycle_split day =
     (let d0 = day + 719162;
          n400 = d0 div 146097; d1 = d0 mod 146097;
          n100 = min 3 (d1 div 36524); d2 = d1 - 36524 * n100;
          n4 = d2 div 1461; d3 = d2 mod 1461;
          n1 = min 3 (d3 div 365); d4 = d3 - 365 * n1
      in (400 * n400 + 100 * n100 + 4 * n4 + n1 + 1, d4))"

fun month_split :: "int \<Rightarrow> int \<Rightarrow> int \<Rightarrow> nat \<Rightarrow> int \<times> int" where
  "month_split y yday m 0 = (m, yday + 1)"
| "month_split y yday m (Suc k) =
     (if yday < daysIn m y then (m, yday + 1) else month_split y (yday - daysIn m y) (m + 1) k)"

definition civil :: "int \<Rightarrow> int \<times> int \<times> int" where
  "civil day = (let (y, yday) = cycle_split day; (m, d) = month_split y yday 1 11 in (y, m, d))"

subsection \<open>Formatting\<close>

definition digit :: "int \<Rightarrow> char" where
  "digit n = char_of (nat (48 + n mod 10))"

text \<open>\<open>appendInt\<close> for non-negative numbers: decimal, padded with zeros to a width.\<close>

fun appendInt :: "int \<Rightarrow> nat \<Rightarrow> string" where
  "appendInt n 0 = ''''"
| "appendInt n (Suc w) = appendInt (n div 10) w @ [digit n]"

text \<open>
  \<open>t.Format("20060102030405")\<close> in a location that is \<open>offset\<close> seconds east of UTC at that
  instant. The layout element \<open>03\<close> is the hour of a twelve-hour clock. Years have four digits.
\<close>

definition Format_20060102030405 :: "int \<Rightarrow> time \<Rightarrow> string" where
  "Format_20060102030405 offset t =
     (let l = t div 1000000000 + offset;
          (y, m, d) = civil (l div 86400);
          sod = l mod 86400;
          hour = sod div 3600;
          hr = (if hour mod 12 = 0 then 12 else hour mod 12)
      in appendInt y 4 @ appendInt m 2 @ appendInt d 2 @
         appendInt hr 2 @ appendInt (sod mod 3600 div 60) 2 @ appendInt (sod mod 60) 2)"

lemma length_appendInt [simp]: "length (appendInt n w) = w"
  by (induction w arbitrary: n) auto

end
