(* ===== verification/Go_Strings.thy ===== *)
theory Go_Strings
  imports Kucero_Prelude
begin

text \<open>
  The functions of Go's \<open>strings\<close>, \<open>bytes\<close> and \<open>path/filepath\<close> that kucero calls, on lists of
  bytes. \<open>Split\<close> is for the one-byte separator the sources use, \<open>Replace1\<close> is \<open>bytes.Replace\<close>
  with a non-empty old string and a limit of one replacement, \<open>TrimSpace\<close> trims the ASCII
  white space (the inputs are ASCII tables and version strings).
\<close>

definition HasPrefix :: "string \<Rightarrow> string \<Rightarrow> bool" where
  "HasPrefix s p \<longleftrightarrow> length p \<le> length s \<and> take (length p) s = p"

definition HasSuffix :: "string \<Rightarrow> string \<Rightarrow> bool" where
  "HasSuffix s p \<longleftrightarrow> length p \<le> length s \<and> drop (length s - length p) s = p"

definition TrimSuffix :: "string \<Rightarrow> string \<Rightarrow> string" where
  "TrimSuffix s p = (if HasSuffix s p then take (length s - length p) s else s)"

fun Contains :: "string \<Rightarrow> string \<Rightarrow> bool" where
  "Contains [] sub = (sub = [])"
| "Contains (c # s) sub = (HasPrefix (c # s) sub \<or> Contains s sub)"

fun Replace1 :: "string \<Rightarrow> string \<Rightarrow> string \<Rightarrow> string" where
  "Replace1 [] old new = []"
| "Replace1 (c # s) old new =
     (if HasPrefix (c # s) old then new @ drop (length old) (c # s) else c # Replace1 s old new)"

fun Split :: "char \<Rightarrow> string \<Rightarrow> string list" where
  "Split sep [] = [[]]"
| "Split sep (c # s) =
     (if c = sep then [] # Split sep s
      else (case Split sep s of [] \<Rightarrow> [[c]] | w # ws \<Rightarrow> (c # w) # ws))"

definition is_space :: "char \<Rightarrow> bool" where
  "is_space c \<longleftrightarrow> c \<in> {CHR '' '', CHR 0x09, CHR 0x0A, CHR 0x0B, CHR 0x0C, CHR 0x0D}"

definition TrimSpace :: "string \<Rightarrow> string" where
  "TrimSpace s = rev (dropWhile is_space (rev (dropWhile is_space s)))"

subsection \<open>Paths\<close>

fun join_with :: "char \<Rightarrow> string list \<Rightarrow> string" where
  "join_with c [] = []"
| "join_with c [w] = w"
| "join_with c (w # v # ws) = w @ c # join_with c (v # ws)"

text \<open>
  \<open>filepath.Clean\<close>: drop empty and \<open>.\<close> elements, let \<open>..\<close> cancel the element before it (the
  stack is reversed), and keep the leading slash.
\<close>

fun clean_elem :: "bool \<Rightarrow> string list \<Rightarrow> string \<Rightarrow> string list" where
  "clean_elem rooted st e =
     (if e = '''' \<or> e = ''.'' then st
      else if e = ''..'' then
        (case st of [] \<Rightarrow> if rooted then [] else [e]
         | t # st' \<Rightarrow> if t = ''..'' then e # st else st')
      else e # st)"

definition filepath_Clean :: "string \<Rightarrow> string" where
  "filepath_Clean p =
     (let rooted = (p \<noteq> [] \<and> hd p = CHR ''/'');
          body = join_with CHR ''/'' (rev (foldl (clean_elem rooted) [] (Split CHR ''/'' p)))
      in if rooted then CHR ''/'' # body else if body = '''' then ''.'' else body)"

text \<open>The part up to and including the last slash, and the part after it.\<close>

definition after_slash :: "string \<Rightarrow> string" where
  "after_slash p = rev (takeWhile (\<lambda>c. c \<noteq> CHR ''/'') (rev p))"

definition upto_slash :: "string \<Rightarrow> string" where
  "upto_slash p = rev (dropWhile (\<lambda>c. c \<noteq> CHR ''/'') (rev p))"

definition filepath_Dir :: "string \<Rightarrow> string" where
  "filepath_Dir p = filepath_Clean (upto_slash p)"

definition filepath_Base :: "string \<Rightarrow> string" where
  "filepath_Base p =
     (let q = rev (dropWhile (\<lambda>c. c = CHR ''/'') (rev p))
      in if p = '''' then ''.'' else if q = '''' then ''/'' else after_slash q)"

definition filepath_Ext :: "string \<Rightarrow> string" where
  "filepath_Ext p =
     (let e = after_slash p; x = takeWhile (\<lambda>c. c \<noteq> CHR ''.'') (rev e)
      in if length x = length e then '''' else CHR ''.'' # rev x)"

definition filepath_Join2 :: "string \<Rightarrow> string \<Rightarrow> string" where
  "filepath_Join2 a b =
     (if a = '''' \<and> b = '''' then ''''
      else filepath_Clean (join_with CHR ''/'' (filter (\<lambda>e. e \<noteq> '''') [a, b])))"

subsection \<open>Laws\<close>

lemma HasPrefix_iff: "HasPrefix s p \<longleftrightarrow> (\<exists>t. s = p @ t)"
  unfolding HasPrefix_def by (metis append_eq_conv_conj append_take_drop_id length_append le_add1)

lemma HasPrefix_append [simp]: "HasPrefix (p @ t) p"
  by (simp add: HasPrefix_iff)

lemma HasSuffix_iff: "HasSuffix s p \<longleftrightarrow> (\<exists>t. s = t @ p)"
  unfolding HasSuffix_def
  by (metis append_eq_conv_conj append_take_drop_id diff_add_inverse2 le_add2 length_append)

lemma TrimSuffix_append [simp]: "TrimSuffix (s @ p) p = s"
  by (simp add: TrimSuffix_def HasSuffix_def)

lemma Contains_iff: "Contains s sub \<longleftrightarrow> (\<exists>a b. s = a @ sub @ b)"
proof (induction s)
  case (Cons c s)
  note IH = Cons.IH
  show ?case
  proof
    assume "Contains (c # s) sub"
    then show "\<exists>a b. c # s = a @ sub @ b"
      using Cons.IH by (auto simp: HasPrefix_iff intro: exI [of _ "[]"]) (metis append_Cons)
  next
    assume "\<exists>a b. c # s = a @ sub @ b"
    then obtain a b where ab: "c # s = a @ sub @ b" by blast
    show "Contains (c # s) sub"
    proof (cases a)
      case Nil
      with ab have "HasPrefix (c # s) sub" by (simp add: HasPrefix_iff)
      then show ?thesis by simp
    next
      case (Cons d a')
      with ab have "\<exists>a b. s = a @ sub @ b" by auto
      with IH show ?thesis by simp
    qed
  qed
qed simp

lemma Contains_append [simp]: "Contains (a @ sub @ b) sub"
  by (auto simp: Contains_iff)

text \<open>The replacement happens at the first occurrence.\<close>

lemma Replace1_first:
  assumes "\<And>a' b'. a @ old @ b = a' @ old @ b' \<Longrightarrow> length a \<le> length a'" and "old \<noteq> []"
  shows "Replace1 (a @ old @ b) old new = a @ new @ b"
  using assms(1)
proof (induction a)
  case Nil
  then show ?case using assms(2) by (cases old) (simp_all add: HasPrefix_iff)
next
  case (Cons c a)
  have "\<not> HasPrefix ((c # a) @ old @ b) old"
    using Cons.prems [of "[]"] by (fastforce simp: HasPrefix_iff)
  moreover have "length a \<le> length a'" if "a @ old @ b = a' @ old @ b'" for a' b'
    using Cons.prems [of "c # a'" b'] that by simp
  ultimately show ?case using Cons.IH by simp
qed

lemma Replace1_absent: "\<not> Contains s old \<Longrightarrow> Replace1 s old new = s"
  by (induction s) auto

lemma Split_not_Nil [simp]: "Split sep s \<noteq> []"
  by (cases s) (auto split: list.splits)

lemma join_with_Cons: "ws \<noteq> [] \<Longrightarrow> join_with c (w # ws) = w @ c # join_with c ws"
  by (cases ws) simp_all

lemma join_with_extend: "join_with c ((x # w) # ws) = x # join_with c (w # ws)"
  by (cases ws) simp_all

lemma Split_join: "join_with sep (Split sep s) = s"
proof (induction s)
  case (Cons c s)
  obtain w ws where split: "Split sep s = w # ws" by (metis Split_not_Nil neq_Nil_conv)
  with Cons show ?case by (simp add: join_with_extend)
qed simp

lemma Split_append_sep: "Split sep (a @ sep # b) = Split sep a @ Split sep b"
proof (induction a)
  case (Cons c a)
  then show ?case by (cases "Split sep a") auto
qed simp

lemma Split_no_sep: "sep \<notin> set s \<Longrightarrow> Split sep s = [s]"
  by (induction s) auto

subsection \<open>Texts made of lines\<close>

text \<open>A text whose lines all end in a newline.\<close>

definition doc :: "string list \<Rightarrow> string" where
  "doc ls = concat (map (\<lambda>l. l @ [CHR 0x0A]) ls)"

lemma doc_simps [simp]:
  "doc [] = []" "doc (l # ls) = l @ CHR 0x0A # doc ls" "doc (xs @ ys) = doc xs @ doc ys"
  by (simp_all add: doc_def)

lemma HasPrefix_line:
  "x \<notin> set p \<Longrightarrow> HasPrefix (l @ x # d) p \<longleftrightarrow> HasPrefix l p"
proof (induction p arbitrary: l)
  case Nil
  then show ?case by (simp add: HasPrefix_def)
next
  case (Cons c p)
  then show ?case by (cases l) (auto simp: HasPrefix_def)
qed

lemma Contains_line:
  assumes "x \<notin> set sub" "sub \<noteq> []"
  shows "Contains (l @ x # d) sub \<longleftrightarrow> Contains l sub \<or> Contains d sub"
proof (induction l)
  case Nil
  show ?case using assms by (cases sub) (auto simp: HasPrefix_def)
next
  case (Cons c l)
  then show ?case using HasPrefix_line [OF assms(1), of "c # l" d] by auto
qed

lemma Replace1_line:
  assumes "x \<notin> set old" "old \<noteq> []"
  shows "Replace1 (l @ x # d) old new =
    (if Contains l old then Replace1 l old new @ x # d else l @ x # Replace1 d old new)"
proof (induction l)
  case Nil
  show ?case using assms by (cases old) (auto simp: HasPrefix_def)
next
  case (Cons c l)
  have "HasPrefix (c # l @ x # d) old \<longleftrightarrow> HasPrefix (c # l) old"
    using HasPrefix_line [OF assms(1), of "c # l" d] by simp
  moreover have "drop (length old) (c # l @ x # d) = drop (length old) (c # l) @ x # d"
    if "HasPrefix (c # l) old"
    using that unfolding HasPrefix_iff by (metis append_Cons append_assoc append_eq_conv_conj)
  ultimately show ?case using Cons by auto
qed

lemma Contains_doc:
  assumes "CHR 0x0A \<notin> set sub" "sub \<noteq> []"
  shows "Contains (doc ls) sub \<longleftrightarrow> (\<exists>l \<in> set ls. Contains l sub)"
  using assms by (induction ls) (auto simp: Contains_line)

lemma Replace1_doc:
  assumes "CHR 0x0A \<notin> set old" "old \<noteq> []" "\<forall>l \<in> set xs. \<not> Contains l old" "Contains l old"
  shows "Replace1 (doc (xs @ l # ys)) old new = doc (xs @ Replace1 l old new # ys)"
  using assms by (induction xs) (simp_all add: Replace1_line)

lemma Replace1_self: "old \<noteq> [] \<Longrightarrow> Replace1 old old new = new"
  by (cases old) (simp_all add: HasPrefix_def)

lemma Contains_refl [simp]: "Contains s s"
  using Contains_append [of "[]" s "[]"] by simp

lemma Contains_trans: "Contains s t \<Longrightarrow> Contains t u \<Longrightarrow> Contains s u"
  unfolding Contains_iff by (metis append.assoc)

lemma Contains_map: "Contains s sub \<Longrightarrow> Contains (map f s) (map f sub)"
  unfolding Contains_iff by (metis map_append)

end
