(* ===== verification/Host.thy ===== *)
theory Host
  imports Go_Time Go_Strings
begin

text \<open>
  The host a kucero pod works on and \<open>pkg/host\<close>: external commands (command.go), the kubelet
  restart (kubelet.go), cordon, drain and uncordon (kubectl.go).

  The state \<open>host\<close> has the file system (path to contents and mode) and the log of everything the
  daemon did to the outside, each with its answer. The parameter record \<open>host_env\<close> is what
  the daemon meets: it answers every command, clock reading and file access as a function of
  the whole state before it, the log included, so it may fail or answer differently at any
  time, and a command may change any file. \<open>range_keys\<close> is the order in which Go visits a map
  with these string keys; \<open>semver_AtLeast\<close> is \<open>MustParseSemantic(a).AtLeast(MustParseSemantic(b))\<close>
  of \<open>k8s.io/apimachinery\<close>, which panics on a version it cannot parse; the drain helpers are
  those of \<open>k8s.io/kubectl\<close>.
\<close>

record os_file =
  content :: bytes
  mode :: nat

type_synonym filesystem = "string \<Rightarrow> os_file option"

datatype event =
    EvRun "string list" "go_error option"
  | EvOutput "string list" "go_error + string"
  | EvNow time
  | EvReadFile string "go_error option"
  | EvStat string "go_error option"
  | EvWriteFile string bytes "go_error option"
  | EvLoadKubeconfig string "go_error option"
  | EvWriteKubeconfig string "go_error option"
  | EvCordonOrUncordon string bool "go_error option"
  | EvNodeDrain string "go_error option"
  | EvLockTest bool "go_error option"
  | EvLockAcquire bool "go_error option"
  | EvLockRelease "go_error option"

record host =
  files :: filesystem
  log :: "event list"

record drain_Helper =
  Force :: bool
  DeleteEmptyDirData :: bool
  IgnoreAllDaemonSets :: bool

record host_env =
  os_run :: "host \<Rightarrow> string list \<Rightarrow> go_error option \<times> filesystem"
  os_output :: "host \<Rightarrow> string list \<Rightarrow> (go_error + string) \<times> filesystem"
  os_now :: "host \<Rightarrow> time"
  os_tz :: "time \<Rightarrow> int"  \<comment> \<open>seconds east of UTC of the local zone at an instant\<close>
  os_lookupName :: "string \<Rightarrow> time \<Rightarrow> int option"
    \<comment> \<open>offset of a zone abbreviation in the local zone\<close>
  os_read_fault :: "host \<Rightarrow> string \<Rightarrow> go_error option"
  os_write_fault :: "host \<Rightarrow> string \<Rightarrow> bytes \<Rightarrow> (go_error \<times> os_file option) option"
    \<comment> \<open>an error and what the failed write leaves of the file\<close>
  os_umask :: "nat \<Rightarrow> nat"
  range_keys :: "host \<Rightarrow> string list \<Rightarrow> string list"
  semver_AtLeast :: "string \<Rightarrow> string \<Rightarrow> bool outcome"
  RunCordonOrUncordon :: "host \<Rightarrow> drain_Helper \<Rightarrow> string \<Rightarrow> bool \<Rightarrow> go_error option"
  RunNodeDrain :: "host \<Rightarrow> drain_Helper \<Rightarrow> string \<Rightarrow> go_error option"

definition emit :: "event \<Rightarrow> host \<Rightarrow> host" where
  "emit e h = h\<lparr>log := log h @ [e]\<rparr>"

subsection \<open>Commands\<close>

text \<open>An \<open>exec.Cmd\<close>: its arguments and whether a stream is wired to the logger.\<close>

record exec_Cmd =
  cmd_Args :: "string list"
  cmd_Stdout :: bool
  cmd_Stderr :: bool

definition NewCommand :: "string \<Rightarrow> string list \<Rightarrow> exec_Cmd" where
  "NewCommand name arg = \<lparr>cmd_Args = name # arg, cmd_Stdout = True, cmd_Stderr = True\<rparr>"

definition NewCommandWithStdout :: "string \<Rightarrow> string list \<Rightarrow> exec_Cmd" where
  "NewCommandWithStdout name arg = \<lparr>cmd_Args = name # arg, cmd_Stdout = False, cmd_Stderr = True\<rparr>"

definition Cmd_Run :: "'e host_env_scheme \<Rightarrow> exec_Cmd \<Rightarrow> host \<Rightarrow> go_error option \<times> host" where
  "Cmd_Run env cmd h =
     (let (err, fs) = os_run env h (cmd_Args cmd)
      in (err, emit (EvRun (cmd_Args cmd) err) (h\<lparr>files := fs\<rparr>)))"

text \<open>\<open>Cmd.Output\<close> refuses a command whose stdout is already wired.\<close>

definition Cmd_Output :: "'e host_env_scheme \<Rightarrow> exec_Cmd \<Rightarrow> host \<Rightarrow> (go_error + string) \<times> host" where
  "Cmd_Output env cmd h =
     (if cmd_Stdout cmd then (Inl (Error ''exec: Stdout already set''), h)
      else (let (res, fs) = os_output env h (cmd_Args cmd)
            in (res, emit (EvOutput (cmd_Args cmd) res) (h\<lparr>files := fs\<rparr>))))"

definition nsenter :: "string list \<Rightarrow> string list" where
  "nsenter args = ''-m/proc/1/ns/mnt'' # args"

definition RestartKubelet :: "'e host_env_scheme \<Rightarrow> string \<Rightarrow> host \<Rightarrow> go_error option \<times> host" where
  "RestartKubelet env nodeName h =
     Cmd_Run env (NewCommand ''/usr/bin/nsenter''
       (nsenter [''/usr/bin/systemctl'', ''restart'', ''kubelet''])) h"

definition Clock_Now :: "'e host_env_scheme \<Rightarrow> host \<Rightarrow> time \<times> host" where
  "Clock_Now env h = (let t = os_now env h in (t, emit (EvNow t) h))"

subsection \<open>Files\<close>

definition ReadFile :: "'e host_env_scheme \<Rightarrow> string \<Rightarrow> host \<Rightarrow> (go_error + bytes) \<times> host" where
  "ReadFile env path h =
     (case os_read_fault env h path of
        Some err \<Rightarrow> (Inl err, emit (EvReadFile path (Some err)) h)
      | None \<Rightarrow>
          (case files h path of
             None \<Rightarrow> (Inl (Error ''no such file or directory''),
                      emit (EvReadFile path (Some (Error ''no such file or directory''))) h)
           | Some f \<Rightarrow> (Inr (content f), emit (EvReadFile path None) h)))"

definition Stat :: "'e host_env_scheme \<Rightarrow> string \<Rightarrow> host \<Rightarrow> (go_error + nat) \<times> host" where
  "Stat env path h =
     (case os_read_fault env h path of
        Some err \<Rightarrow> (Inl err, emit (EvStat path (Some err)) h)
      | None \<Rightarrow>
          (case files h path of
             None \<Rightarrow> (Inl (Error ''no such file or directory''),
                      emit (EvStat path (Some (Error ''no such file or directory''))) h)
           | Some f \<Rightarrow> (Inr (mode f), emit (EvStat path None) h)))"

text \<open>\<open>ioutil.WriteFile\<close>: the mode only counts for a file that does not exist yet.\<close>

definition WriteFile ::
  "'e host_env_scheme \<Rightarrow> string \<Rightarrow> bytes \<Rightarrow> nat \<Rightarrow> host \<Rightarrow> go_error option \<times> host" where
  "WriteFile env path data perm h =
     (case os_write_fault env h path data of
        Some (err, rest) \<Rightarrow>
          (Some err, emit (EvWriteFile path data (Some err)) (h\<lparr>files := (files h)(path := rest)\<rparr>))
      | None \<Rightarrow>
          (let m = (case files h path of None \<Rightarrow> os_umask env perm | Some f \<Rightarrow> mode f)
           in (None, emit (EvWriteFile path data None)
                (h\<lparr>files := (files h)(path \<mapsto> \<lparr>content = data, mode = m\<rparr>)\<rparr>))))"

subsection \<open>Cordon, drain, uncordon\<close>

text \<open>All three log an error of the drain library and return nil.\<close>

definition Uncordon :: "'e host_env_scheme \<Rightarrow> string \<Rightarrow> host \<Rightarrow> go_error option \<times> host" where
  "Uncordon env nodeName h =
     (let drainer = \<lparr>Force = False, DeleteEmptyDirData = False, IgnoreAllDaemonSets = False\<rparr>;
          err = RunCordonOrUncordon env h drainer nodeName False
      in (None, emit (EvCordonOrUncordon nodeName False err) h))"

definition Cordon :: "'e host_env_scheme \<Rightarrow> string \<Rightarrow> host \<Rightarrow> go_error option \<times> host" where
  "Cordon env nodeName h =
     (let drainer = \<lparr>Force = False, DeleteEmptyDirData = False, IgnoreAllDaemonSets = False\<rparr>;
          err = RunCordonOrUncordon env h drainer nodeName True
      in (None, emit (EvCordonOrUncordon nodeName True err) h))"

definition Drain :: "'e host_env_scheme \<Rightarrow> string \<Rightarrow> host \<Rightarrow> go_error option \<times> host" where
  "Drain env nodeName h =
     (let drainer = \<lparr>Force = True, DeleteEmptyDirData = True, IgnoreAllDaemonSets = True\<rparr>;
          err = RunNodeDrain env h drainer nodeName
      in (None, emit (EvNodeDrain nodeName err) h))"

subsection \<open>Runs and their events\<close>

text \<open>
  \<open>runs P h h'\<close>: between \<open>h\<close> and \<open>h'\<close> the daemon only did things that \<open>P\<close> allows. The events
  between two states are \<open>events_between\<close>.
\<close>

definition runs :: "(event \<Rightarrow> bool) \<Rightarrow> host \<Rightarrow> host \<Rightarrow> bool" where
  "runs P h h' \<longleftrightarrow> (\<exists>es. log h' = log h @ es \<and> list_all P es)"

definition events_between :: "host \<Rightarrow> host \<Rightarrow> event list" where
  "events_between h h' = drop (length (log h)) (log h')"

lemma emit_simps [simp]:
  "log (emit e h) = log h @ [e]" "files (emit e h) = files h"
  by (simp_all add: emit_def)

lemma runs_refl [simp, intro]: "runs P h h"
  by (simp add: runs_def)

lemma runs_trans [trans]: "runs P h h1 \<Longrightarrow> runs P h1 h2 \<Longrightarrow> runs P h h2"
  by (fastforce simp: runs_def)

lemma runs_mono: "runs P h h' \<Longrightarrow> (\<And>e. P e \<Longrightarrow> Q e) \<Longrightarrow> runs Q h h'"
  by (auto simp: runs_def list.pred_mono_strong)

lemma runs_emit [simp]: "runs P h (emit e h) \<longleftrightarrow> P e"
  by (auto simp: runs_def)

lemma runs_emit_files [simp]: "runs P h (emit e (h\<lparr>files := fs\<rparr>)) \<longleftrightarrow> P e"
  by (auto simp: runs_def)

lemma runs_same_log [simp]: "log h1 = log h \<Longrightarrow> runs P h h1"
  by (simp add: runs_def)

lemma runs_then_emit: "runs P h h1 \<Longrightarrow> P e \<Longrightarrow> runs P h (emit e h1)"
  by (fastforce simp: runs_def)

lemma events_between_runs: "runs P h h' \<Longrightarrow> e \<in> set (events_between h h') \<Longrightarrow> P e"
  by (auto simp: runs_def events_between_def list_all_iff)

lemma events_between_append:
  assumes "runs (\<lambda>_. True) h h1" "runs (\<lambda>_. True) h1 h2"
  shows "events_between h h2 = events_between h h1 @ events_between h1 h2"
  using assms by (auto simp: runs_def events_between_def)

lemma events_between_self [simp]: "events_between h h = []"
  by (simp add: events_between_def)

lemma events_between_emit [simp]:
  "events_between h (emit e h) = [e]" "events_between h (emit e (h\<lparr>files := fs\<rparr>)) = [e]"
  by (simp_all add: events_between_def)

lemma log_events_between: "runs P h h' \<Longrightarrow> log h' = log h @ events_between h h'"
  by (auto simp: runs_def events_between_def)

text \<open>Each operation of the host does exactly one thing.\<close>

lemma runs_Cmd_Run [effects]:
  "Cmd_Run env cmd h = (err, h') \<Longrightarrow> events_between h h' = [EvRun (cmd_Args cmd) err]"
  "Cmd_Run env cmd h = (err, h') \<Longrightarrow> P (EvRun (cmd_Args cmd) err) \<Longrightarrow> runs P h h'"
  by (auto simp: Cmd_Run_def split: prod.splits)

lemma runs_Cmd_Output [effects]:
  "Cmd_Output env (NewCommandWithStdout c args) h = (res, h') \<Longrightarrow>
     events_between h h' = [EvOutput (c # args) res]"
  "Cmd_Output env (NewCommandWithStdout c args) h = (res, h') \<Longrightarrow>
     P (EvOutput (c # args) res) \<Longrightarrow> runs P h h'"
  by (auto simp: Cmd_Output_def NewCommandWithStdout_def split: prod.splits)

lemma runs_Clock_Now [effects]:
  "Clock_Now env h = (t, h') \<Longrightarrow> P (EvNow t) \<Longrightarrow> runs P h h'"
  by (auto simp: Clock_Now_def Let_def)

lemma runs_ReadFile [effects]:
  "ReadFile env path h = (res, h') \<Longrightarrow> (\<And>err. P (EvReadFile path err)) \<Longrightarrow> runs P h h' \<and> files h' = files h"
  by (auto simp: ReadFile_def split: option.splits)

lemma runs_Stat [effects]:
  "Stat env path h = (res, h') \<Longrightarrow> (\<And>err. P (EvStat path err)) \<Longrightarrow> runs P h h' \<and> files h' = files h"
  by (auto simp: Stat_def split: option.splits)

lemma runs_WriteFile [effects]:
  "WriteFile env path data perm h = (err, h') \<Longrightarrow> P (EvWriteFile path data err) \<Longrightarrow> runs P h h'"
  by (auto simp: WriteFile_def Let_def split: option.splits)

subsection \<open>A quiet host\<close>

text \<open>Commands without output succeed, nothing fails, maps are visited in order; for examples.\<close>

definition quiet_env :: host_env where
  "quiet_env = \<lparr>
     os_run = (\<lambda>h args. (None, files h)),
     os_output = (\<lambda>h args. (Inr '''', files h)),
     os_now = (\<lambda>h. 0),
     os_tz = (\<lambda>t. 0),
     os_lookupName = (\<lambda>name t. None),
     os_read_fault = (\<lambda>h path. None),
     os_write_fault = (\<lambda>h path data. None),
     os_umask = (\<lambda>m. m),
     range_keys = (\<lambda>h ks. ks),
     semver_AtLeast = (\<lambda>a b. Returned True),
     RunCordonOrUncordon = (\<lambda>h drainer node b. None),
     RunNodeDrain = (\<lambda>h drainer node. None)\<rparr>"

end
