(* ===== verification/Go_Regexp.thy ===== *)
theory Go_Regexp
  imports Kucero_Prelude
begin

text \<open>
  Go's \<open>regexp\<close> for expressions of the shape kucero uses: a sequence of segments, each captured
  or not, of greedily repeated character classes. Matching is leftmost-first: among the ways to
  match at the leftmost possible position, the one a backtracking search with greedy
  repetitions finds first. \<open>seq_matches\<close> lists all ways in that order; \<open>FindStringSubmatch\<close>
  takes the first. Strings are bytes: the expression of kucero has an ASCII byte at every
  border between repetitions, so a repetition of \<open>.\<close> never ends inside a multi-byte rune.
\<close>

datatype char_class = Dot | Letter | Digit | Lit char

fun in_class :: "char_class \<Rightarrow> char \<Rightarrow> bool" where
  "in_class Dot c = (c \<noteq> CHR 0x0A)"
| "in_class Letter c =
     (let n = of_char c :: nat in 97 \<le> n \<and> n \<le> 122 \<or> 65 \<le> n \<and> n \<le> 90)"
| "in_class Digit c = (let n = of_char c :: nat in 48 \<le> n \<and> n \<le> 57)"
| "in_class (Lit d) c = (c = d)"

text \<open>\<open>Rep c lo hi\<close>: at least \<open>lo\<close> and, if given, at most \<open>hi\<close> characters of class \<open>c\<close>.\<close>

datatype atom = Rep char_class nat "nat option"

datatype segment = Group "atom list" | Plain "atom list"

fun atom_matches :: "atom \<Rightarrow> string \<Rightarrow> (string \<times> string) list" where
  "atom_matches (Rep c lo hi) s =
     (let k = length (takeWhile (in_class c) s);
          k = (case hi of None \<Rightarrow> k | Some m \<Rightarrow> min k m)
      in map (\<lambda>i. (take i s, drop i s)) (rev [lo..<Suc k]))"

fun seq_matches :: "atom list \<Rightarrow> string \<Rightarrow> (string \<times> string) list" where
  "seq_matches [] s = [([], s)]"
| "seq_matches (a # as) s =
     concat (map (\<lambda>(x, r). map (\<lambda>(y, r'). (x @ y, r')) (seq_matches as r)) (atom_matches a s))"

fun re_matches :: "segment list \<Rightarrow> string \<Rightarrow> (string list \<times> string) list" where
  "re_matches [] s = [([], s)]"
| "re_matches (Group as # segs) s =
     concat (map (\<lambda>(x, r). map (\<lambda>(gs, r'). (x # gs, r')) (re_matches segs r)) (seq_matches as s))"
| "re_matches (Plain as # segs) s =
     concat (map (\<lambda>(x, r). re_matches segs r) (seq_matches as s))"

text \<open>The submatches of the first match, the whole match first; \<open>None\<close> is Go's nil.\<close>

fun FindStringSubmatch :: "segment list \<Rightarrow> string \<Rightarrow> string list option" where
  "FindStringSubmatch re [] =
     (case re_matches re [] of [] \<Rightarrow> None | (gs, r) # _ \<Rightarrow> Some ([] # gs))"
| "FindStringSubmatch re (c # s) =
     (case re_matches re (c # s) of
        (gs, r) # _ \<Rightarrow> Some (take (length (c # s) - length r) (c # s) # gs)
      | [] \<Rightarrow> FindStringSubmatch re s)"

subsection \<open>What the matches are\<close>

fun atom_lang :: "atom \<Rightarrow> string \<Rightarrow> bool" where
  "atom_lang (Rep c lo hi) x \<longleftrightarrow> list_all (in_class c) x \<and> lo \<le> length x \<and>
     (case hi of None \<Rightarrow> True | Some m \<Rightarrow> length x \<le> m)"

fun seq_lang :: "atom list \<Rightarrow> string \<Rightarrow> bool" where
  "seq_lang [] x \<longleftrightarrow> x = []"
| "seq_lang (a # as) x \<longleftrightarrow> (\<exists>y z. x = y @ z \<and> atom_lang a y \<and> seq_lang as z)"

lemma take_in_takeWhile:
  "list_all P (take i s) \<and> i \<le> length s \<longleftrightarrow> i \<le> length (takeWhile P s)"
proof (induction s arbitrary: i)
  case (Cons c s)
  then show ?case by (cases i) auto
qed simp

lemma atom_matches_iff: "(x, r) \<in> set (atom_matches a s) \<longleftrightarrow> s = x @ r \<and> atom_lang a x"
proof (cases a)
  case (Rep c lo hi)
  have "(x, r) \<in> set (atom_matches a s) \<longleftrightarrow>
      (\<exists>i. x = take i s \<and> r = drop i s \<and> lo \<le> i \<and> i \<le> length (takeWhile (in_class c) s) \<and>
           (case hi of None \<Rightarrow> True | Some m \<Rightarrow> i \<le> m))"
    by (cases hi) (auto simp: Rep Let_def less_Suc_eq_le image_iff simp del: upt_Suc)
  also have "\<dots> \<longleftrightarrow> s = x @ r \<and> atom_lang a x"
  proof
    assume "\<exists>i. x = take i s \<and> r = drop i s \<and> lo \<le> i \<and> i \<le> length (takeWhile (in_class c) s) \<and>
           (case hi of None \<Rightarrow> True | Some m \<Rightarrow> i \<le> m)"
    then show "s = x @ r \<and> atom_lang a x"
      using take_in_takeWhile [of "in_class c" _ s] by (fastforce simp: Rep split: option.splits)
  next
    assume "s = x @ r \<and> atom_lang a x"
    then show "\<exists>i. x = take i s \<and> r = drop i s \<and> lo \<le> i \<and> i \<le> length (takeWhile (in_class c) s) \<and>
           (case hi of None \<Rightarrow> True | Some m \<Rightarrow> i \<le> m)"
      using take_in_takeWhile [of "in_class c" "length x" s]
      by (intro exI [of _ "length x"]) (auto simp: Rep split: option.splits)
  qed
  finally show ?thesis .
qed

lemma seq_matches_iff: "(x, r) \<in> set (seq_matches as s) \<longleftrightarrow> s = x @ r \<and> seq_lang as x"
proof (induction as arbitrary: x s)
  case (Cons a as)
  have "(x, r) \<in> set (seq_matches (a # as) s) \<longleftrightarrow>
      (\<exists>y q z. (y, q) \<in> set (atom_matches a s) \<and> (z, r) \<in> set (seq_matches as q) \<and> x = y @ z)"
    by force
  also have "\<dots> \<longleftrightarrow> s = x @ r \<and> seq_lang (a # as) x"
    unfolding atom_matches_iff Cons.IH by (auto, blast)
  finally show ?case .
qed auto

fun re_split :: "segment list \<Rightarrow> string \<Rightarrow> string list \<Rightarrow> string \<Rightarrow> bool" where
  "re_split [] s gs r \<longleftrightarrow> gs = [] \<and> r = s"
| "re_split (Group as # segs) s gs r \<longleftrightarrow>
     (\<exists>x q gs'. s = x @ q \<and> seq_lang as x \<and> gs = x # gs' \<and> re_split segs q gs' r)"
| "re_split (Plain as # segs) s gs r \<longleftrightarrow>
     (\<exists>x q. s = x @ q \<and> seq_lang as x \<and> re_split segs q gs r)"

lemma re_matches_iff: "(gs, r) \<in> set (re_matches segs s) \<longleftrightarrow> re_split segs s gs r"
proof (induction segs s arbitrary: gs r rule: re_matches.induct)
  case (2 as segs s)
  have "(gs, r) \<in> set (re_matches (Group as # segs) s) \<longleftrightarrow>
      (\<exists>x q gs'. (x, q) \<in> set (seq_matches as s) \<and> (gs', r) \<in> set (re_matches segs q) \<and> gs = x # gs')"
    by force
  also have "\<dots> \<longleftrightarrow> (\<exists>x q gs'. (x, q) \<in> set (seq_matches as s) \<and> re_split segs q gs' r \<and> gs = x # gs')"
    using "2" by blast
  finally show ?case by (auto simp: seq_matches_iff)
next
  case (3 as segs s)
  have "(gs, r) \<in> set (re_matches (Plain as # segs) s) \<longleftrightarrow>
      (\<exists>x q. (x, q) \<in> set (seq_matches as s) \<and> (gs, r) \<in> set (re_matches segs q))"
    by force
  also have "\<dots> \<longleftrightarrow> (\<exists>x q. (x, q) \<in> set (seq_matches as s) \<and> re_split segs q gs r)"
    using "3" by blast
  finally show ?case by (auto simp: seq_matches_iff)
qed auto

lemma concat_map_concat: "concat (map f (concat xss)) = concat (map (\<lambda>xs. concat (map f xs)) xss)"
  by (induction xss) auto

lemma concat_concat: "concat (concat xsss) = concat (map concat xsss)"
  by (induction xsss) auto

lemma re_matches_append:
  "re_matches (as @ bs) s =
     concat (map (\<lambda>(gs, r). map (\<lambda>(gs', r'). (gs @ gs', r')) (re_matches bs r)) (re_matches as s))"
proof (induction as s rule: re_matches.induct)
  case (2 as segs s)
  let ?f = "\<lambda>(gs, r). map (\<lambda>(gs', r'). (gs @ gs', r')) (re_matches bs r)"
  have IH: "re_matches (segs @ bs) (snd x) = concat (map ?f (re_matches segs (snd x)))"
    if "x \<in> set (seq_matches as s)" for x
    using that "2" by (metis prod.collapse)
  have "re_matches ((Group as # segs) @ bs) s =
      concat (map (\<lambda>x. map (\<lambda>(gs, r'). (fst x # gs, r')) (re_matches (segs @ bs) (snd x))) (seq_matches as s))"
    by (simp add: split_def)
  also have "\<dots> = concat (map (\<lambda>x. map (\<lambda>(gs, r'). (fst x # gs, r'))
      (concat (map ?f (re_matches segs (snd x))))) (seq_matches as s))"
    by (simp add: IH cong: map_cong)
  also have "\<dots> = concat (map ?f (re_matches (Group as # segs) s))"
    by (simp add: map_concat concat_concat split_def comp_def)
  finally show ?case .
next
  case (3 as segs s)
  let ?f = "\<lambda>(gs, r). map (\<lambda>(gs', r'). (gs @ gs', r')) (re_matches bs r)"
  have IH: "re_matches (segs @ bs) (snd x) = concat (map ?f (re_matches segs (snd x)))"
    if "x \<in> set (seq_matches as s)" for x
    using that "3" by (metis prod.collapse)
  have "re_matches ((Plain as # segs) @ bs) s =
      concat (map (\<lambda>x. re_matches (segs @ bs) (snd x)) (seq_matches as s))"
    by (simp add: split_def)
  also have "\<dots> = concat (map (\<lambda>x. concat (map ?f (re_matches segs (snd x)))) (seq_matches as s))"
    by (simp add: IH cong: map_cong)
  also have "\<dots> = concat (map ?f (re_matches (Plain as # segs) s))"
    by (simp add: map_concat concat_concat split_def comp_def)
  finally show ?case .
qed (simp add: split_def)

text \<open>
  An expression that ends in \<open>(.*)\<close>: when the part before it can only match in one way, the
  submatches are those of that way and everything after it.
\<close>

lemma takeWhile_Dot: "CHR 0x0A \<notin> set s \<Longrightarrow> takeWhile (in_class Dot) s = s"
  by (auto simp: takeWhile_eq_all_conv)

lemma FindStringSubmatch_unique:
  assumes split: "re_split segs s gs r"
    and unique: "\<And>gs' r'. re_split segs s gs' r' \<Longrightarrow> gs' = gs \<and> r' = r"
    and line: "CHR 0x0A \<notin> set r"
  shows "FindStringSubmatch (segs @ [Group [Rep Dot 0 None]]) s = Some (s # gs @ [r])"
proof -
  have in_set: "(gs, r) \<in> set (re_matches segs s)" using split by (simp add: re_matches_iff)
  then obtain ms where ms: "re_matches segs s = (gs, r) # ms"
    using unique re_matches_iff by (metis list.exhaust list.set_intros(1) prod.collapse empty_iff list.set(1))
  obtain ts where last: "re_matches [Group [Rep Dot 0 None]] r = ([r], []) # ts"
    using line by (simp add: takeWhile_Dot Let_def)
  have "\<exists>ms'. re_matches (segs @ [Group [Rep Dot 0 None]]) s = (gs @ [r], []) # ms'"
    unfolding re_matches_append ms by (simp add: last del: re_matches.simps)
  then obtain ms' where "re_matches (segs @ [Group [Rep Dot 0 None]]) s = (gs @ [r], []) # ms'" ..
  then show ?thesis by (cases s) simp_all
qed

lemma FindStringSubmatch_None:
  assumes "\<And>t gs r. suffix t s \<Longrightarrow> \<not> re_split re t gs r"
  shows "FindStringSubmatch re s = None"
  using assms
proof (induction s)
  case Nil
  then have "re_matches re [] = []"
    using re_matches_iff by (metis list.set_intros(1) neq_Nil_conv prod.collapse suffix_order.refl)
  then show ?case by simp
next
  case (Cons c s)
  then have "re_matches re (c # s) = []"
    using re_matches_iff by (metis list.set_intros(1) neq_Nil_conv prod.collapse suffix_order.refl)
  with Cons show ?case by (simp add: suffix_ConsI)
qed

end
