(* ===== verification/Go_Time_Parse.thy ===== *)
theory Go_Time_Parse
  imports Go_Time "HOL-Library.Monad_Syntax"
begin

text \<open>
  Go's \<open>time.Parse\<close> for the layout \<open>Jan 02, 2006 15:04 MST\<close>, element by element as
  \<open>time.parse\<close> does it: literal text between the elements is skipped with \<open>skip\<close>, month names
  are compared without regard to case, the day and the minute have two digits, the hour one
  or two, the year four. The zone \<open>UTC\<close> is known; any other abbreviation is looked up in the
  local zone (parameter \<open>lookupName\<close>, which gets the wall time read as UTC) and counts as UTC
  when it is not found there. \<open>None\<close> stands for every parse error: kucero prints it and goes on.
\<close>

definition isDigit :: "char \<Rightarrow> bool" where
  "isDigit c \<longleftrightarrow> 48 \<le> (of_char c :: nat) \<and> (of_char c :: nat) \<le> 57"

definition digitval :: "char \<Rightarrow> int" where
  "digitval c = of_char c - 48"

definition lower :: "char \<Rightarrow> nat" where
  "lower c = (let n = of_char c in if 65 \<le> n \<and> n \<le> 90 then n + 32 else n)"

definition eq_fold :: "string \<Rightarrow> string \<Rightarrow> bool" where
  "eq_fold s t \<longleftrightarrow> map lower s = map lower t"

definition shortMonthNames :: "string list" where
  "shortMonthNames = [''Jan'', ''Feb'', ''Mar'', ''Apr'', ''May'', ''Jun'',
     ''Jul'', ''Aug'', ''Sep'', ''Oct'', ''Nov'', ''Dec'']"

fun lookup_month :: "string list \<Rightarrow> int \<Rightarrow> string \<Rightarrow> (int \<times> string) option" where
  "lookup_month [] i v = None"
| "lookup_month (n # ns) i v =
     (if length n \<le> length v \<and> eq_fold (take (length n) v) n then Some (i, drop (length n) v)
      else lookup_month ns (i + 1) v)"

definition cutspace :: "string \<Rightarrow> string" where
  "cutspace s = dropWhile (\<lambda>c. c = CHR '' '') s"

function skip :: "string \<Rightarrow> string \<Rightarrow> string option" where
  "skip v [] = Some v"
| "skip v (p # ps) =
     (if p = CHR '' '' then
        (if v \<noteq> [] \<and> hd v \<noteq> CHR '' '' then None else skip (cutspace v) (cutspace ps))
      else (case v of [] \<Rightarrow> None | c # v' \<Rightarrow> if c = p then skip v' ps else None))"
  by pat_completeness auto
termination
  by (relation "measure (\<lambda>(v, ps). length ps)")
     (auto simp: cutspace_def intro: le_less_trans [OF length_dropWhile_le])

definition getnum :: "bool \<Rightarrow> string \<Rightarrow> (int \<times> string) option" where
  "getnum fixed s =
     (case s of
        [] \<Rightarrow> None
      | a # r \<Rightarrow>
          if \<not> isDigit a then None
          else (case r of
                  b # r' \<Rightarrow> if isDigit b then Some (digitval a * 10 + digitval b, r')
                            else if fixed then None else Some (digitval a, r)
                | [] \<Rightarrow> if fixed then None else Some (digitval a, r)))"

definition getyear :: "string \<Rightarrow> (int \<times> string) option" where
  "getyear s =
     (let p = take 4 s
      in if length s < 4 \<or> \<not> list_all isDigit p then None
         else Some (foldl (\<lambda>n c. n * 10 + digitval c) 0 p, drop 4 s))"

text \<open>Zone abbreviations: \<open>parseTimeZone\<close> and, for \<open>GMT+3\<close> and \<open>+03\<close>, \<open>parseSignedOffset\<close>.\<close>

definition parseSignedOffset :: "string \<Rightarrow> nat" where
  "parseSignedOffset s =
     (case s of
        [] \<Rightarrow> 0
      | c # r \<Rightarrow>
          (let ds = takeWhile isDigit r
           in if c \<noteq> CHR ''-'' \<and> c \<noteq> CHR ''+'' then 0
              else if ds = [] \<or> 23 < foldl (\<lambda>n c. n * 10 + digitval c) 0 ds then 0
              else 1 + length ds))"

definition isUpper :: "char \<Rightarrow> bool" where
  "isUpper c \<longleftrightarrow> 65 \<le> (of_char c :: nat) \<and> (of_char c :: nat) \<le> 90"

definition parseTimeZone :: "string \<Rightarrow> nat option" where
  "parseTimeZone v =
     (if length v < 3 then None
      else if take 4 v = ''ChST'' \<or> take 4 v = ''MeST'' then Some 4
      else if take 3 v = ''GMT'' then Some (3 + parseSignedOffset (drop 3 v))
      else if hd v = CHR ''+'' \<or> hd v = CHR ''-'' then
        (let n = parseSignedOffset v in if 0 < n then Some n else None)
      else (let n = length (takeWhile isUpper (take 6 v))
            in if n = 5 \<and> v ! 4 = CHR ''T'' then Some 5
               else if n = 4 \<and> (v ! 3 = CHR ''T'' \<or> take 4 v = ''WITA'') then Some 4
               else if n = 3 then Some 3 else None))"

text \<open>The zone element: the offset in seconds east of UTC to apply, and the rest.\<close>

definition getzone :: "(string \<Rightarrow> time \<Rightarrow> int option) \<Rightarrow> time \<Rightarrow> string \<Rightarrow> (int \<times> string) option" where
  "getzone lookupName wall v =
     (if take 3 v = ''UTC'' then Some (0, drop 3 v)
      else (case parseTimeZone v of
              None \<Rightarrow> None
            | Some n \<Rightarrow>
                Some (case lookupName (take n v) wall of None \<Rightarrow> 0 | Some off \<Rightarrow> off, drop n v)))"

definition time_Parse :: "(string \<Rightarrow> time \<Rightarrow> int option) \<Rightarrow> string \<Rightarrow> time option" where
  "time_Parse lookupName v =
     do {
       (month, v) \<leftarrow> lookup_month shortMonthNames 1 v;
       v \<leftarrow> skip v '' '';
       (day, v) \<leftarrow> getnum True v;
       v \<leftarrow> skip v '', '';
       (year, v) \<leftarrow> getyear v;
       v \<leftarrow> skip v '' '';
       (hour, v) \<leftarrow> getnum False v;
       (if hour < 24 then Some () else None);
       v \<leftarrow> skip v '':'';
       (minute, v) \<leftarrow> getnum True v;
       (if minute < 60 then Some () else None);
       v \<leftarrow> skip v '' '';
       (offset, v) \<leftarrow> getzone lookupName (Date year month day hour minute 0 0) v;
       (if v = [] then Some () else None);
       (if 1 \<le> day \<and> day \<le> daysIn month year then Some () else None);
       Some (Date year month day hour minute 0 0 - offset * 1000000000)
     }"

subsection \<open>Formatting and parsing\<close>

text \<open>\<open>t.Format("Jan 02, 2006 15:04 MST")\<close> of a UTC date with four-digit year.\<close>

definition Format_expiry :: "int \<Rightarrow> int \<Rightarrow> int \<Rightarrow> int \<Rightarrow> int \<Rightarrow> string" where
  "Format_expiry year month day hour minute =
     shortMonthNames ! nat (month - 1) @ '' '' @ appendInt day 2 @ '', '' @ appendInt year 4 @ '' '' @
     appendInt hour 2 @ '':'' @ appendInt minute 2 @ '' UTC''"

definition calendar_minute :: "int \<Rightarrow> int \<Rightarrow> int \<Rightarrow> int \<Rightarrow> int \<Rightarrow> bool" where
  "calendar_minute year month day hour minute \<longleftrightarrow>
     0 \<le> year \<and> year \<le> 9999 \<and> 1 \<le> month \<and> month \<le> 12 \<and> 1 \<le> day \<and> day \<le> daysIn month year \<and>
     0 \<le> hour \<and> hour < 24 \<and> 0 \<le> minute \<and> minute < 60"

lemma of_char_digit: "(of_char (digit n) :: nat) = nat (48 + n mod 10)"
  unfolding digit_def by (simp add: of_char_of nat_less_iff) 

lemma isDigit_digit [simp]: "isDigit (digit n)"
  by (simp add: isDigit_def of_char_digit nat_le_iff le_nat_iff) 

lemma digitval_digit [simp]: "digitval (digit n) = n mod 10"
proof -
  have "(of_char (digit n) :: int) = int (of_char (digit n))" by (simp add: of_char_def)
  then show ?thesis by (simp add: digitval_def of_char_digit)
qed

lemma appendInt2: "appendInt n 2 = [digit (n div 10), digit n]"
  by (simp add: numeral_2_eq_2)

lemma appendInt4: "appendInt n 4 = [digit (n div 1000), digit (n div 100), digit (n div 10), digit n]"
  by (simp add: numeral_eq_Suc div_mult2_eq [symmetric] zdiv_zmult2_eq [symmetric])

lemma getnum_digits:
  "0 \<le> n \<Longrightarrow> n < 100 \<Longrightarrow> getnum fixed (digit (n div 10) # digit n # s) = Some (n, s)"
  by (simp add: getnum_def)

lemma getyear_digits:
  assumes "0 \<le> n" "n \<le> 9999"
  shows "getyear (digit (n div 1000) # digit (n div 100) # digit (n div 10) # digit n # s) = Some (n, s)"
proof -
  define a b c where "a = n div 10" and "b = a div 10" and "c = b div 10"
  have quot: "n div 100 = b" "n div 1000 = c"
    unfolding a_def b_def c_def by (simp_all add: zdiv_zmult2_eq [symmetric])
  have "c < 10" "0 \<le> c" unfolding quot(2) [symmetric] using assms by simp_all
  then have "c mod 10 = c" by simp
  moreover have "b = c * 10 + b mod 10" "a = b * 10 + a mod 10" "n = a * 10 + n mod 10"
    unfolding a_def b_def c_def by simp_all
  ultimately have "((c mod 10 * 10 + b mod 10) * 10 + a mod 10) * 10 + n mod 10 = n" by simp
  then show ?thesis by (simp add: getyear_def Let_def quot a_def [symmetric])
qed

lemma month_cases:
  fixes m :: int
  assumes "1 \<le> m" "m \<le> 12"
  shows "m \<in> {1, 2, 3, 4, 5, 6, 7, 8, 9, 10, 11, 12}"
  using assms by (simp, presburger)

lemma lookup_month_name:
  assumes "1 \<le> m" "m \<le> 12"
  shows "lookup_month shortMonthNames 1 (shortMonthNames ! nat (m - 1) @ CHR '' '' # s) =
           Some (m, CHR '' '' # s)"
  using month_cases [OF assms]
  by (elim insertE emptyE) (simp_all add: shortMonthNames_def eq_fold_def lower_def)

lemma daysIn_le:
  assumes "1 \<le> m" "m \<le> 12"
  shows "daysIn m y \<le> 31"
  using month_cases [OF assms]
  by (elim insertE emptyE) (simp_all add: daysIn_def daysBefore_def)

lemma digit_not_space [simp]: "digit n \<noteq> CHR '' ''"
proof
  assume "digit n = CHR '' ''"
  with isDigit_digit [of n] show False by (simp add: isDigit_def)
qed

lemma skip_layout:
  "c \<noteq> CHR '' '' \<Longrightarrow> skip (CHR '' '' # c # s) '' '' = Some (c # s)"
  "c \<noteq> CHR '' '' \<Longrightarrow> skip (CHR '','' # CHR '' '' # c # s) '', '' = Some (c # s)"
  "skip (CHR '':'' # s) '':'' = Some s"
  by (simp_all add: cutspace_def)

lemma time_Parse_Format_expiry:
  assumes "calendar_minute year month day hour minute"
  shows "time_Parse lookupName (Format_expiry year month day hour minute) =
           Some (Date year month day hour minute 0 0)"
proof -
  have "day < 100" "0 \<le> day"
    using assms daysIn_le [of month year] by (auto simp: calendar_minute_def)
  with assms show ?thesis
    unfolding calendar_minute_def time_Parse_def Format_expiry_def appendInt2 appendInt4
    by (simp add: lookup_month_name getnum_digits getyear_digits skip_layout getzone_def
        del: skip.simps)
qed

end
