(* ===== verification/Kubeadm_Output.thy ===== *)
theory Kubeadm_Output
  imports Go_Regexp Go_Strings Go_Time_Parse
begin

text \<open>
  Reading the output of \<open>kubeadm certs check-expiration\<close>
  (\<open>parsekubeadmAlphaCertsCheckExpiration\<close> of pkg/pki/cert/kubeadm/exec.go): after a line with
  the two column titles, every line that matches the regular expression and whose date parses
  gives a certificate and its expiry. The tables that kubeadm prints are read back exactly.
\<close>

definition one :: "char \<Rightarrow> atom" where
  "one c = Rep (Lit c) 1 (Some 1)"

definition date_atoms :: "atom list" where
  "date_atoms =
     [Rep Letter 1 None, one CHR '' '', Rep Digit 1 (Some 2), one CHR '','', one CHR '' '',
      Rep Digit 4 (Some 4), one CHR '' '', Rep Digit 1 (Some 2), one CHR '':'', Rep Digit 2 (Some 2),
      one CHR '' '', Rep Letter 1 None]"

definition expiration_prefix :: "segment list" where
  "expiration_prefix =
     [Group [Rep Dot 0 None], Plain [one CHR '' ''], Group date_atoms, Plain [one CHR '' '']]"

definition expiration_re :: "segment list" where
  "expiration_re = expiration_prefix @ [Group [Rep Dot 0 None]]"

text \<open>What one line of the table contributes.\<close>

definition line_entry ::
  "(string \<Rightarrow> time \<Rightarrow> int option) \<Rightarrow> string \<Rightarrow> (string \<times> time) option" where
  "line_entry lookupName line =
     (case FindStringSubmatch expiration_re line of
        None \<Rightarrow> None
      | Some ss \<Rightarrow>
          if length ss < 3 then None
          else (case time_Parse lookupName (ss ! 2) of
                  None \<Rightarrow> None
                | Some t \<Rightarrow> Some (TrimSpace (ss ! 1), t)))"

fun parse_lines ::
  "(string \<Rightarrow> time \<Rightarrow> int option) \<Rightarrow> bool \<Rightarrow> string list \<Rightarrow> (string \<times> time) list \<Rightarrow> (string \<times> time) list" where
  "parse_lines lookupName parse [] certExpires = certExpires"
| "parse_lines lookupName parse (line # lines) certExpires =
     (let certExpires = (if parse then
            (case line_entry lookupName line of
               None \<Rightarrow> certExpires
             | Some (cert, t) \<Rightarrow> map_put cert t certExpires)
            else certExpires);
          parse = (Contains line ''CERTIFICATE'' \<and> Contains line ''EXPIRES'' \<or> parse)
      in parse_lines lookupName parse lines certExpires)"

definition parsekubeadmAlphaCertsCheckExpiration ::
  "(string \<Rightarrow> time \<Rightarrow> int option) \<Rightarrow> string \<Rightarrow> (string \<times> time) list" where
  "parsekubeadmAlphaCertsCheckExpiration lookupName input =
     parse_lines lookupName False (Split CHR 0x0A input) []"

lemma distinct_parse_lines:
  "distinct (map fst m) \<Longrightarrow> distinct (map fst (parse_lines lookupName parse lines m))"
  by (induction lookupName parse lines m rule: parse_lines.induct)
     (auto simp: Let_def split: option.splits prod.splits)

lemma distinct_parse:
  "distinct (map fst (parsekubeadmAlphaCertsCheckExpiration lookupName input))"
  by (simp add: parsekubeadmAlphaCertsCheckExpiration_def distinct_parse_lines)

subsection \<open>Matching one row\<close>

lemma atom_lang_one: "atom_lang (one c) x \<longleftrightarrow> x = [c]"
  by (auto simp: one_def length_Suc_conv le_Suc_eq)

lemma seq_lang_one: "seq_lang (one c # as) x \<longleftrightarrow> (\<exists>z. x = c # z \<and> seq_lang as z)"
  by (simp add: atom_lang_one)

lemma seq_lang_one_only: "seq_lang [one c] x \<longleftrightarrow> x = [c]"
  by (simp add: atom_lang_one)

lemma first_sep_eq:
  "x \<notin> set a \<Longrightarrow> x \<notin> set a' \<Longrightarrow> a @ x # b = a' @ x # b' \<longleftrightarrow> a = a' \<and> b = b'"
proof (induction a arbitrary: a')
  case Nil then show ?case by (cases a') auto
next
  case (Cons c a) then show ?case by (cases a') auto
qed

lemma last_sep_eq:
  assumes "x \<notin> set b" "x \<notin> set b'"
  shows "a @ x # b = a' @ x # b' \<longleftrightarrow> a = a' \<and> b = b'"
proof -
  have "a @ x # b = a' @ x # b' \<longleftrightarrow> rev b @ x # rev a = rev b' @ x # rev a'"
    by (metis append.assoc append_Cons append_Nil rev.simps(2) rev_append rev_rev_ident)
  then show ?thesis using assms by (auto simp: first_sep_eq)
qed

definition letters :: "string \<Rightarrow> bool" where
  "letters s \<longleftrightarrow> list_all (in_class Letter) s"

definition digits :: "string \<Rightarrow> bool" where
  "digits s \<longleftrightarrow> list_all (in_class Digit) s"

lemma letters_no_sep:
  "letters s \<Longrightarrow> CHR '' '' \<notin> set s" "letters s \<Longrightarrow> CHR '','' \<notin> set s"
  by (auto simp: letters_def list_all_iff Let_def)

lemma digits_no_sep:
  "digits s \<Longrightarrow> CHR '' '' \<notin> set s" "digits s \<Longrightarrow> CHR '','' \<notin> set s"
  by (auto simp: digits_def list_all_iff Let_def)

text \<open>The shape of a date: what is before and what is after its comma.\<close>

lemma date_lang_split:
  assumes "seq_lang date_atoms x"
  shows "\<exists>l d y h m z. x = l @ CHR '' '' # d @ CHR '','' # CHR '' '' # y @ CHR '' '' #
             h @ CHR '':'' # m @ CHR '' '' # z \<and>
           letters l \<and> digits d \<and> digits y \<and> digits h \<and> digits m \<and> letters z"
  using assms unfolding date_atoms_def letters_def digits_def
  apply (simp only: seq_lang_one seq_lang.simps atom_lang.simps append_Nil2)
  apply (elim exE conjE)
  apply (simp only: atom_lang_one append_Nil2 append_Cons append_Nil)
  apply blast
  done

lemma re_split_prefix_iff:
  "re_split expiration_prefix s gs r \<longleftrightarrow>
     (\<exists>g dt. s = g @ CHR '' '' # dt @ CHR '' '' # r \<and> gs = [g, dt] \<and>
             list_all (in_class Dot) g \<and> seq_lang date_atoms dt)"
  unfolding expiration_prefix_def
  apply (simp only: re_split.simps seq_lang_one_only)
  apply auto
  done

lemma date_in_line_unique:
  assumes eq: "g @ CHR '' '' # dt @ CHR '' '' # r = g' @ CHR '' '' # dt' @ CHR '' '' # r'"
    and dates: "seq_lang date_atoms dt" "seq_lang date_atoms dt'"
    and comma: "CHR '','' \<notin> set g" "CHR '','' \<notin> set r"
  shows "g' = g \<and> dt' = dt \<and> r' = r"
proof -
  obtain l d y h m z where dt: "dt = l @ CHR '' '' # d @ CHR '','' # CHR '' '' # y @ CHR '' '' #
      h @ CHR '':'' # m @ CHR '' '' # z"
    and p: "letters l" "digits d" "digits y" "digits h" "digits m" "letters z"
    using date_lang_split [OF dates(1)] by blast
  obtain l' d' y' h' m' z' where dt': "dt' = l' @ CHR '' '' # d' @ CHR '','' # CHR '' '' # y' @ CHR '' '' #
      h' @ CHR '':'' # m' @ CHR '' '' # z'"
    and p': "letters l'" "digits d'" "digits y'" "digits h'" "digits m'" "letters z'"
    using date_lang_split [OF dates(2)] by blast
  note sep = p p' letters_no_sep digits_no_sep
  let ?A = "\<lambda>g l d. (g @ CHR '' '' # l) @ CHR '' '' # d"
  let ?B = "\<lambda>y h m z r. CHR '' '' # y @ CHR '' '' # (h @ CHR '':'' # m) @ CHR '' '' # z @ CHR '' '' # r"
  have "?A g l d @ CHR '','' # ?B y h m z r = ?A g' l' d' @ CHR '','' # ?B y' h' m' z' r'"
    using eq unfolding dt dt' by simp
  moreover have "CHR '','' \<notin> set (?A g l d)" "CHR '','' \<notin> set (?B y h m z r)"
    using comma sep by auto
  ultimately have A: "?A g l d = ?A g' l' d'" and B: "?B y h m z r = ?B y' h' m' z' r'"
    by (metis append_Cons_eq_iff)+
  from A sep have "g = g'" "l = l'" "d = d'" by (simp_all add: last_sep_eq del: append_assoc)
  moreover from B have "y @ CHR '' '' # (h @ CHR '':'' # m) @ CHR '' '' # z @ CHR '' '' # r =
      y' @ CHR '' '' # (h' @ CHR '':'' # m') @ CHR '' '' # z' @ CHR '' '' # r'" by simp
  then have "y = y'" "h @ CHR '':'' # m = h' @ CHR '':'' # m'" "z = z'" "r = r'"
    using sep by (simp_all add: first_sep_eq del: append_assoc)
  ultimately show ?thesis unfolding dt dt' by simp
qed

lemma FindStringSubmatch_row:
  assumes date: "seq_lang date_atoms dt"
    and comma: "CHR '','' \<notin> set g" "CHR '','' \<notin> set r"
    and nl: "CHR 0x0A \<notin> set g" "CHR 0x0A \<notin> set r"
  shows "FindStringSubmatch expiration_re (g @ CHR '' '' # dt @ CHR '' '' # r) =
           Some [g @ CHR '' '' # dt @ CHR '' '' # r, g, dt, r]"
proof -
  let ?s = "g @ CHR '' '' # dt @ CHR '' '' # r"
  have "re_split expiration_prefix ?s [g, dt] r"
    using date nl(1) by (auto simp: re_split_prefix_iff list_all_iff)
  moreover have "gs' = [g, dt] \<and> r' = r" if split: "re_split expiration_prefix ?s gs' r'" for gs' r'
  proof -
    obtain g' dt' where other: "?s = g' @ CHR '' '' # dt' @ CHR '' '' # r'" "gs' = [g', dt']"
      "seq_lang date_atoms dt'" using split unfolding re_split_prefix_iff by blast
    then show ?thesis using date_in_line_unique [OF other(1) date other(3) comma] by simp
  qed
  ultimately have "FindStringSubmatch (expiration_prefix @ [Group [Rep Dot 0 None]]) ?s =
      Some (?s # [g, dt] @ [r])"
    using nl(2) by (intro FindStringSubmatch_unique)
  then show ?thesis by (simp add: expiration_re_def)
qed

lemma re_split_appendD: "re_split (as @ bs) s gs r \<Longrightarrow> \<exists>gs' q. re_split as s gs' q"
  unfolding re_matches_iff [symmetric] re_matches_append by auto

lemma FindStringSubmatch_no_comma:
  assumes "CHR '','' \<notin> set s"
  shows "FindStringSubmatch expiration_re s = None"
proof (rule FindStringSubmatch_None)
  fix t gs r
  assume "suffix t s"
  then have "CHR '','' \<notin> set t" using assms set_mono_suffix by blast
  moreover have "CHR '','' \<in> set t" if "re_split expiration_prefix t gs' q" for gs' q
    using that date_lang_split by (fastforce simp: re_split_prefix_iff)
  ultimately show "\<not> re_split expiration_re t gs r"
    unfolding expiration_re_def using re_split_appendD by blast
qed

subsection \<open>The tables of kubeadm\<close>

text \<open>
  A line of kubeadm's tables: a certificate with its expiry in UTC, padded with blanks to the
  columns, or a line without a comma (the titles, blank lines, certificates that are missing).
\<close>

datatype table_line =
    Row string nat "int \<times> int \<times> int \<times> int \<times> int" string
  | Other string

fun render :: "table_line \<Rightarrow> string" where
  "render (Row cert pad (year, month, day, hour, minute) rest) =
     cert @ replicate pad CHR '' '' @ '' '' @ Format_expiry year month day hour minute @ '' '' @ rest"
| "render (Other line) = line"

fun table_line_ok :: "table_line \<Rightarrow> bool" where
  "table_line_ok (Row cert pad (year, month, day, hour, minute) rest) \<longleftrightarrow>
     calendar_minute year month day hour minute \<and>
     cert \<noteq> [] \<and> \<not> is_space (hd cert) \<and> \<not> is_space (last cert) \<and>
     CHR '','' \<notin> set cert \<and> CHR '','' \<notin> set rest \<and> CHR 0x0A \<notin> set cert \<and> CHR 0x0A \<notin> set rest"
| "table_line_ok (Other line) \<longleftrightarrow> CHR '','' \<notin> set line \<and> CHR 0x0A \<notin> set line"

fun table_entry :: "table_line \<Rightarrow> (string \<times> time) option" where
  "table_entry (Row cert pad (year, month, day, hour, minute) rest) =
     Some (cert, Date year month day hour minute 0 0)"
| "table_entry (Other line) = None"

fun table_map :: "table_line list \<Rightarrow> (string \<times> time) list \<Rightarrow> (string \<times> time) list" where
  "table_map [] m = m"
| "table_map (l # ls) m =
     table_map ls (case table_entry l of None \<Rightarrow> m | Some (cert, t) \<Rightarrow> map_put cert t m)"

lemma seq_lang_intros:
  "atom_lang a x \<Longrightarrow> seq_lang as z \<Longrightarrow> seq_lang (a # as) (x @ z)"
  "seq_lang as z \<Longrightarrow> seq_lang (one c # as) (c # z)"
  "atom_lang a x \<Longrightarrow> seq_lang [a] x"
  by (auto simp: atom_lang_one)

lemma digits_appendInt: "list_all (in_class Digit) (appendInt n w)"
proof (induction w arbitrary: n)
  case (Suc w)
  moreover have "in_class Digit (digit n)" using isDigit_digit [of n] by (simp add: isDigit_def)
  ultimately show ?case by simp
qed simp

lemma Format_expiry_lang:
  assumes "calendar_minute year month day hour minute"
  shows "seq_lang date_atoms (Format_expiry year month day hour minute)"
proof -
  have month: "list_all (in_class Letter) (shortMonthNames ! nat (month - 1)) \<and>
      length (shortMonthNames ! nat (month - 1)) = 3"
    using assms month_cases [of month] unfolding calendar_minute_def
    by (auto simp: shortMonthNames_def)
  show ?thesis
    unfolding date_atoms_def Format_expiry_def append_Cons append_Nil
    by (intro seq_lang_intros) (use month digits_appendInt in simp_all)
qed

lemma TrimSpace_padded:
  assumes "cert \<noteq> []" "\<not> is_space (hd cert)" "\<not> is_space (last cert)"
  shows "TrimSpace (cert @ replicate pad CHR '' '') = cert"
proof -
  have "dropWhile is_space (cert @ t) = cert @ t" for t using assms by (cases cert) auto
  moreover have "dropWhile is_space (replicate pad CHR '' '' @ rev cert) = rev cert"
  proof (induction pad)
    case 0
    show ?case using assms by (cases cert rule: rev_cases) auto
  next
    case (Suc pad)
    then show ?case by (simp add: is_space_def)
  qed
  ultimately show ?thesis by (simp add: TrimSpace_def)
qed

lemma line_entry_render:
  assumes "table_line_ok l"
  shows "line_entry lookupName (render l) = table_entry l"
proof (cases l)
  case (Other line)
  with assms show ?thesis by (simp add: line_entry_def FindStringSubmatch_no_comma)
next
  case (Row cert pad date rest)
  obtain year month day hour minute where date: "date = (year, month, day, hour, minute)"
    by (cases date) blast
  note ok = assms [unfolded Row date table_line_ok.simps]
  have "render l = (cert @ replicate pad CHR '' '') @ CHR '' '' #
      Format_expiry year month day hour minute @ CHR '' '' # rest"
    by (simp add: Row date)
  moreover have "FindStringSubmatch expiration_re \<dots> = Some [\<dots>, cert @ replicate pad CHR '' '',
      Format_expiry year month day hour minute, rest]"
    using ok by (intro FindStringSubmatch_row Format_expiry_lang) auto
  ultimately show ?thesis
    using ok by (simp add: line_entry_def Row date TrimSpace_padded time_Parse_Format_expiry)
qed

lemma parse_lines_body:
  assumes "list_all table_line_ok ls"
  shows "parse_lines lookupName True (map render ls) m = table_map ls m"
  using assms by (induction ls arbitrary: m) (simp_all add: line_entry_render)

lemma parse_lines_before:
  assumes "list_all (\<lambda>l. \<not> (Contains l ''CERTIFICATE'' \<and> Contains l ''EXPIRES'')) pre"
  shows "parse_lines lookupName False (pre @ lines) m = parse_lines lookupName False lines m"
  using assms by (induction pre) auto

lemma Split_join_lines:
  "ls \<noteq> [] \<Longrightarrow> list_all (\<lambda>l. sep \<notin> set l) ls \<Longrightarrow> Split sep (join_with sep ls) = ls"
  by (induction sep ls rule: join_with.induct) (auto simp: Split_append_sep Split_no_sep)

lemma render_no_newline: "table_line_ok l \<Longrightarrow> CHR 0x0A \<notin> set (render l)"
proof (cases l)
  case (Row cert pad date rest)
  assume ok: "table_line_ok l"
  obtain year month day hour minute where date: "date = (year, month, day, hour, minute)"
    by (cases date) blast
  obtain a d y h m z where "Format_expiry year month day hour minute = a @ CHR '' '' # d @ CHR '','' # CHR '' '' #
      y @ CHR '' '' # h @ CHR '':'' # m @ CHR '' '' # z"
    and "letters a" "digits d" "digits y" "digits h" "digits m" "letters z"
    using date_lang_split [OF Format_expiry_lang] ok by (force simp: Row date)
  then have "CHR 0x0A \<notin> set (Format_expiry year month day hour minute)"
    by (auto simp: letters_def digits_def list_all_iff Let_def)
  with ok show ?thesis by (auto simp: Row date)
qed simp

lemma parse_table:
  assumes "list_all (\<lambda>l. \<not> (Contains l ''CERTIFICATE'' \<and> Contains l ''EXPIRES'') \<and> CHR 0x0A \<notin> set l) before"
    and "Contains titles ''CERTIFICATE''" "Contains titles ''EXPIRES''" "CHR 0x0A \<notin> set titles"
    and "list_all table_line_ok body"
  shows "parsekubeadmAlphaCertsCheckExpiration lookupName
           (join_with CHR 0x0A (before @ titles # map render body)) = table_map body []"
proof -
  have "Split CHR 0x0A (join_with CHR 0x0A (before @ titles # map render body)) =
      before @ titles # map render body"
    using assms render_no_newline by (intro Split_join_lines) (auto simp: list_all_iff)
  moreover have "list_all (\<lambda>l. \<not> (Contains l ''CERTIFICATE'' \<and> Contains l ''EXPIRES'')) before"
    using assms(1) by (auto simp: list_all_iff)
  ultimately show ?thesis
    using assms by (simp add: parsekubeadmAlphaCertsCheckExpiration_def parse_lines_before parse_lines_body)
qed

definition sample_titles :: string where
  "sample_titles = ''CERTIFICATE   EXPIRES   RESIDUAL TIME''"

definition sample_table :: "table_line list" where
  "sample_table =
     [Row ''apiserver'' 3 (2021, 5, 12, 2, 29) ''  364d  ca'',
      Other '''',
      Other ''CERTIFICATE AUTHORITY   EXPIRES'',
      Row ''etcd-ca'' 6 (2030, 3, 11, 1, 51) ''9y'']"

text \<open>
  Claim C10. Round trip with the table kubeadm prints: whatever lines come before the titles,
  the certificates read are exactly the rows after them with the instant their date denotes,
  the last row winning where a name occurs twice; the other lines (titles of a second table,
  blank lines, certificates reported missing) contribute nothing.
\<close>

theorem parse_rendered_table:
  assumes "list_all (\<lambda>l. \<not> (Contains l ''CERTIFICATE'' \<and> Contains l ''EXPIRES'') \<and> CHR 0x0A \<notin> set l) before"
    and "Contains titles ''CERTIFICATE''" "Contains titles ''EXPIRES''" "CHR 0x0A \<notin> set titles"
    and "list_all table_line_ok body"
  shows "parsekubeadmAlphaCertsCheckExpiration lookupName
           (join_with CHR 0x0A (before @ titles # map render body)) = table_map body []"
  using assms by (rule parse_table)

theorem parse_rendered_table_witness:
  "parsekubeadmAlphaCertsCheckExpiration (\<lambda>_ _. None)
     (join_with CHR 0x0A ([''''] @ sample_titles # map render sample_table)) =
   [(''apiserver'', Date 2021 5 12 2 29 0 0), (''etcd-ca'', Date 2030 3 11 1 51 0 0)]"
proof -
  have ok: "list_all table_line_ok sample_table" by code_simp
  have t: "Contains sample_titles ''CERTIFICATE''" "Contains sample_titles ''EXPIRES''"
    "CHR 0x0A \<notin> set sample_titles" by code_simp+
  have "table_map sample_table [] =
      [(''apiserver'', Date 2021 5 12 2 29 0 0), (''etcd-ca'', Date 2030 3 11 1 51 0 0)]"
    by (simp add: sample_table_def)
  then show ?thesis
    using parse_rendered_table [OF _ t ok, of "['''']" "\<lambda>_ _. None"] by simp
qed

end
