(* ===== verification/Go_Calendar.thy ===== *)
theory Go_Calendar
  imports Go_Time
begin

text \<open>
  The calendar of \<open>Go_Time\<close> is one to one: the civil date of a day number determines the day, decimal
  numbers of a fixed width determine the number, and so the time stamp \<open>20060102030405\<close>
  determines the local second up to the half of the day, which its layout leaves out.
\<close>

subsection \<open>Civil dates\<close>

lemma capped_div:
  fixes x k n :: int
  assumes "0 \<le> x" "0 < k" "0 \<le> n" and b: "b = min n (x div k)"
  shows "0 \<le> b" "b \<le> n" "0 \<le> x - k * b" "x \<le> k * (n + 1) \<Longrightarrow> x - k * b \<le> k"
proof -
  have q: "0 \<le> x div k" using assms(1,2) by (simp add: pos_imp_zdiv_nonneg_iff)
  then show "0 \<le> b" "b \<le> n" using assms(3) by (simp_all add: b)
  have x: "x = k * (x div k) + x mod k" and r: "0 \<le> x mod k" "x mod k < k" using assms(2) by simp_all
  have "k * b \<le> k * (x div k)" using assms(2) by (intro mult_left_mono) (simp_all add: b)
  with x r show "0 \<le> x - k * b" by linarith
  show "x - k * b \<le> k" if "x \<le> k * (n + 1)"
  proof (cases "x div k \<le> n")
    case True
    then show ?thesis using r by (simp add: b min_absorb2 minus_mult_div_eq_mod)
  next
    case False
    then show ?thesis using that by (simp add: b min_absorb1 distrib_left)
  qed
qed

lemma cycle_split_day:
  assumes "cycle_split day = (y, yday)"
  shows "year_day y + yday = day" "0 \<le> yday" "yday \<le> 365"
    and "- 719162 \<le> day \<Longrightarrow> 1 \<le> y" and "day < 2932897 \<Longrightarrow> y \<le> 9999"
proof -
  define d0 where "d0 = day + 719162"
  define a where "a = d0 div 146097"
  define d1 where "d1 = d0 mod 146097"
  define b where "b = min 3 (d1 div 36524)"
  define d2 where "d2 = d1 - 36524 * b"
  define c where "c = d2 div 1461"
  define d3 where "d3 = d2 mod 1461"
  define e where "e = min 3 (d3 div 365)"
  have y: "y = 400 * a + 100 * b + 4 * c + e + 1" and yday: "yday = d3 - 365 * e"
    using assms
    unfolding cycle_split_def Let_def d0_def [symmetric] a_def [symmetric] d1_def [symmetric] b_def [symmetric]
      d2_def [symmetric] c_def [symmetric] d3_def [symmetric] e_def [symmetric]
    by blast+
  have d1: "d0 = 146097 * a + d1" "0 \<le> d1" "d1 < 146097" unfolding a_def d1_def by simp_all
  have b: "0 \<le> b" "b \<le> 3" "0 \<le> d2" "d2 \<le> 36524"
    using capped_div [OF d1(2) _ _ b_def] d1(3) by (simp_all add: d2_def)
  have c: "0 \<le> c" "d2 = 1461 * c + d3" "0 \<le> d3" "d3 < 1461"
    using b(3) unfolding c_def d3_def by (simp_all add: pos_imp_zdiv_nonneg_iff)
  have c24: "c \<le> 24" using c(2,3) b(4) by linarith
  have e: "0 \<le> e" "e \<le> 3" "0 \<le> d3 - 365 * e" "d3 - 365 * e \<le> 365"
    using capped_div [OF c(3) _ _ e_def] c(4) by simp_all
  have "leaps (y - 1) = 97 * a + 24 * b + c"
  proof -
    have "(y - 1) div 4 = 100 * a + 25 * b + c" using e(1,2) by (simp add: y)
    moreover have "(y - 1) div 100 = 4 * a + b" using c(1) c24 e(1,2) by (simp add: y)
    moreover have "(y - 1) div 400 = a" using b(1,2) c(1) c24 e(1,2) by (simp add: y)
    ultimately show ?thesis by (simp add: leaps_def)
  qed
  moreover have "leaps 1969 = 477" by (simp add: leaps_def)
  ultimately show "year_day y + yday = day"
    using d1(1) c(2) by (simp add: year_day_def yday y d2_def d0_def)
  show "0 \<le> yday" "yday \<le> 365" using e(3,4) by (simp_all add: yday)
  show "1 \<le> y" if "- 719162 \<le> day"
    using that b(1) c(1) e(1) by (simp add: y a_def d0_def pos_imp_zdiv_nonneg_iff)
  show "y \<le> 9999" if "day < 2932897"
  proof -
    have "146097 * a + 36524 * b + 1461 * c + 365 * e \<le> 3652058"
      using that d1(1) c(2) e(3) by (simp add: d0_def d2_def)
    moreover have "a \<le> 24" using that d1(1,2) by (simp add: d0_def)
    ultimately show ?thesis using b(2) c24 e(2) by (simp add: y)
  qed
qed

lemma month_split_day:
  assumes "month_split y yday 1 11 = (m, d)"
  shows "daysBefore ! nat (m - 1) + (if isLeap y \<and> 3 \<le> m then 1 else 0) + d - 1 = yday"
  using assms by (auto simp: eval_nat_numeral daysIn_def daysBefore_def split: if_splits)

lemma date_day_civil:
  assumes "civil day = (y, m, d)"
  shows "date_day y m d = day"
proof -
  obtain yday where c: "cycle_split day = (y, yday)" and "month_split y yday 1 11 = (m, d)"
    using assms by (auto simp: civil_def split: prod.splits)
  then show ?thesis using cycle_split_day(1) [OF c] month_split_day [of y yday m d] unfolding date_day_def by linarith
qed


lemma month_split_range:
  assumes "month_split y yday 1 11 = (m, d)" "0 \<le> yday" "yday \<le> 365"
  shows "1 \<le> m \<and> m \<le> 12 \<and> 1 \<le> d \<and> d \<le> 32"
  using assms by (auto simp: eval_nat_numeral daysIn_def daysBefore_def split: if_splits)

text \<open>The days of the years 1 to 9999, whose dates have two and four digits.\<close>

definition four_digit_day :: "int \<Rightarrow> bool" where
  "four_digit_day day \<longleftrightarrow> - 719162 \<le> day \<and> day < 2932897"

lemma four_digit_day_Date: "four_digit_day day \<longleftrightarrow> date_day 1 1 1 \<le> day \<and> day \<le> date_day 9999 12 31"
  by (auto simp: four_digit_day_def date_day_def year_day_def leaps_def daysBefore_def isLeap_def)

lemma civil_range:
  assumes "civil day = (y, m, d)" "four_digit_day day"
  shows "0 \<le> y \<and> y < 10 ^ 4 \<and> 0 \<le> m \<and> m < 10 ^ 2 \<and> 0 \<le> d \<and> d < 10 ^ 2"
proof -
  obtain yday where c: "cycle_split day = (y, yday)" and m: "month_split y yday 1 11 = (m, d)"
    using assms(1) by (auto simp: civil_def split: prod.splits)
  note split = cycle_split_day [OF c]
  have "1 \<le> y" "y \<le> 9999" using split(4,5) assms(2) by (simp_all add: four_digit_day_def)
  then show ?thesis using month_split_range [OF m split(2,3)] by simp
qed

subsection \<open>Decimal numbers\<close>

lemma digit_eq_iff: "digit a = digit b \<longleftrightarrow> a mod 10 = b mod 10"
proof
  assume "digit a = digit b"
  then have "nat (48 + a mod 10) mod 256 = nat (48 + b mod 10) mod 256"
    unfolding digit_def by (metis of_char_of)
  moreover have "nat (48 + n mod 10) < 256" for n :: int
    using pos_mod_bound [of 10 n] by simp
  moreover have "0 \<le> n mod 10" for n :: int by simp
  ultimately show "a mod 10 = b mod 10" by (simp add: eq_nat_nat_iff)
qed (simp add: digit_def)

lemma appendInt_inject:
  assumes "appendInt a w = appendInt b w" "0 \<le> a" "a < 10 ^ w" "0 \<le> b" "b < 10 ^ w"
  shows "a = b"
  using assms
proof (induction w arbitrary: a b)
  case (Suc w)
  have "n div 10 < 10 ^ w" if "n < 10 ^ Suc w" for n :: int
    using that by (simp add: div_less_iff_less_mult)
  then have "a div 10 = b div 10"
    using Suc.prems by (intro Suc.IH) (simp_all add: pos_imp_zdiv_nonneg_iff)
  moreover have "a mod 10 = b mod 10" using Suc.prems(1) by (simp add: digit_eq_iff)
  ultimately show ?case by (metis div_mult_mod_eq)
qed simp


subsection \<open>The time stamp\<close>

text \<open>The stamp is made of the local day and the second of its half.\<close>

definition stamp :: "int \<Rightarrow> int \<Rightarrow> string" where
  "stamp day r =
     (let (y, m, d) = civil day; hr = (if r div 3600 = 0 then 12 else r div 3600)
      in appendInt y 4 @ appendInt m 2 @ appendInt d 2 @
         appendInt hr 2 @ appendInt (r mod 3600 div 60) 2 @ appendInt (r mod 60) 2)"

definition local_second :: "int \<Rightarrow> time \<Rightarrow> int" where
  "local_second offset t = t div 1000000000 + offset"

lemma Format_stamp_eq:
  "Format_20060102030405 offset t = stamp (local_second offset t div 86400) (local_second offset t mod 43200)"
proof -
  define l where "l = local_second offset t"
  have cancel: "l mod 86400 mod 43200 = l mod 43200" by (rule mod_mod_cancel) simp
  have product: "(43200 :: int) = 3600 * 12" by simp
  have "l mod 86400 mod 43200 = 3600 * (l mod 86400 div 3600 mod 12) + l mod 86400 mod 3600"
    unfolding product by (rule zmod_zmult2_eq) simp
  with cancel have l: "l mod 43200 = 3600 * (l mod 86400 div 3600 mod 12) + l mod 86400 mod 3600"
    by (rule subst)
  have split: "(3600 * q + r) div 3600 = q" "(3600 * q + r) mod 3600 = r" if "0 \<le> r" "r < 3600" for q r :: int
    using that by simp_all
  have hour: "l mod 43200 div 3600 = l mod 86400 div 3600 mod 12"
    and minute: "l mod 43200 mod 3600 = l mod 86400 mod 3600"
    unfolding l by (intro split pos_mod_sign pos_mod_bound; simp only: zero_less_numeral)+
  have sec: "l mod 43200 mod 60 = l mod 86400 mod 60"
    by (subst (1 2) mod_mod_cancel) simp_all
  show ?thesis
    unfolding Format_20060102030405_def stamp_def local_second_def [symmetric] l_def [symmetric] Let_def
      hour minute sec ..
qed

lemma stamp_inject:
  assumes "stamp day r = stamp day' r'" "four_digit_day day" "four_digit_day day'"
    and r: "0 \<le> r" "r < 43200" "0 \<le> r'" "r' < 43200"
  shows "day = day' \<and> r = r'"
proof -
  obtain y m d y' m' d' where c: "civil day = (y, m, d)" "civil day' = (y', m', d')" by (metis surj_pair)
  define hr where "hr n = (if n div 3600 = 0 then 12 else n div 3600)" for n :: int
  have parts: "appendInt y 4 = appendInt y' 4" "appendInt m 2 = appendInt m' 2" "appendInt d 2 = appendInt d' 2"
    "appendInt (hr r) 2 = appendInt (hr r') 2"
    "appendInt (r mod 3600 div 60) 2 = appendInt (r' mod 3600 div 60) 2" "appendInt (r mod 60) 2 = appendInt (r' mod 60) 2"
    using assms(1) by (simp_all add: stamp_def c hr_def [symmetric])
  note range = civil_range [OF c(1) assms(2)] civil_range [OF c(2) assms(3)]
  have "y = y'" "m = m'" "d = d'"
    using appendInt_inject [OF parts(1)] appendInt_inject [OF parts(2)] appendInt_inject [OF parts(3)] range by blast+
  then have day: "day = day'" using date_day_civil [OF c(1)] date_day_civil [OF c(2)] by simp
  have h: "0 \<le> n div 3600 \<and> n div 3600 < 12" if "0 \<le> n" "n < 43200" for n :: int
    using that by (simp add: pos_imp_zdiv_nonneg_iff div_less_iff_less_mult)
  then have "0 \<le> hr n \<and> hr n < 10 ^ 2" if "0 \<le> n" "n < 43200" for n
    using h [OF that] by (auto simp: hr_def)
  then have "hr r = hr r'" using appendInt_inject [OF parts(4)] r by blast
  then have "r div 3600 = r' div 3600" using h [OF r(1,2)] h [OF r(3,4)] by (auto simp: hr_def split: if_splits)
  moreover have "r mod 3600 div 60 = r' mod 3600 div 60"
    using parts(5) by (rule appendInt_inject) (simp_all add: pos_imp_zdiv_nonneg_iff div_less_iff_less_mult less_trans [OF pos_mod_bound])
  moreover have "r mod 60 = r' mod 60"
    using parts(6) by (rule appendInt_inject) (simp_all add: less_trans [OF pos_mod_bound])
  moreover have "n = 3600 * (n div 3600) + 60 * (n mod 3600 div 60) + n mod 60" for n :: int
  proof -
    have "n mod 3600 mod 60 = n mod 60" by (simp add: mod_mod_cancel)
    then show ?thesis using div_mult_mod_eq [of "n mod 3600" 60] div_mult_mod_eq [of n 3600] by linarith
  qed
  ultimately show ?thesis using day by metis
qed

text \<open>Two instants have the same stamp exactly when they share the local day and the second of its half.\<close>

lemma Format_eq_iff:
  assumes "four_digit_day (local_second o1 t1 div 86400)" "four_digit_day (local_second o2 t2 div 86400)"
  shows "Format_20060102030405 o1 t1 = Format_20060102030405 o2 t2 \<longleftrightarrow>
    local_second o1 t1 div 86400 = local_second o2 t2 div 86400 \<and>
    local_second o1 t1 mod 43200 = local_second o2 t2 mod 43200"
  unfolding Format_stamp_eq using stamp_inject [OF _ assms] by auto

end
