(* ===== verification/Kubeadm.thy ===== *)
theory Kubeadm
  imports Host Kubeadm_Output Go_Calendar
begin

text \<open>
  The control-plane certificates: pkg/pki/cert/kubeadm (kubeadm.go and the commands of exec.go)
  and the interface \<open>cert.Certificate\<close> of pkg/pki/cert/certificate.go with its other
  implementation \<open>Null\<close> for worker nodes. A Go map that is ranged over is visited in an order
  chosen by the environment; that this order is a permutation of the keys is the named
  hypothesis \<open>range_order\<close>.
\<close>

subsection \<open>exec.go\<close>

definition kubeadm_cmd :: "string list \<Rightarrow> string list" where
  "kubeadm_cmd args = nsenter (''/usr/bin/kubeadm'' # args)"

definition version_cmd :: exec_Cmd where
  "version_cmd = NewCommandWithStdout ''/usr/bin/nsenter'' (kubeadm_cmd [''version'', ''-oshort''])"

text \<open>From 1.20.0 on the command is \<open>kubeadm certs\<close>, before it \<open>kubeadm alpha certs\<close>.\<close>

definition certs_cmd :: "bool \<Rightarrow> string list \<Rightarrow> exec_Cmd" where
  "certs_cmd at_least args =
     NewCommandWithStdout ''/usr/bin/nsenter''
       (kubeadm_cmd (if at_least then ''certs'' # args else ''alpha'' # ''certs'' # args))"

definition at_least_1_20 :: "'e host_env_scheme \<Rightarrow> string \<Rightarrow> bool outcome" where
  "at_least_1_20 env out = semver_AtLeast env (TrimSuffix out [CHR 0x0A]) ''v1.20.0''"

definition checkCertificateExpiry ::
  "string \<Rightarrow> time \<Rightarrow> duration \<Rightarrow> (host \<Rightarrow> time \<times> host) \<Rightarrow> host \<Rightarrow> bool \<times> host" where
  "checkCertificateExpiry name t expiryTimeToRotate clock h =
     (let (tn, h) = clock h
      in if Before t tn then (True, h)
         else if duration_le (Sub t tn) expiryTimeToRotate then (True, h)
         else (False, h))"

fun check_expiry_loop ::
  "duration \<Rightarrow> (host \<Rightarrow> time \<times> host) \<Rightarrow> (string \<times> time) list \<Rightarrow> string list \<Rightarrow> string list \<Rightarrow> host
     \<Rightarrow> string list \<times> host" where
  "check_expiry_loop d clock kv [] expiryCertificates h = (expiryCertificates, h)"
| "check_expiry_loop d clock kv (cert # certs) expiryCertificates h =
     (case map_of kv cert of
        None \<Rightarrow> check_expiry_loop d clock kv certs expiryCertificates h
      | Some t \<Rightarrow>
          (let (expiry, h) = checkCertificateExpiry cert t d clock h
           in check_expiry_loop d clock kv certs
                (if expiry then expiryCertificates @ [cert] else expiryCertificates) h))"

definition kubeadmAlphaCertsCheckExpiration ::
  "'e host_env_scheme \<Rightarrow> duration \<Rightarrow> (host \<Rightarrow> time \<times> host) \<Rightarrow> host
     \<Rightarrow> (string list \<times> go_error option) outcome \<times> host" where
  "kubeadmAlphaCertsCheckExpiration env expiryTimeToRotate clock h =
     (case Cmd_Output env version_cmd h of
        (Inl err, h) \<Rightarrow> (Returned ([], Some err), h)
      | (Inr out, h) \<Rightarrow>
          (case at_least_1_20 env out of
             Panicked m \<Rightarrow> (Panicked m, h)
           | Returned b \<Rightarrow>
               (case Cmd_Output env (certs_cmd b [''check-expiration'']) h of
                  (Inl err, h) \<Rightarrow> (Returned ([], Some err), h)
                | (Inr stdout, h) \<Rightarrow>
                    (let kv = parsekubeadmAlphaCertsCheckExpiration (os_lookupName env) stdout;
                         (certs, h) = check_expiry_loop expiryTimeToRotate clock kv
                           (range_keys env h (map fst kv)) [] h
                     in (Returned (certs, None), h)))))"

definition kubeadmAlphaCertsRenew ::
  "'e host_env_scheme \<Rightarrow> string \<Rightarrow> string \<Rightarrow> host \<Rightarrow> go_error option outcome \<times> host" where
  "kubeadmAlphaCertsRenew env certificateName certificatePath h =
     (case Cmd_Output env version_cmd h of
        (Inl err, h) \<Rightarrow> (Returned (Some err), h)
      | (Inr out, h) \<Rightarrow>
          (case at_least_1_20 env out of
             Panicked m \<Rightarrow> (Panicked m, h)
           | Returned b \<Rightarrow>
               (let (err, h) = Cmd_Run env (certs_cmd b [''renew'', certificateName]) h
                in (Returned err, h))))"

subsection \<open>kubeadm.go\<close>

definition certificates :: "(string \<times> string) list" where
  "certificates =
     [(''admin.conf'', ''/etc/kubernetes/admin.conf''),
      (''controller-manager.conf'', ''/etc/kubernetes/controller-manager.conf''),
      (''scheduler.conf'', ''/etc/kubernetes/scheduler.conf''),
      (''apiserver'', ''/etc/kubernetes/pki/apiserver.crt''),
      (''apiserver-etcd-client'', ''/etc/kubernetes/pki/apiserver-etcd-client.crt''),
      (''apiserver-kubelet-client'', ''/etc/kubernetes/pki/apiserver-kubelet-client.crt''),
      (''front-proxy-client'', ''/etc/kubernetes/pki/front-proxy-client.crt''),
      (''etcd-healthcheck-client'', ''/etc/kubernetes/pki/etcd/healthcheck-client.crt''),
      (''etcd-peer'', ''/etc/kubernetes/pki/etcd/peer.crt''),
      (''etcd-server'', ''/etc/kubernetes/pki/etcd/server.crt'')]"

record Kubeadm =
  nodeName :: string
  expiryTimeToRotate :: duration
  clock :: "host \<Rightarrow> time \<times> host"

definition Kubeadm_New :: "'e host_env_scheme \<Rightarrow> string \<Rightarrow> duration \<Rightarrow> Kubeadm" where
  "Kubeadm_New env node d = \<lparr>nodeName = node, expiryTimeToRotate = d, clock = Clock_Now env\<rparr>"

definition Kubeadm_CheckExpiration ::
  "'e host_env_scheme \<Rightarrow> Kubeadm \<Rightarrow> host \<Rightarrow> (string list \<times> go_error option) outcome \<times> host" where
  "Kubeadm_CheckExpiration env k h =
     kubeadmAlphaCertsCheckExpiration env (expiryTimeToRotate k) (clock k) h"

definition certificateBackupPath :: "'e host_env_scheme \<Rightarrow> string \<Rightarrow> time \<Rightarrow> string" where
  "certificateBackupPath env certificatePath now =
     (let dir = filepath_Dir certificatePath;
          base = filepath_Base certificatePath;
          ext = filepath_Ext certificatePath
      in filepath_Join2 dir
           (TrimSuffix base ext @ ''-'' @ Format_20060102030405 (os_tz env now) now @ ext @ ''.bak''))"

definition backupCertificate ::
  "'e host_env_scheme \<Rightarrow> string \<Rightarrow> string \<Rightarrow> string \<Rightarrow> host \<Rightarrow> go_error option \<times> host" where
  "backupCertificate env node certificateName certificatePath h =
     (let (now, h) = Clock_Now env h
      in Cmd_Run env (NewCommand ''/usr/bin/nsenter''
           (nsenter [''/usr/bin/cp'', certificatePath, certificateBackupPath env certificatePath now])) h)"

definition rotateCertificate ::
  "'e host_env_scheme \<Rightarrow> string \<Rightarrow> string \<Rightarrow> string \<Rightarrow> host \<Rightarrow> go_error option outcome \<times> host" where
  "rotateCertificate env node certificateName certificatePath h =
     kubeadmAlphaCertsRenew env certificateName certificatePath h"

fun rotate_loop ::
  "'e host_env_scheme \<Rightarrow> string \<Rightarrow> string list \<Rightarrow> go_error option \<Rightarrow> host
     \<Rightarrow> go_error option outcome \<times> host" where
  "rotate_loop env node [] errs h = (Returned errs, h)"
| "rotate_loop env node (certificateName # names) errs h =
     (case map_of certificates certificateName of
        None \<Rightarrow> rotate_loop env node names errs h
      | Some certificatePath \<Rightarrow>
          (case backupCertificate env node certificateName certificatePath h of
             (Some err, h) \<Rightarrow> rotate_loop env node names (Some (Errorf ''%w; '' err)) h
           | (None, h) \<Rightarrow>
               (case rotateCertificate env node certificateName certificatePath h of
                  (Panicked m, h) \<Rightarrow> (Panicked m, h)
                | (Returned (Some err), h) \<Rightarrow> rotate_loop env node names (Some (Errorf ''%w; '' err)) h
                | (Returned None, h) \<Rightarrow> rotate_loop env node names errs h)))"

definition Kubeadm_Rotate ::
  "'e host_env_scheme \<Rightarrow> Kubeadm \<Rightarrow> string list \<Rightarrow> host \<Rightarrow> go_error option outcome \<times> host" where
  "Kubeadm_Rotate env k expiryCertificates h =
     (case rotate_loop env (nodeName k) expiryCertificates None h of
        (Panicked m, h) \<Rightarrow> (Panicked m, h)
      | (Returned (Some errs), h) \<Rightarrow> (Returned (Some errs), h)
      | (Returned None, h) \<Rightarrow>
          (case RestartKubelet env (nodeName k) h of
             (Some err, h) \<Rightarrow> (Returned (Some (Errorf ''%w; '' err)), h)
           | (None, h) \<Rightarrow> (Returned None, h)))"

subsection \<open>null.go\<close>

datatype Null = Null

definition Null_New :: "string \<Rightarrow> duration \<Rightarrow> Null" where
  "Null_New node d = Null"

definition Null_CheckExpiration :: "Null \<Rightarrow> host \<Rightarrow> (string list \<times> go_error option) outcome \<times> host" where
  "Null_CheckExpiration n h = (Returned ([], None), h)"

definition Null_Rotate :: "Null \<Rightarrow> string list \<Rightarrow> host \<Rightarrow> go_error option outcome \<times> host" where
  "Null_Rotate n expiryCertificates h = (Returned None, h)"

subsection \<open>When a certificate counts as expiring\<close>

definition due :: "time \<Rightarrow> time \<Rightarrow> duration \<Rightarrow> bool" where
  "due t now d \<longleftrightarrow> t < now \<or> d = maxDuration \<or> t - now \<le> sint d"

lemma checkCertificateExpiry_due:
  "checkCertificateExpiry name t d clk h = (let (tn, h') = clk h in (due t tn d, h'))"
proof (cases "d = maxDuration")
  case True
  have "duration_le (Sub t u) maxDuration" for u
    using sint64_range(2) [of "Sub t u"] by simp
  with True show ?thesis
    by (auto simp: checkCertificateExpiry_def due_def Let_def split: prod.splits)
next
  case False
  then show ?thesis
    by (auto simp: checkCertificateExpiry_def due_def Before_def Sub_le_iff Let_def split: prod.splits)
qed

text \<open>
  Claim C28. A certificate counts as expiring exactly when it has expired already or its
  remaining life, as an exact integer and not cut to 64 bits, is at most
  \<open>expiryTimeToRotate\<close>; only the greatest duration, which means "at any time", is special. The
  clock is read once.
\<close>

theorem checkCertificateExpiry_correct:
  "checkCertificateExpiry name t d clk h =
     (let (now, h') = clk h in (t < now \<or> d = maxDuration \<or> t - now \<le> sint d, h'))"
  by (simp add: checkCertificateExpiry_due due_def)

definition range_order :: "'e host_env_scheme \<Rightarrow> bool" where
  "range_order env \<longleftrightarrow> (\<forall>h ks. distinct ks \<longrightarrow> mset (range_keys env h ks) = mset ks)"

definition due_now :: "(string \<times> time) list \<Rightarrow> duration \<Rightarrow> string \<times> time \<Rightarrow> bool" where
  "due_now kv d = (\<lambda>(cert, now). \<exists>t. map_of kv cert = Some t \<and> due t now d)"

lemma Clock_Now_eq: "Clock_Now env h = (os_now env h, emit (EvNow (os_now env h)) h)"
  by (simp add: Clock_Now_def Let_def)

lemma check_expiry_loop_spec:
  assumes "check_expiry_loop d (Clock_Now env) kv certs acc h = (res, h')"
    and "set certs \<subseteq> dom (map_of kv)"
  shows "\<exists>ts. length ts = length certs \<and> log h' = log h @ map EvNow ts \<and> files h' = files h \<and>
           res = acc @ map fst (filter (due_now kv d) (zip certs ts))"
  using assms
proof (induction certs arbitrary: acc h)
  case (Cons cert certs)
  obtain t where t: "map_of kv cert = Some t" using Cons.prems(2) by auto
  define now where "now = os_now env h"
  have step: "checkCertificateExpiry cert t d (Clock_Now env) h = (due t now d, emit (EvNow now) h)"
    by (simp add: checkCertificateExpiry_due Clock_Now_eq now_def)
  define acc' where "acc' = (if due t now d then acc @ [cert] else acc)"
  have "check_expiry_loop d (Clock_Now env) kv certs acc' (emit (EvNow now) h) = (res, h')"
    using Cons.prems(1) by (simp add: t step acc'_def split: if_splits)
  then obtain ts where ts: "length ts = length certs" "files h' = files h"
    "log h' = log h @ EvNow now # map EvNow ts"
    "res = acc' @ map fst (filter (due_now kv d) (zip certs ts))"
    using Cons.IH Cons.prems(2) by fastforce
  then show ?case
    by (intro exI [of _ "now # ts"]) (simp add: due_now_def t acc'_def)
qed simp

definition version_args :: "string list" where
  "version_args = ''/usr/bin/nsenter'' # kubeadm_cmd [''version'', ''-oshort'']"

definition certs_args :: "bool \<Rightarrow> string list \<Rightarrow> string list" where
  "certs_args b args = cmd_Args (certs_cmd b args)"

lemma Cmd_Output_kubeadm:
  "Cmd_Output env version_cmd h =
     (let (res, fs) = os_output env h version_args
      in (res, emit (EvOutput version_args res) (h\<lparr>files := fs\<rparr>)))"
  "Cmd_Output env (certs_cmd b args) h =
     (let (res, fs) = os_output env h (certs_args b args)
      in (res, emit (EvOutput (certs_args b args) res) (h\<lparr>files := fs\<rparr>)))"
  by (simp_all add: Cmd_Output_def version_cmd_def certs_cmd_def certs_args_def version_args_def
      NewCommandWithStdout_def)

lemma CheckExpiration_spec:
  assumes "range_order env"
    and "Kubeadm_CheckExpiration env (Kubeadm_New env node d) h = (Returned (certs, None), h')"
  shows "\<exists>ver b out ks ts. let kv = parsekubeadmAlphaCertsCheckExpiration (os_lookupName env) out in
           events_between h h' = [EvOutput version_args (Inr ver),
              EvOutput (certs_args b [''check-expiration'']) (Inr out)] @ map EvNow ts \<and>
           at_least_1_20 env ver = Returned b \<and>
           mset ks = mset (map fst kv) \<and> length ts = length ks \<and>
           certs = map fst (filter (due_now kv d) (zip ks ts))"
proof -
  from assms(2) obtain ver h1 b out h2 where
    steps: "Cmd_Output env version_cmd h = (Inr ver, h1)" "at_least_1_20 env ver = Returned b"
      "Cmd_Output env (certs_cmd b [''check-expiration'']) h1 = (Inr out, h2)"
    and rest: "check_expiry_loop d (Clock_Now env)
       (parsekubeadmAlphaCertsCheckExpiration (os_lookupName env) out)
       (range_keys env h2 (map fst (parsekubeadmAlphaCertsCheckExpiration (os_lookupName env) out))) [] h2 =
       (certs, h')"
    by (auto simp: Kubeadm_CheckExpiration_def Kubeadm_New_def kubeadmAlphaCertsCheckExpiration_def Let_def
        split: prod.splits sum.splits outcome.splits)
  define kv where "kv = parsekubeadmAlphaCertsCheckExpiration (os_lookupName env) out"
  define ks where "ks = range_keys env h2 (map fst kv)"
  have ks: "mset ks = mset (map fst kv)"
    using assms(1) distinct_parse unfolding range_order_def ks_def kv_def by blast
  then have "set ks \<subseteq> dom (map_of kv)" by (metis dom_map_of_conv_image_fst list.set_map mset_eq_set order_refl)
  with rest obtain ts where ts: "length ts = length ks" "log h' = log h2 @ map EvNow ts"
    "certs = map fst (filter (due_now kv d) (zip ks ts))"
    using check_expiry_loop_spec [of d env kv ks "[]" h2 certs h'] unfolding kv_def ks_def by auto
  have "log h2 = log h @ [EvOutput version_args (Inr ver),
      EvOutput (certs_args b [''check-expiration'']) (Inr out)]"
    using steps by (auto simp: Cmd_Output_kubeadm split: prod.splits)
  with ts ks steps(2) show ?thesis
    by (intro exI [of _ ver] exI [of _ b] exI [of _ out] exI [of _ ks] exI [of _ ts])
       (simp add: kv_def events_between_def)
qed

text \<open>A node on which every command succeeds, on the first of May 2021.\<close>

definition sample_output :: string where
  "sample_output = join_with CHR 0x0A ([''''] @ sample_titles # map render sample_table)"

definition sample_env :: host_env where
  "sample_env = \<lparr>
     os_run = (\<lambda>h args. (None, files h)),
     os_output = (\<lambda>h args.
       (if args = version_args then Inr (''v1.20.2'' @ [CHR 0x0A])
        else if args = certs_args True [''check-expiration''] then Inr sample_output
        else Inl (Error ''exit status 1''), files h)),
     os_now = (\<lambda>h. Date 2021 5 1 0 0 0 0),
     os_tz = (\<lambda>t. 0),
     os_lookupName = (\<lambda>name t. None),
     os_read_fault = (\<lambda>h path. None),
     os_write_fault = (\<lambda>h path data. None),
     os_umask = (\<lambda>m. m),
     range_keys = (\<lambda>h ks. ks),
     semver_AtLeast = (\<lambda>a b. if a = ''v1.20.2'' then Returned True else Panicked ''version''),
     RunCordonOrUncordon = (\<lambda>h drainer node b. None),
     RunNodeDrain = (\<lambda>h drainer node. None)\<rparr>"

definition sample_host :: host where
  "sample_host = \<lparr>files = Map.empty, log = []\<rparr>"

definition thirty_days :: duration where
  "thirty_days = 720 * time_Hour"

lemma sample_parse:
  "parsekubeadmAlphaCertsCheckExpiration (\<lambda>_ _. None) sample_output =
     [(''apiserver'', Date 2021 5 12 2 29 0 0), (''etcd-ca'', Date 2030 3 11 1 51 0 0)]"
proof -
  have ok: "list_all table_line_ok sample_table" by code_simp
  have t: "Contains sample_titles ''CERTIFICATE''" "Contains sample_titles ''EXPIRES''"
    "CHR 0x0A \<notin> set sample_titles" by code_simp+
  have "table_map sample_table [] =
      [(''apiserver'', Date 2021 5 12 2 29 0 0), (''etcd-ca'', Date 2030 3 11 1 51 0 0)]"
    by (simp add: sample_table_def)
  then show ?thesis
    using parse_table [OF _ t ok, of "['''']" "\<lambda>_ _. None"] by (simp add: sample_output_def)
qed

lemma sample_range_order: "range_order sample_env"
  by (simp add: range_order_def sample_env_def)

lemma sample_due:
  "due (Date 2021 5 12 2 29 0 0) (Date 2021 5 1 0 0 0 0) thirty_days"
  "\<not> due (Date 2030 3 11 1 51 0 0) (Date 2021 5 1 0 0 0 0) thirty_days"
  by code_simp+

lemma sample_commands:
  "os_output sample_env h version_args = (Inr (''v1.20.2'' @ [CHR 0x0A]), files h)"
  "os_output sample_env h (certs_args True [''check-expiration'']) = (Inr sample_output, files h)"
  "at_least_1_20 sample_env (''v1.20.2'' @ [CHR 0x0A]) = Returned True"
  "os_run sample_env h args = (None, files h)"
  "range_keys sample_env h ks = ks"
  "os_now sample_env h = Date 2021 5 1 0 0 0 0"
  "os_lookupName sample_env = (\<lambda>name t. None)"
proof -
  have "certs_args True [''check-expiration''] \<noteq> version_args" by code_simp
  then show "os_output sample_env h (certs_args True [''check-expiration'']) = (Inr sample_output, files h)"
    by (simp add: sample_env_def)
  show "at_least_1_20 sample_env (''v1.20.2'' @ [CHR 0x0A]) = Returned True" by code_simp
qed (simp_all add: sample_env_def)

lemma sample_CheckExpiration:
  "\<exists>h'. Kubeadm_CheckExpiration sample_env (Kubeadm_New sample_env ''node'' thirty_days) sample_host =
     (Returned ([''apiserver''], None), h')"
  by (simp add: Kubeadm_CheckExpiration_def Kubeadm_New_def kubeadmAlphaCertsCheckExpiration_def
      Cmd_Output_kubeadm sample_commands sample_parse checkCertificateExpiry_due Clock_Now_eq sample_due
      del: append_Cons)

text \<open>
  Claim C15. What \<open>CheckExpiration\<close> reports when it succeeds: kubeadm was asked for its version and,
  with the subcommand that version has, for the expiration table; every certificate of the table was
  compared once with the clock; and the result is exactly the certificates that were due at
  the instant they were compared. The order of Go's map iteration is arbitrary.
\<close>

theorem CheckExpiration_reports_due:
  assumes "range_order env"
    and "Kubeadm_CheckExpiration env (Kubeadm_New env node d) h = (Returned (certs, None), h')"
  shows "\<exists>ver b out ks ts. let kv = parsekubeadmAlphaCertsCheckExpiration (os_lookupName env) out in
           events_between h h' = [EvOutput version_args (Inr ver),
              EvOutput (certs_args b [''check-expiration'']) (Inr out)] @ map EvNow ts \<and>
           at_least_1_20 env ver = Returned b \<and>
           mset ks = mset (map fst kv) \<and> length ts = length ks \<and>
           certs = map fst (filter (due_now kv d) (zip ks ts))"
  using assms by (rule CheckExpiration_spec)

theorem CheckExpiration_reports_due_witness:
  "\<exists>h' ver b out ks ts. let kv = parsekubeadmAlphaCertsCheckExpiration (os_lookupName sample_env) out in
     events_between sample_host h' = [EvOutput version_args (Inr ver),
       EvOutput (certs_args b [''check-expiration'']) (Inr out)] @ map EvNow ts \<and>
     at_least_1_20 sample_env ver = Returned b \<and>
     mset ks = mset (map fst kv) \<and> length ts = length ks \<and>
     [''apiserver''] = map fst (filter (due_now kv thirty_days) (zip ks ts))"
  using CheckExpiration_reports_due [OF sample_range_order] sample_CheckExpiration by blast

subsection \<open>The events of a rotation\<close>

definition backup_args :: "'e host_env_scheme \<Rightarrow> string \<Rightarrow> time \<Rightarrow> string list" where
  "backup_args env path now = ''/usr/bin/nsenter'' #
     nsenter [''/usr/bin/cp'', path, certificateBackupPath env path now]"

definition renew_args :: "bool \<Rightarrow> string \<Rightarrow> string list" where
  "renew_args b c = certs_args b [''renew'', c]"

definition restart_args :: "string list" where
  "restart_args = ''/usr/bin/nsenter'' # nsenter [''/usr/bin/systemctl'', ''restart'', ''kubelet'']"

text \<open>One certificate: what happens and how it ends.\<close>

inductive cert_block ::
  "'e host_env_scheme \<Rightarrow> string \<Rightarrow> event list \<Rightarrow> go_error option outcome \<Rightarrow> bool" for env where
  backup_failed:
    "map_of certificates c = Some path \<Longrightarrow>
     cert_block env c [EvNow now, EvRun (backup_args env path now) (Some e)] (Returned (Some e))"
| version_failed:
    "map_of certificates c = Some path \<Longrightarrow>
     cert_block env c [EvNow now, EvRun (backup_args env path now) None,
       EvOutput version_args (Inl e)] (Returned (Some e))"
| version_panics:
    "map_of certificates c = Some path \<Longrightarrow> at_least_1_20 env v = Panicked m \<Longrightarrow>
     cert_block env c [EvNow now, EvRun (backup_args env path now) None,
       EvOutput version_args (Inr v)] (Panicked m)"
| renewed:
    "map_of certificates c = Some path \<Longrightarrow> at_least_1_20 env v = Returned b \<Longrightarrow>
     cert_block env c [EvNow now, EvRun (backup_args env path now) None,
       EvOutput version_args (Inr v), EvRun (renew_args b c) r] (Returned r)"

inductive_cases cert_blockE: "cert_block env c es r"

inductive loop_trace ::
  "'e host_env_scheme \<Rightarrow> string list \<Rightarrow> go_error option \<Rightarrow> event list \<Rightarrow> go_error option outcome \<Rightarrow> bool"
  for env where
  finished: "loop_trace env [] errs [] (Returned errs)"
| skipped: "map_of certificates c = None \<Longrightarrow> loop_trace env cs errs es r \<Longrightarrow> loop_trace env (c # cs) errs es r"
| rotated: "cert_block env c b (Returned None) \<Longrightarrow> loop_trace env cs errs es r \<Longrightarrow>
    loop_trace env (c # cs) errs (b @ es) r"
| failed: "cert_block env c b (Returned (Some e)) \<Longrightarrow>
    loop_trace env cs (Some (Errorf ''%w; '' e)) es r \<Longrightarrow> loop_trace env (c # cs) errs (b @ es) r"
| panicked: "cert_block env c b (Panicked m) \<Longrightarrow> loop_trace env (c # cs) errs b (Panicked m)"

lemma backupCertificate_log:
  assumes "backupCertificate env node c path h = (err, h')"
  shows "\<exists>now. log h' = log h @ [EvNow now, EvRun (backup_args env path now) err]"
  using assms
  by (auto simp: backupCertificate_def Clock_Now_eq Cmd_Run_def NewCommand_def backup_args_def
      split: prod.splits)

lemma rotateCertificate_log:
  assumes "rotateCertificate env node c path h = (r, h')"
  shows "(\<exists>e. log h' = log h @ [EvOutput version_args (Inl e)] \<and> r = Returned (Some e)) \<or>
         (\<exists>v m. log h' = log h @ [EvOutput version_args (Inr v)] \<and>
                at_least_1_20 env v = Panicked m \<and> r = Panicked m) \<or>
         (\<exists>v b e. log h' = log h @ [EvOutput version_args (Inr v), EvRun (renew_args b c) e] \<and>
                at_least_1_20 env v = Returned b \<and> r = Returned e)"
  using assms
  by (auto simp: rotateCertificate_def kubeadmAlphaCertsRenew_def Cmd_Output_kubeadm Cmd_Run_def Let_def
      renew_args_def certs_args_def split: prod.splits sum.splits outcome.splits)

text \<open>One turn of the loop is one block.\<close>

lemma cert_block_of_steps:
  assumes path: "map_of certificates c = Some path"
    and backup: "backupCertificate env node c path h = (err, h1)"
  shows "(\<exists>es e. err = Some e \<and> log h1 = log h @ es \<and> cert_block env c es (Returned (Some e))) \<or>
         (err = None \<and> (\<forall>r h2. rotateCertificate env node c path h1 = (r, h2) \<longrightarrow>
            (\<exists>es. log h2 = log h @ es \<and> cert_block env c es r)))"
proof -
  obtain now where b: "log h1 = log h @ [EvNow now, EvRun (backup_args env path now) err]"
    using backupCertificate_log [OF backup] by blast
  show ?thesis
  proof (cases err)
    case (Some e)
    with b path show ?thesis by (auto intro: cert_block.intros)
  next
    case None
    have "\<exists>es. log h2 = log h @ es \<and> cert_block env c es r"
      if "rotateCertificate env node c path h1 = (r, h2)" for r h2
      using rotateCertificate_log [OF that] path b None
      by (auto intro: cert_block.intros)
    with None show ?thesis by blast
  qed
qed

lemma rotate_loop_trace:
  assumes "rotate_loop env node cs errs h = (r, h')"
  shows "\<exists>es. log h' = log h @ es \<and> loop_trace env cs errs es r"
  using assms
proof (induction cs arbitrary: errs h)
  case Nil
  then show ?case by (auto intro: loop_trace.intros)
next
  case (Cons c cs)
  show ?case
  proof (cases "map_of certificates c")
    case None
    with Cons.prems have "rotate_loop env node cs errs h = (r, h')" by simp
    then show ?thesis using Cons.IH None by (blast intro: loop_trace.intros)
  next
    case (Some path)
    obtain err h1 where backup: "backupCertificate env node c path h = (err, h1)" by fastforce
    obtain q h2 where rotate: "rotateCertificate env node c path h1 = (q, h2)" by fastforce
    note step = cert_block_of_steps [OF Some backup]
    show ?thesis
    proof (cases err)
      case err: (Some e)
      then obtain es where "log h1 = log h @ es" "cert_block env c es (Returned (Some e))"
        using step by auto
      moreover obtain es' where "log h' = log h1 @ es'" "loop_trace env cs (Some (Errorf ''%w; '' e)) es' r"
        using Cons.IH [of "Some (Errorf ''%w; '' e)" h1] Cons.prems Some backup err by auto
      ultimately show ?thesis by (auto intro: loop_trace.intros)
    next
      case None
      then obtain es where es: "log h2 = log h @ es" "cert_block env c es q"
        using step rotate by auto
      show ?thesis
      proof (cases q)
        case (Panicked m)
        with es None Cons.prems Some backup rotate show ?thesis by (auto intro: loop_trace.intros)
      next
        case (Returned e)
        define errs' where "errs' = (case e of None \<Rightarrow> errs | Some e \<Rightarrow> Some (Errorf ''%w; '' e))"
        have "rotate_loop env node cs errs' h2 = (r, h')"
          using Cons.prems Some backup None rotate Returned by (auto simp: errs'_def split: option.splits)
        then obtain es' where "log h' = log h2 @ es'" "loop_trace env cs errs' es' r"
          using Cons.IH by blast
        with es Returned show ?thesis
          by (cases e) (auto simp: errs'_def intro: loop_trace.intros)
      qed
    qed
  qed
qed

lemma Kubeadm_Rotate_log:
  assumes "Kubeadm_Rotate env k cs h = (r, h')"
  shows "\<exists>es. log h' = log h @ es \<and>
    (loop_trace env cs None es r \<and> r \<noteq> Returned None \<or>
     (\<exists>es' e. es = es' @ [EvRun restart_args e] \<and> loop_trace env cs None es' (Returned None) \<and>
        r = Returned (map_option (Errorf ''%w; '') e)))"
proof -
  obtain q h1 where loop: "rotate_loop env (nodeName k) cs None h = (q, h1)" by fastforce
  obtain es where es: "log h1 = log h @ es" "loop_trace env cs None es q"
    using rotate_loop_trace [OF loop] by blast
  show ?thesis
  proof (cases "q = Returned None")
    case True
    then have "\<exists>e. log h' = log h1 @ [EvRun restart_args e] \<and> r = Returned (map_option (Errorf ''%w; '') e)"
      using assms loop
      by (auto simp: Kubeadm_Rotate_def RestartKubelet_def Cmd_Run_def NewCommand_def restart_args_def
          split: prod.splits option.splits)
    with es True show ?thesis by auto
  next
    case False
    then have "r = q \<and> h' = h1"
      using assms loop by (auto simp: Kubeadm_Rotate_def split: prod.splits option.splits outcome.splits)
    with es False show ?thesis by auto
  qed
qed

lemma Kubeadm_Rotate_events:
  assumes "Kubeadm_Rotate env k cs h = (r, h')"
  shows "loop_trace env cs None (events_between h h') r \<and> r \<noteq> Returned None \<or>
    (\<exists>es e. events_between h h' = es @ [EvRun restart_args e] \<and>
       loop_trace env cs None es (Returned None) \<and> r = Returned (map_option (Errorf ''%w; '') e))"
  using Kubeadm_Rotate_log [OF assms] by (auto simp: events_between_def)

subsubsection \<open>What a successful rotation did\<close>

definition rotated_block :: "'e host_env_scheme \<Rightarrow> string \<Rightarrow> event list \<Rightarrow> bool" where
  "rotated_block env c es \<longleftrightarrow>
     (\<exists>path now v b. map_of certificates c = Some path \<and> at_least_1_20 env v = Returned b \<and>
        es = [EvNow now, EvRun (backup_args env path now) None,
              EvOutput version_args (Inr v), EvRun (renew_args b c) None])"

lemma cert_block_ok: "cert_block env c es (Returned None) \<Longrightarrow> rotated_block env c es"
  by (auto simp: rotated_block_def elim!: cert_blockE)

lemma cert_block_known: "cert_block env c es r \<Longrightarrow> map_of certificates c \<noteq> None"
  by (auto elim!: cert_blockE)

lemma loop_trace_keeps_error:
  "loop_trace env cs errs es r \<Longrightarrow> errs \<noteq> None \<Longrightarrow> r \<noteq> Returned None"
  by (induction rule: loop_trace.induct) auto

lemma loop_trace_success:
  assumes "loop_trace env cs errs es r" "r = Returned None"
  shows "\<exists>bs. list_all2 (rotated_block env) (filter (\<lambda>c. map_of certificates c \<noteq> None) cs) bs \<and>
              es = concat bs"
  using assms
proof (induction rule: loop_trace.induct)
  case (rotated c b cs errs es r)
  then obtain bs where bs: "list_all2 (rotated_block env) (filter (\<lambda>c. map_of certificates c \<noteq> None) cs) bs"
    "es = concat bs" by blast
  moreover have "rotated_block env c b" "map_of certificates c \<noteq> None"
    using rotated.hyps(1) cert_block_ok cert_block_known by blast+
  ultimately show ?case by (intro exI [of _ "b # bs"]) simp
next
  case (failed c b e cs es r errs)
  then show ?case using loop_trace_keeps_error by blast
qed auto

lemma sample_Rotate:
  "\<exists>h'. Kubeadm_Rotate sample_env (Kubeadm_New sample_env ''node'' thirty_days)
          [''apiserver'', ''etcd-ca''] sample_host = (Returned None, h') \<and>
     events_between sample_host h' =
       [EvNow (Date 2021 5 1 0 0 0 0),
        EvRun (backup_args sample_env ''/etc/kubernetes/pki/apiserver.crt'' (Date 2021 5 1 0 0 0 0)) None,
        EvOutput version_args (Inr (''v1.20.2'' @ [CHR 0x0A])),
        EvRun (renew_args True ''apiserver'') None, EvRun restart_args None]"
proof -
  have "map_of certificates ''etcd-ca'' = None"
    "map_of certificates ''apiserver'' = Some ''/etc/kubernetes/pki/apiserver.crt''" by code_simp+
  then show ?thesis
    by (simp add: Kubeadm_Rotate_def Kubeadm_New_def backupCertificate_def rotateCertificate_def
        kubeadmAlphaCertsRenew_def RestartKubelet_def Cmd_Output_kubeadm Cmd_Run_def Clock_Now_eq
        NewCommand_def backup_args_def renew_args_def restart_args_def certs_args_def [symmetric]
        sample_commands events_between_def sample_host_def del: append_Cons)
qed

text \<open>
  Claim C16. A rotation that reports success did all of its work, in order: every certificate of the list
  that kucero knows was copied to its backup and then renewed, with the subcommand of the
  kubeadm version found, in the order of the list; names kucero does not know are skipped; and
  only then the kubelet was restarted, successfully. Nothing else was done.
\<close>

theorem Rotate_success:
  assumes "Kubeadm_Rotate env k cs h = (Returned None, h')"
  shows "\<exists>bs. list_all2 (rotated_block env) (filter (\<lambda>c. map_of certificates c \<noteq> None) cs) bs \<and>
              events_between h h' = concat bs @ [EvRun restart_args None]"
  using Kubeadm_Rotate_events [OF assms] loop_trace_success [of env cs None] by fastforce

theorem Rotate_success_witness:
  "\<exists>h' bs. list_all2 (rotated_block sample_env)
       (filter (\<lambda>c. map_of certificates c \<noteq> None) [''apiserver'', ''etcd-ca'']) bs \<and>
     events_between sample_host h' = concat bs @ [EvRun restart_args None]"
  using Rotate_success sample_Rotate by blast

subsubsection \<open>No renewal without a backup\<close>

definition just_backed_up :: "'e host_env_scheme \<Rightarrow> string \<Rightarrow> event list \<Rightarrow> bool" where
  "just_backed_up env c pre \<longleftrightarrow>
     (\<exists>path now v pre'. map_of certificates c = Some path \<and>
        pre = pre' @ [EvNow now, EvRun (backup_args env path now) None, EvOutput version_args (Inr v)])"

definition backed_up :: "'e host_env_scheme \<Rightarrow> string list \<Rightarrow> event list \<Rightarrow> bool" where
  "backed_up env cs es \<longleftrightarrow>
     (\<forall>pre b c e post. es = pre @ EvRun (renew_args b c) e # post \<longrightarrow>
        c \<in> set cs \<and> just_backed_up env c pre)"

lemma just_backed_up_append: "just_backed_up env c pre \<Longrightarrow> just_backed_up env c (xs @ pre)"
  unfolding just_backed_up_def by (metis append.assoc)

lemma renew_args_simps [simp]:
  "renew_args b c = renew_args b' c' \<longleftrightarrow> b = b' \<and> c = c'"
  "renew_args b c \<noteq> restart_args" "restart_args \<noteq> renew_args b c"
  "renew_args b c \<noteq> backup_args env path now" "backup_args env path now \<noteq> renew_args b c"
  "backup_args env path now \<noteq> restart_args" "restart_args \<noteq> backup_args env path now"
  by (auto simp: renew_args_def restart_args_def backup_args_def certs_args_def certs_cmd_def
      NewCommandWithStdout_def kubeadm_cmd_def nsenter_def)

lemma backed_up_Nil [simp]: "backed_up env cs []"
  by (simp add: backed_up_def)

lemma backed_up_other: "(\<And>b c e. x \<noteq> EvRun (renew_args b c) e) \<Longrightarrow> backed_up env cs [x]"
  by (auto simp: backed_up_def Cons_eq_append_conv)

lemma backed_up_append:
  assumes "backed_up env cs xs" "backed_up env cs ys"
  shows "backed_up env cs (xs @ ys)"
  unfolding backed_up_def
proof (intro allI impI)
  fix pre b c e post
  assume "xs @ ys = pre @ EvRun (renew_args b c) e # post"
  then consider (left) post' where "xs = pre @ EvRun (renew_args b c) e # post'"
    | (right) pre' where "pre = xs @ pre'" "ys = pre' @ EvRun (renew_args b c) e # post"
    by (auto simp: append_eq_append_conv2 append_eq_Cons_conv)
  then show "c \<in> set cs \<and> just_backed_up env c pre"
  proof cases
    case left
    with assms(1) show ?thesis unfolding backed_up_def by blast
  next
    case right
    with assms(2) show ?thesis unfolding backed_up_def by (blast intro: just_backed_up_append)
  qed
qed

lemma backed_up_mono: "backed_up env cs es \<Longrightarrow> set cs \<subseteq> set cs' \<Longrightarrow> backed_up env cs' es"
  unfolding backed_up_def by blast

lemma cert_block_backed_up: "cert_block env c es r \<Longrightarrow> c \<in> set cs \<Longrightarrow> backed_up env cs es"
  by (erule cert_blockE) (auto simp: backed_up_def just_backed_up_def Cons_eq_append_conv)

lemma loop_trace_backed_up: "loop_trace env cs errs es r \<Longrightarrow> backed_up env cs es"
proof (induction rule: loop_trace.induct)
  case (skipped c cs errs es r)
  then show ?case by (auto intro: backed_up_mono)
next
  case (rotated c b cs errs es r)
  then show ?case by (intro backed_up_append) (auto intro: cert_block_backed_up backed_up_mono)
next
  case (failed c b e cs es r errs)
  then show ?case by (intro backed_up_append) (auto intro: cert_block_backed_up backed_up_mono)
next
  case (panicked c b m cs errs)
  then show ?case by (auto intro: cert_block_backed_up)
qed simp

lemma Kubeadm_Rotate_backed_up:
  assumes "Kubeadm_Rotate env k cs h = (r, h')"
  shows "backed_up env cs (events_between h h')"
  using Kubeadm_Rotate_events [OF assms] loop_trace_backed_up [of env cs None]
  by (auto intro!: backed_up_append backed_up_other)

text \<open>
  Claim C8. However a rotation ends, kubeadm is only told to renew a certificate that was asked for and
  that kucero knows, and right before that command its file was copied to the backup path of
  that instant, and the copy succeeded.
\<close>

theorem Rotate_renews_after_backup:
  assumes "Kubeadm_Rotate env k cs h = (r, h')"
    and "events_between h h' = pre @ EvRun (renew_args b c) e # post"
  shows "c \<in> set cs \<and> (\<exists>path now v pre'. map_of certificates c = Some path \<and>
          pre = pre' @ [EvNow now, EvRun (backup_args env path now) None, EvOutput version_args (Inr v)])"
  using Kubeadm_Rotate_backed_up [OF assms(1)] assms(2) unfolding backed_up_def just_backed_up_def by blast

theorem Rotate_renews_after_backup_witness:
  "\<exists>path now v pre'. map_of certificates ''apiserver'' = Some path \<and>
     [EvNow (Date 2021 5 1 0 0 0 0),
      EvRun (backup_args sample_env ''/etc/kubernetes/pki/apiserver.crt'' (Date 2021 5 1 0 0 0 0)) None,
      EvOutput version_args (Inr (''v1.20.2'' @ [CHR 0x0A]))] =
     pre' @ [EvNow now, EvRun (backup_args sample_env path now) None, EvOutput version_args (Inr v)]"
proof -
  obtain h' where "Kubeadm_Rotate sample_env (Kubeadm_New sample_env ''node'' thirty_days)
          [''apiserver'', ''etcd-ca''] sample_host = (Returned None, h')"
    "events_between sample_host h' =
       [EvNow (Date 2021 5 1 0 0 0 0),
        EvRun (backup_args sample_env ''/etc/kubernetes/pki/apiserver.crt'' (Date 2021 5 1 0 0 0 0)) None,
        EvOutput version_args (Inr (''v1.20.2'' @ [CHR 0x0A]))] @
        EvRun (renew_args True ''apiserver'') None # [EvRun restart_args None]"
    using sample_Rotate by auto
  from Rotate_renews_after_backup [OF this] show ?thesis by blast
qed

subsubsection \<open>Errors and the restart of the kubelet\<close>

fun failure :: "event \<Rightarrow> go_error list" where
  "failure (EvRun args (Some e)) = [e]"
| "failure (EvOutput args (Inl e)) = [e]"
| "failure _ = []"

definition failures :: "event list \<Rightarrow> go_error list" where
  "failures es = concat (map failure es)"

lemma failures_simps [simp]:
  "failures [] = []" "failures (e # es) = failure e @ failures es"
  "failures (xs @ ys) = failures xs @ failures ys"
  by (simp_all add: failures_def)

definition last_failure :: "event list \<Rightarrow> go_error option" where
  "last_failure es = (if failures es = [] then None else Some (last (failures es)))"

lemma cert_block_failures:
  "cert_block env c es (Returned r) \<Longrightarrow> failures es = (case r of None \<Rightarrow> [] | Some e \<Rightarrow> [e])"
  by (erule cert_blockE) (auto split: option.splits)

lemma loop_trace_failures:
  assumes "loop_trace env cs errs es r" "r = Returned x"
  shows "x = (if failures es = [] then errs else Some (Errorf ''%w; '' (last (failures es))))"
  using assms
proof (induction rule: loop_trace.induct)
  case (rotated c b cs errs es r)
  then show ?case using cert_block_failures [OF rotated.hyps(1)] by simp
next
  case (failed c b e cs es r errs)
  then show ?case using cert_block_failures [OF failed.hyps(1)] by simp
qed simp_all

lemma cert_block_no_restart: "cert_block env c es r \<Longrightarrow> EvRun restart_args e \<notin> set es"
  by (erule cert_blockE) auto

lemma loop_trace_no_restart: "loop_trace env cs errs es r \<Longrightarrow> EvRun restart_args e \<notin> set es"
  by (induction rule: loop_trace.induct) (auto dest: cert_block_no_restart)

text \<open>
  Claim C29. A rotation that returns reports the last of its failures and only that one, wrapped in the
  format \<open>%w; \<close>: it is nil exactly when no command failed. Either some backup, query or renewal
  failed, and the kubelet is not restarted; or none of them failed, and the kubelet is restarted once, as the
  last action.
\<close>

theorem Rotate_reports_last_failure:
  assumes "Kubeadm_Rotate env k cs h = (Returned x, h')"
  shows "x = map_option (Errorf ''%w; '') (last_failure (events_between h h')) \<and>
    (\<exists>es. (\<forall>e. EvRun restart_args e \<notin> set es) \<and>
       (if last_failure es = None then (\<exists>e. events_between h h' = es @ [EvRun restart_args e])
        else events_between h h' = es))"
proof -
  consider (no_restart) "loop_trace env cs None (events_between h h') (Returned x)" "x \<noteq> None"
    | (restart) es e where "events_between h h' = es @ [EvRun restart_args e]"
        "loop_trace env cs None es (Returned None)" "x = map_option (Errorf ''%w; '') e"
    using Kubeadm_Rotate_events [OF assms] by auto
  then show ?thesis
  proof cases
    case no_restart
    have "last_failure (events_between h h') \<noteq> None"
      and "x = map_option (Errorf ''%w; '') (last_failure (events_between h h'))"
      using loop_trace_failures [OF no_restart(1) refl] no_restart(2)
      by (simp_all add: last_failure_def split: if_splits)
    then show ?thesis using loop_trace_no_restart [OF no_restart(1)] by (metis (full_types))
  next
    case restart
    have none: "failures es = []" using loop_trace_failures [OF restart(2) refl] by (auto split: if_splits)
    then have "x = map_option (Errorf ''%w; '') (last_failure (events_between h h'))"
      using restart(1,3) by (cases e) (simp_all add: last_failure_def)
    moreover have "last_failure es = None" using none by (simp add: last_failure_def)
    ultimately show ?thesis using restart(1) loop_trace_no_restart [OF restart(2)] by (intro conjI exI [of _ es]) auto
  qed
qed

theorem Rotate_reports_last_failure_witness:
  "\<exists>h'. None = map_option (Errorf ''%w; '') (last_failure (events_between sample_host h')) \<and>
     EvRun restart_args None \<in> set (events_between sample_host h')"
proof -
  obtain h' where run: "Kubeadm_Rotate sample_env (Kubeadm_New sample_env ''node'' thirty_days)
          [''apiserver'', ''etcd-ca''] sample_host = (Returned None, h')"
    "EvRun restart_args None \<in> set (events_between sample_host h')"
    using sample_Rotate by auto
  from Rotate_reports_last_failure [OF run(1)] run(2) show ?thesis by blast
qed

subsubsection \<open>No certificate is forgotten\<close>

text \<open>
  The certificate had its turn: somewhere, without anything in between, its file was copied and kubeadm was told to
  renew it; or the copy failed; or the copy was made and the version query right after it failed.
\<close>

definition renewal_tried :: "'e host_env_scheme \<Rightarrow> string \<Rightarrow> string \<Rightarrow> event list \<Rightarrow> bool" where
  "renewal_tried env c path es \<longleftrightarrow>
     (\<exists>pre now post.
        (\<exists>v b r. at_least_1_20 env v = Returned b \<and>
           es = pre @ [EvNow now, EvRun (backup_args env path now) None,
             EvOutput version_args (Inr v), EvRun (renew_args b c) r] @ post) \<or>
        (\<exists>e. es = pre @ [EvNow now, EvRun (backup_args env path now) (Some e)] @ post) \<or>
        (\<exists>e. es = pre @ [EvNow now, EvRun (backup_args env path now) None, EvOutput version_args (Inl e)] @ post))"

lemma renewal_tried_append:
  assumes "renewal_tried env c path es"
  shows "renewal_tried env c path (xs @ es @ ys)"
proof -
  obtain pre now post where cases: "(\<exists>v b r. at_least_1_20 env v = Returned b \<and>
       es = pre @ [EvNow now, EvRun (backup_args env path now) None,
         EvOutput version_args (Inr v), EvRun (renew_args b c) r] @ post) \<or>
     (\<exists>e. es = pre @ [EvNow now, EvRun (backup_args env path now) (Some e)] @ post) \<or>
     (\<exists>e. es = pre @ [EvNow now, EvRun (backup_args env path now) None, EvOutput version_args (Inl e)] @ post)"
    using assms unfolding renewal_tried_def by blast
  show ?thesis
    unfolding renewal_tried_def
    by (rule exI [of _ "xs @ pre"], rule exI [of _ now], rule exI [of _ "post @ ys"]) (use cases in auto)
qed

lemma renewal_tried_appendI:
  "renewal_tried env c path es \<Longrightarrow> renewal_tried env c path (xs @ es)"
  "renewal_tried env c path es \<Longrightarrow> renewal_tried env c path (es @ ys)"
  using renewal_tried_append [of env c path es xs "[]"] renewal_tried_append [of env c path es "[]" ys] by simp_all

lemma renewal_tried_events:
  "renewal_tried env c path es \<Longrightarrow>
     (\<exists>b r. EvRun (renew_args b c) r \<in> set es) \<or>
     (\<exists>now e. EvRun (backup_args env path now) (Some e) \<in> set es) \<or>
     (\<exists>e. EvOutput version_args (Inl e) \<in> set es)"
  unfolding renewal_tried_def by fastforce

lemma renewal_tried_block:
  "cert_block env c es (Returned r) \<Longrightarrow> map_of certificates c = Some path \<Longrightarrow>
     \<exists>now. (\<exists>v b r. at_least_1_20 env v = Returned b \<and>
        es = [EvNow now, EvRun (backup_args env path now) None, EvOutput version_args (Inr v), EvRun (renew_args b c) r]) \<or>
      (\<exists>e. es = [EvNow now, EvRun (backup_args env path now) (Some e)]) \<or>
      (\<exists>e. es = [EvNow now, EvRun (backup_args env path now) None, EvOutput version_args (Inl e)])"
  by (erule cert_blockE) auto

lemma cert_block_tried:
  "cert_block env c es (Returned r) \<Longrightarrow> map_of certificates c = Some path \<Longrightarrow> renewal_tried env c path es"
  unfolding renewal_tried_def by (drule renewal_tried_block) (assumption, metis append_Nil append_Nil2)

lemma loop_trace_tried:
  assumes "loop_trace env cs errs es q" "q = Returned x" "c \<in> set cs" "map_of certificates c = Some path"
  shows "renewal_tried env c path es"
  using assms
proof (induction rule: loop_trace.induct)
  case (rotated c' b cs errs es r)
  then show ?case
    by (cases "c = c'") (auto intro: renewal_tried_appendI dest: cert_block_tried)
next
  case (failed c' b e cs es r errs)
  then show ?case
    by (cases "c = c'") (auto intro: renewal_tried_appendI dest: cert_block_tried)
qed auto

lemma Kubeadm_Rotate_tried:
  assumes "Kubeadm_Rotate env k cs h = (Returned x, h')" "c \<in> set cs" "map_of certificates c = Some path"
  shows "\<exists>es. log h' = log h @ es \<and> renewal_tried env c path es"
proof -
  obtain es where es: "log h' = log h @ es"
    and "loop_trace env cs None es (Returned x) \<or>
      (\<exists>es' e. es = es' @ [EvRun restart_args e] \<and> loop_trace env cs None es' (Returned None))"
    using Kubeadm_Rotate_log [OF assms(1)] by blast
  then have "renewal_tried env c path es"
    using loop_trace_tried [OF _ refl assms(2,3)] renewal_tried_appendI(2) by blast
  with es show ?thesis by blast
qed

subsection \<open>Backup paths\<close>

definition kubernetes_dirs :: "string list" where
  "kubernetes_dirs = [''/etc/kubernetes'', ''/etc/kubernetes/pki'', ''/etc/kubernetes/pki/etcd'']"

text \<open>A path of the table taken apart the way \<open>backupCertificate\<close> does.\<close>

definition plain_path :: "string \<Rightarrow> bool" where
  "plain_path p \<longleftrightarrow>
     (let d = filepath_Dir p; e = filepath_Ext p; s = TrimSuffix (filepath_Base p) e
      in d \<in> set kubernetes_dirs \<and> p = d @ ''/'' @ s @ e \<and> e \<noteq> [] \<and> hd e = CHR ''.'' \<and>
         CHR ''.'' \<notin> set (tl e) \<and> CHR ''/'' \<notin> set e \<and> CHR ''/'' \<notin> set s \<and> \<not> HasSuffix p ''.bak'')"

lemma certificates_plain: "list_all (\<lambda>(c, p). plain_path p) certificates"
  by code_simp

lemma clean_dirs:
  assumes "d \<in> set kubernetes_dirs"
  shows "d \<noteq> [] \<and> hd d = CHR ''/'' \<and>
    (\<exists>st. foldl (clean_elem True) [] (Split CHR ''/'' d) = st \<and> st \<noteq> [] \<and>
       CHR ''/'' # join_with CHR ''/'' (rev st) = d)"
proof -
  have "list_all (\<lambda>d. d \<noteq> [] \<and> hd d = CHR ''/'' \<and>
      foldl (clean_elem True) [] (Split CHR ''/'' d) \<noteq> [] \<and>
      CHR ''/'' # join_with CHR ''/'' (rev (foldl (clean_elem True) [] (Split CHR ''/'' d))) = d) kubernetes_dirs"
    by code_simp
  with assms show ?thesis by (auto simp: list_all_iff)
qed

lemma join_with_snoc: "ws \<noteq> [] \<Longrightarrow> join_with c (ws @ [w]) = join_with c ws @ c # w"
  by (induction c ws rule: join_with.induct) (auto simp: join_with_Cons)

lemma filepath_Join2_dir:
  assumes d: "d \<in> set kubernetes_dirs"
    and name: "CHR ''/'' \<notin> set name" "2 < length name"
  shows "filepath_Join2 d name = d @ ''/'' @ name"
proof -
  obtain st where st: "d \<noteq> []" "hd d = CHR ''/''" "st \<noteq> []"
    "foldl (clean_elem True) [] (Split CHR ''/'' d) = st"
    "CHR ''/'' # join_with CHR ''/'' (rev st) = d"
    using clean_dirs [OF d] by blast
  have "name \<noteq> []" "name \<noteq> ''.''" "name \<noteq> ''..''" using name(2) by auto
  then have "filepath_Join2 d name = CHR ''/'' # join_with CHR ''/'' (rev st @ [name])"
    using st name(1)
    by (simp add: filepath_Join2_def filepath_Clean_def Split_append_sep Split_no_sep)
  also have "\<dots> = (CHR ''/'' # join_with CHR ''/'' (rev st)) @ ''/'' @ name"
    using st(3) by (simp add: join_with_snoc)
  finally show ?thesis using st(5) by simp
qed

lemma Format_stamp:
  "length (Format_20060102030405 off t) = 14" "CHR ''/'' \<notin> set (Format_20060102030405 off t)"
proof -
  have no_slash: "CHR ''/'' \<notin> set (appendInt n w)" for n w
    using digits_appendInt [of n w] by (auto simp: list_all_iff Let_def)
  show "length (Format_20060102030405 off t) = 14"
    unfolding Format_20060102030405_def Let_def case_prod_beta length_append length_appendInt by simp
  show "CHR ''/'' \<notin> set (Format_20060102030405 off t)"
    unfolding Format_20060102030405_def Let_def case_prod_beta set_append Un_iff using no_slash by blast
qed

lemma certificateBackupPath_eq:
  assumes "(c, p) \<in> set certificates"
  shows "certificateBackupPath env p now =
     filepath_Dir p @ ''/'' @ TrimSuffix (filepath_Base p) (filepath_Ext p) @ ''-'' @
     Format_20060102030405 (os_tz env now) now @ filepath_Ext p @ ''.bak''"
proof -
  have plain: "plain_path p" using assms certificates_plain by (auto simp: list_all_iff)
  have d: "filepath_Dir p \<in> set kubernetes_dirs"
    and "CHR ''/'' \<notin> set (TrimSuffix (filepath_Base p) (filepath_Ext p))" "CHR ''/'' \<notin> set (filepath_Ext p)"
    using plain unfolding plain_path_def Let_def by blast+
  then have "CHR ''/'' \<notin> set (TrimSuffix (filepath_Base p) (filepath_Ext p) @ ''-'' @
      Format_20060102030405 (os_tz env now) now @ filepath_Ext p @ ''.bak'')"
    using Format_stamp(2) by simp
  with d show ?thesis unfolding certificateBackupPath_def Let_def by (intro filepath_Join2_dir) simp_all
qed

text \<open>The live file of a backup, read off the backup's path.\<close>

definition original_path :: "string \<Rightarrow> string" where
  "original_path b =
     (let q = TrimSuffix b ''.bak''; e = filepath_Ext q; r = TrimSuffix q e
      in take (length r - 15) r @ e)"

lemma filepath_Ext_append:
  assumes "CHR ''.'' \<notin> set x" "CHR ''/'' \<notin> set x"
  shows "filepath_Ext (a @ CHR ''.'' # x) = CHR ''.'' # x"
proof -
  have "after_slash (a @ CHR ''.'' # x) = after_slash a @ CHR ''.'' # x"
    using assms by (auto simp: after_slash_def takeWhile_append)
  moreover have "takeWhile (\<lambda>c. c \<noteq> CHR ''.'') (rev x @ CHR ''.'' # rev (after_slash a)) = rev x"
    using assms by (auto simp: takeWhile_append)
  ultimately show ?thesis by (simp add: filepath_Ext_def)
qed

lemma original_path_backup:
  assumes "(c, p) \<in> set certificates"
  shows "original_path (certificateBackupPath env p now) = p"
proof -
  define e s d where "e = filepath_Ext p" and "s = TrimSuffix (filepath_Base p) e" and "d = filepath_Dir p"
  have p: "p = d @ ''/'' @ s @ e" and e: "e \<noteq> []" "hd e = CHR ''.''"
    "CHR ''.'' \<notin> set (tl e)" "CHR ''/'' \<notin> set e"
    using assms certificates_plain
    by (auto simp: list_all_iff plain_path_def Let_def e_def s_def d_def)
  let ?r = "d @ ''/'' @ s @ ''-'' @ Format_20060102030405 (os_tz env now) now"
  obtain x where x: "e = CHR ''.'' # x" using e(1,2) by (cases e) auto
  have "certificateBackupPath env p now = (?r @ e) @ ''.bak''"
    using certificateBackupPath_eq [OF assms] by (simp add: e_def s_def d_def)
  moreover have "filepath_Ext (?r @ e) = e"
    using filepath_Ext_append [of x ?r] e x by simp
  ultimately have "original_path (certificateBackupPath env p now) = take (length ?r - 15) ?r @ e"
    unfolding original_path_def Let_def by (simp only: TrimSuffix_append)
  also have "\<dots> = p" by (simp add: Format_stamp p)
  finally show ?thesis .
qed

text \<open>
  Claim C30. Backups stay apart from what they protect: for the ten certificates kucero manages, the
  backup path lies in the directory of the live file, tells which live file it belongs to (so
  backups of different certificates never collide, whatever the instants), and is not the path of
  any live certificate or kubeconfig.
\<close>

theorem backup_paths_separate:
  assumes "(c, p) \<in> set certificates"
  shows "(\<exists>name. certificateBackupPath env p now = filepath_Dir p @ ''/'' @ name \<and> CHR ''/'' \<notin> set name) \<and>
         original_path (certificateBackupPath env p now) = p \<and>
         certificateBackupPath env p now \<notin> snd ` set certificates"
proof (intro conjI)
  show "original_path (certificateBackupPath env p now) = p" using assms by (rule original_path_backup)
  have "CHR ''/'' \<notin> set (TrimSuffix (filepath_Base p) (filepath_Ext p))" "CHR ''/'' \<notin> set (filepath_Ext p)"
    using assms certificates_plain by (auto simp: list_all_iff plain_path_def Let_def)
  then show "\<exists>name. certificateBackupPath env p now = filepath_Dir p @ ''/'' @ name \<and> CHR ''/'' \<notin> set name"
    unfolding certificateBackupPath_eq [OF assms] using Format_stamp [of "os_tz env now" now] by simp
  have "HasSuffix (certificateBackupPath env p now) ''.bak''"
    unfolding certificateBackupPath_eq [OF assms] HasSuffix_iff by (metis append.assoc)
  then show "certificateBackupPath env p now \<notin> snd ` set certificates"
    using certificates_plain by (auto simp: list_all_iff plain_path_def Let_def)
qed

theorem backup_paths_separate_witness:
  "original_path (certificateBackupPath sample_env ''/etc/kubernetes/pki/etcd/peer.crt'' 0) =
     ''/etc/kubernetes/pki/etcd/peer.crt''"
proof -
  have "(''etcd-peer'', ''/etc/kubernetes/pki/etcd/peer.crt'') \<in> set certificates"
    by (simp add: certificates_def)
  from backup_paths_separate [OF this] show ?thesis by blast
qed

text \<open>The local second at which a backup is stamped.\<close>

abbreviation stamped :: "'e host_env_scheme \<Rightarrow> time \<Rightarrow> int" where
  "stamped env t \<equiv> local_second (os_tz env t) t"

lemma dvd_below_double:
  fixes x k :: int
  assumes "- (2 * k) < x" "x < 2 * k"
  shows "k dvd x \<longleftrightarrow> \<bar>x\<bar> \<in> {0, k}"
proof
  assume "k dvd x"
  then obtain q where x: "x = k * q" by (elim dvdE)
  have "0 < k" using assms by linarith
  then have "- 2 < q" "q < 2" using assms mult_less_cancel_left_pos [of k q 2] mult_less_cancel_left_pos [of k "- 2" q]
    by (simp_all add: x mult.commute [of 2 k])
  then have "q = - 1 \<or> q = 0 \<or> q = 1" by linarith
  then show "\<bar>x\<bar> \<in> {0, k}" using \<open>0 < k\<close> by (auto simp: x)
qed (auto simp: abs_if split: if_splits)

lemma backup_path_stamp:
  assumes "(c, p) \<in> set certificates"
  shows "certificateBackupPath env p t1 = certificateBackupPath env p t2 \<longleftrightarrow>
    Format_20060102030405 (os_tz env t1) t1 = Format_20060102030405 (os_tz env t2) t2"
  using Format_stamp(1) by (simp add: certificateBackupPath_eq [OF assms])

text \<open>
  Claim C34. When two backups of a certificate have the same path, so that the second copy overwrites the
  first backup: exactly when they are made at the same local second or, on the same local day,
  twelve hours apart. The time stamp uses a twelve-hour clock without saying which half of the day it
  is. (For local dates of the years 1 to 9999.)
\<close>

theorem backup_paths_collide_iff:
  assumes "(c, p) \<in> set certificates"
    and "four_digit_day (stamped env t1 div 86400)" and "four_digit_day (stamped env t2 div 86400)"
  shows "certificateBackupPath env p t1 = certificateBackupPath env p t2 \<longleftrightarrow>
    stamped env t1 div 86400 = stamped env t2 div 86400 \<and> \<bar>stamped env t1 - stamped env t2\<bar> \<in> {0, 12 * 3600}"
proof -
  define a b where "a = stamped env t1" and "b = stamped env t2"
  have half: "(a mod 43200 = b mod 43200) \<longleftrightarrow> \<bar>a - b\<bar> \<in> {0, 43200}" if day: "a div 86400 = b div 86400"
  proof -
    have "0 \<le> n mod 86400 \<and> n mod 86400 < 86400" for n :: int by simp
    from this [of a] this [of b] have "- 86400 < a - b" "a - b < 86400"
      using day div_mult_mod_eq [of a 86400] div_mult_mod_eq [of b 86400] by linarith+
    then show ?thesis using dvd_below_double [of 43200 "a - b"] by (simp add: mod_eq_dvd_iff)
  qed
  then show ?thesis
    unfolding backup_path_stamp [OF assms(1)] Format_eq_iff [OF assms(2,3)] a_def [symmetric] b_def [symmetric] by auto
qed

theorem backup_paths_collide_iff_witness:
  "certificateBackupPath sample_env ''/etc/kubernetes/admin.conf'' 0 =
     certificateBackupPath sample_env ''/etc/kubernetes/admin.conf'' (12 * sint time_Hour) \<and>
   certificateBackupPath sample_env ''/etc/kubernetes/admin.conf'' 0 \<noteq>
     certificateBackupPath sample_env ''/etc/kubernetes/admin.conf'' (sint time_Hour)"
proof -
  have known: "(''admin.conf'', ''/etc/kubernetes/admin.conf'') \<in> set certificates" by code_simp
  have day: "four_digit_day (stamped sample_env t div 86400)" if "t \<in> {0, sint time_Hour, 12 * sint time_Hour}" for t
    using that by (auto simp: four_digit_day_def local_second_def sample_env_def)
  show ?thesis
    using backup_paths_collide_iff [OF known day day, of 0 "12 * sint time_Hour"]
      backup_paths_collide_iff [OF known day day, of 0 "sint time_Hour"]
    by (simp add: local_second_def sample_env_def)
qed

end
