(* ===== verification/Kubelet_Conf.thy ===== *)
theory Kubelet_Conf
  imports Host
begin

text \<open>
  The kubelet's configuration: pkg/pki/conf/kubelet (kubelet.go, exec.go) behind the interface
  \<open>conf.Config\<close> of pkg/pki/conf/conf.go. Two files are checked and updated: the
  kubeconfig \<open>/etc/kubernetes/kubelet.conf\<close>, read and written by \<open>clientcmd\<close> of
  \<open>k8s.io/client-go\<close>, and \<open>/var/lib/kubelet/config.yaml\<close>, read with \<open>sigs.k8s.io/yaml\<close> and edited
  as text. Those libraries are parameters of the model (\<open>kubelet_env\<close>).
\<close>

record AuthInfo =
  ClientCertificate :: string
  ClientCertificateData :: bytes
  ClientKey :: string
  ClientKeyData :: bytes
  AuthInfo_rest :: string  \<comment> \<open>tokens, exec plugins and the other fields, which the code never touches\<close>

record kubeconfig =
  AuthInfos :: "(string \<times> AuthInfo) list"
  kubeconfig_rest :: string

record kubeletConfiguration =
  RotateCertificates :: bool
  ServerTLSBootstrap :: bool

record kubelet_env = host_env +
  clientcmd_LoadFromFile :: "host \<Rightarrow> string \<Rightarrow> go_error + kubeconfig"
  clientcmd_WriteToFile :: "host \<Rightarrow> kubeconfig \<Rightarrow> string \<Rightarrow> go_error option \<times> filesystem"
  yaml_Unmarshal :: "bytes \<Rightarrow> go_error + kubeletConfiguration"

record Kubelet =
  kubelet_nodeName :: string
  enableKubeletClientCertRotation :: bool
  enableKubeletServerCertRotation :: bool

definition Kubelet_New :: "string \<Rightarrow> bool \<Rightarrow> bool \<Rightarrow> Kubelet" where
  "Kubelet_New node client server =
     \<lparr>kubelet_nodeName = node, enableKubeletClientCertRotation = client,
      enableKubeletServerCertRotation = server\<rparr>"

subsection \<open>exec.go\<close>

definition err_of :: "go_error + 'a \<Rightarrow> go_error option" where
  "err_of r = (case r of Inl e \<Rightarrow> Some e | Inr _ \<Rightarrow> None)"

definition LoadFromFile :: "'e kubelet_env_scheme \<Rightarrow> string \<Rightarrow> host \<Rightarrow> (go_error + kubeconfig) \<times> host" where
  "LoadFromFile env path h =
     (let r = clientcmd_LoadFromFile env h path in (r, emit (EvLoadKubeconfig path (err_of r)) h))"

definition WriteToFile :: "'e kubelet_env_scheme \<Rightarrow> kubeconfig \<Rightarrow> string \<Rightarrow> host \<Rightarrow> go_error option \<times> host" where
  "WriteToFile env config path h =
     (let (err, fs) = clientcmd_WriteToFile env h config path
      in (err, emit (EvWriteKubeconfig path err) (h\<lparr>files := fs\<rparr>)))"

definition has_data :: "AuthInfo \<Rightarrow> bool" where
  "has_data authInfo \<longleftrightarrow> 0 < length (ClientKeyData authInfo) \<or> 0 < length (ClientCertificateData authInfo)"

definition checkEtcKubernetesKubeletConf ::
  "'e kubelet_env_scheme \<Rightarrow> Kubelet \<Rightarrow> string \<Rightarrow> host \<Rightarrow> (go_error + bool) \<times> host" where
  "checkEtcKubernetesKubeletConf env k filepath h =
     (case LoadFromFile env filepath h of
        (Inl err, h) \<Rightarrow> (Inl err, h)
      | (Inr kubeletConfig, h) \<Rightarrow> (Inr (list_ex (\<lambda>(name, a). has_data a) (AuthInfos kubeletConfig)), h))"

definition current_pem :: string where
  "current_pem = ''/var/lib/kubelet/pki/kubelet-client-current.pem''"

definition refer_to_pem :: "AuthInfo \<Rightarrow> AuthInfo" where
  "refer_to_pem authInfo =
     (if has_data authInfo
      then authInfo\<lparr>ClientKeyData := [], ClientCertificateData := [],
             ClientKey := current_pem, ClientCertificate := current_pem\<rparr>
      else authInfo)"

definition updateEtcKubernetesKubeletConf ::
  "'e kubelet_env_scheme \<Rightarrow> Kubelet \<Rightarrow> string \<Rightarrow> string \<Rightarrow> host \<Rightarrow> go_error option \<times> host" where
  "updateEtcKubernetesKubeletConf env k oldFilepath newFilepath h =
     (case LoadFromFile env oldFilepath h of
        (Inl err, h) \<Rightarrow> (Some err, h)
      | (Inr kubeletConfig, h) \<Rightarrow>
          (let kubeletConfig = kubeletConfig\<lparr>AuthInfos :=
                 map (\<lambda>(name, a). (name, refer_to_pem a)) (AuthInfos kubeletConfig)\<rparr>
           in case WriteToFile env kubeletConfig newFilepath h of
                (Some err, h) \<Rightarrow> (Some (Error (''failed to serialize '' @ newFilepath)), h)
              | (None, h) \<Rightarrow> (None, h)))"

definition checkVarLibKubeletConfigYaml ::
  "'e kubelet_env_scheme \<Rightarrow> Kubelet \<Rightarrow> string \<Rightarrow> host \<Rightarrow> (go_error + bool) \<times> host" where
  "checkVarLibKubeletConfigYaml env k filepath h =
     (case ReadFile env filepath h of
        (Inl err, h) \<Rightarrow> (Inl err, h)
      | (Inr kubeletConfig, h) \<Rightarrow>
          (case yaml_Unmarshal env kubeletConfig of
             Inl err \<Rightarrow> (Inl err, h)
           | Inr kc \<Rightarrow>
               if RotateCertificates kc \<noteq> enableKubeletClientCertRotation k then (Inr True, h)
               else if ServerTLSBootstrap kc \<noteq> enableKubeletServerCertRotation k then (Inr True, h)
               else (Inr False, h)))"

definition t_verb :: "bool \<Rightarrow> string" where
  "t_verb b = (if b then ''true'' else ''false'')"

text \<open>One of the two switches in the text: replace its line or append one.\<close>

definition set_switch :: "string \<Rightarrow> bool \<Rightarrow> bool \<Rightarrow> bytes \<Rightarrow> bytes" where
  "set_switch key have want kubeletConfig =
     (if have \<noteq> want then
        if Contains kubeletConfig (key @ '':'')
        then Replace1 kubeletConfig (key @ '': '' @ t_verb have) (key @ '': '' @ t_verb want)
        else kubeletConfig @ key @ '': '' @ t_verb want @ [CHR 0x0A]
      else kubeletConfig)"

definition new_config :: "Kubelet \<Rightarrow> kubeletConfiguration \<Rightarrow> bytes \<Rightarrow> bytes" where
  "new_config k kc kubeletConfig =
     set_switch ''serverTLSBootstrap'' (ServerTLSBootstrap kc) (enableKubeletServerCertRotation k)
       (set_switch ''rotateCertificates'' (RotateCertificates kc) (enableKubeletClientCertRotation k)
          kubeletConfig)"

definition updateVarLibKubeletConfigYaml ::
  "'e kubelet_env_scheme \<Rightarrow> Kubelet \<Rightarrow> string \<Rightarrow> string \<Rightarrow> host \<Rightarrow> go_error option \<times> host" where
  "updateVarLibKubeletConfigYaml env k oldFilepath newFilepath h =
     (case ReadFile env oldFilepath h of
        (Inl err, h) \<Rightarrow> (Some err, h)
      | (Inr kubeletConfig, h) \<Rightarrow>
          (case yaml_Unmarshal env kubeletConfig of
             Inl err \<Rightarrow> (Some err, h)
           | Inr kc \<Rightarrow>
               (case Stat env oldFilepath h of
                  (Inl err, h) \<Rightarrow> (Some err, h)
                | (Inr m, h) \<Rightarrow> WriteFile env newFilepath (new_config k kc kubeletConfig) m h)))"

record action =
  action_check :: "Kubelet \<Rightarrow> string \<Rightarrow> host \<Rightarrow> (go_error + bool) \<times> host"
  action_update :: "Kubelet \<Rightarrow> string \<Rightarrow> string \<Rightarrow> host \<Rightarrow> go_error option \<times> host"

definition configs :: "'e kubelet_env_scheme \<Rightarrow> (string \<times> action) list" where
  "configs env =
     [(''/etc/kubernetes/kubelet.conf'',
         \<lparr>action_check = checkEtcKubernetesKubeletConf env,
          action_update = updateEtcKubernetesKubeletConf env\<rparr>),
      (''/var/lib/kubelet/config.yaml'',
         \<lparr>action_check = checkVarLibKubeletConfigYaml env,
          action_update = updateVarLibKubeletConfigYaml env\<rparr>)]"

subsection \<open>kubelet.go\<close>

fun check_loop ::
  "'e kubelet_env_scheme \<Rightarrow> Kubelet \<Rightarrow> string list \<Rightarrow> string list \<Rightarrow> go_error option \<Rightarrow> host
     \<Rightarrow> (string list \<times> go_error option) \<times> host" where
  "check_loop env k [] configsToBeUpdate errs h = ((configsToBeUpdate, errs), h)"
| "check_loop env k (filepath # paths) configsToBeUpdate errs h =
     (case map_of (configs env) filepath of
        None \<Rightarrow> check_loop env k paths configsToBeUpdate errs h
      | Some act \<Rightarrow>
          (case action_check act k filepath h of
             (Inl err, h) \<Rightarrow> check_loop env k paths configsToBeUpdate (Some (Errorf ''%w; '' err)) h
           | (Inr toUpdate, h) \<Rightarrow>
               check_loop env k paths
                 (if toUpdate then configsToBeUpdate @ [filepath] else configsToBeUpdate) errs h))"

definition CheckConfig ::
  "'e kubelet_env_scheme \<Rightarrow> Kubelet \<Rightarrow> host \<Rightarrow> (string list \<times> go_error option) \<times> host" where
  "CheckConfig env k h = check_loop env k (range_keys env h (map fst (configs env))) [] None h"

text \<open>The loop of \<open>UpdateConfig\<close>: \<open>Inl\<close> is its early return, \<open>Inr\<close> the errors collected.\<close>

fun update_loop ::
  "'e kubelet_env_scheme \<Rightarrow> Kubelet \<Rightarrow> string list \<Rightarrow> go_error option \<Rightarrow> host
     \<Rightarrow> (go_error + go_error option) \<times> host" where
  "update_loop env k [] errs h = (Inr errs, h)"
| "update_loop env k (configToBeUpdate # paths) errs h =
     (case map_of (configs env) configToBeUpdate of
        None \<Rightarrow> (Inl (Error (''map key '' @ configToBeUpdate @ '' does not exist'')), h)
      | Some act \<Rightarrow>
          (case action_update act k configToBeUpdate configToBeUpdate h of
             (Some err, h) \<Rightarrow> update_loop env k paths (Some (Errorf ''%w; '' err)) h
           | (None, h) \<Rightarrow> update_loop env k paths errs h))"

definition UpdateConfig :: "'e kubelet_env_scheme \<Rightarrow> Kubelet \<Rightarrow> string list \<Rightarrow> host \<Rightarrow> go_error option \<times> host" where
  "UpdateConfig env k configsToBeUpdate h =
     (case update_loop env k configsToBeUpdate None h of
        (Inl err, h) \<Rightarrow> (Some err, h)
      | (Inr (Some errs), h) \<Rightarrow> (Some errs, h)
      | (Inr None, h) \<Rightarrow>
          (case RestartKubelet env (kubelet_nodeName k) h of
             (Some err, h) \<Rightarrow> (Some (Errorf ''%w; '' err), h)
           | (None, h) \<Rightarrow> (None, h)))"

subsection \<open>The text of config.yaml, line by line\<close>

definition switch_line :: "string \<Rightarrow> bool \<Rightarrow> string" where
  "switch_line key b = key @ '': '' @ t_verb b"


definition lower_char :: "char \<Rightarrow> char" where
  "lower_char c = (let n = of_char c :: int in if 65 \<le> n \<and> n \<le> 90 then char_of (n + 32) else c)"

definition mentions :: "string \<Rightarrow> string \<Rightarrow> bool" where
  "mentions key l \<longleftrightarrow> Contains (map lower_char l) (map lower_char key)"

text \<open>The switch occurs on at most one line, written the way the code writes it.\<close>

definition one_switch :: "string \<Rightarrow> string list \<Rightarrow> bool" where
  "one_switch key ls \<longleftrightarrow>
     list_all (\<lambda>l. mentions key l \<longrightarrow> l = switch_line key True \<or> l = switch_line key False) ls \<and>
     length (filter (mentions key) ls) \<le> 1"

lemma mentions_if_Contains: "Contains l (key @ '':'') \<Longrightarrow> mentions key l"
proof -
  assume "Contains l (key @ '':'')"
  moreover have "Contains (key @ '':'') key" using Contains_append [of "[]" key "'':''"] by simp
  ultimately show ?thesis unfolding mentions_def by (blast intro: Contains_map Contains_trans)
qed

lemma switch_line_Contains [simp]: "Contains (switch_line key b) (key @ '':'')"
  using Contains_append [of "[]" "key @ '':''" "'' '' @ t_verb b"] by (simp add: switch_line_def)

lemma mentions_iff_Contains:
  "one_switch key ls \<Longrightarrow> l \<in> set ls \<Longrightarrow> mentions key l \<longleftrightarrow> Contains l (key @ '':'')"
  unfolding one_switch_def list_all_iff by (metis mentions_if_Contains switch_line_Contains)






lemma switch_line_eq [simp]: "switch_line key b = switch_line key c \<longleftrightarrow> b = c"
  by (auto simp: switch_line_def t_verb_def split: if_splits)



subsection \<open>Documents the code can edit\<close>

abbreviation rotate_key :: string where "rotate_key \<equiv> ''rotateCertificates''"
abbreviation server_key :: string where "server_key \<equiv> ''serverTLSBootstrap''"

definition yaml_char :: "char \<Rightarrow> bool" where
  "yaml_char c \<longleftrightarrow> (let n = of_char c :: int in
     65 \<le> n \<and> n \<le> 90 \<or> 97 \<le> n \<and> n \<le> 122 \<or> 48 \<le> n \<and> n \<le> 57 \<or> c \<in> set '' ./-_:%#,+=()@;~'')"

definition yaml_safe :: "string \<Rightarrow> bool" where
  "yaml_safe l \<longleftrightarrow>
     (let quotes = length (filter (\<lambda>c. c = CHR 0x22) l)
      in list_all (\<lambda>c. yaml_char c \<or> c = CHR 0x22) l \<and> (quotes = 0 \<or> quotes = 2 \<and> last l = CHR 0x22)) \<and>
     \<not> HasPrefix l ''---'' \<and> \<not> HasPrefix l ''...'' \<and> \<not> HasPrefix l ''%''"

definition starts_letter :: "string \<Rightarrow> bool" where
  "starts_letter l \<longleftrightarrow> l \<noteq> [] \<and> (let n = of_char (hd l) :: int in 65 \<le> n \<and> n \<le> 90 \<or> 97 \<le> n \<and> n \<le> 122)"

definition yaml_shape :: "string list \<Rightarrow> bool" where
  "yaml_shape ls \<longleftrightarrow> list_all yaml_safe ls \<and> (ls = [] \<or> starts_letter (hd ls))"

text \<open>
  The documents: block style, with comments and with double quotes around the end of a line, but without
  other quoting, flow collections, block scalars, anchors or tags; the first
  line starts in column 0 with a letter, so the document is a block mapping at column 0; and the two
  switches, each on at most one line of its own, spelled as the code writes it. The configurations under
  pkg/pki/conf/kubelet/tests are such documents (\<open>kubelet_yaml\<close> below).
\<close>

definition config_lines :: "string list \<Rightarrow> bool" where
  "config_lines ls \<longleftrightarrow>
     one_switch rotate_key ls \<and> one_switch server_key ls \<and> yaml_shape ls"

definition reads :: "string list \<Rightarrow> kubeletConfiguration" where
  "reads ls = \<lparr>RotateCertificates = (switch_line rotate_key True \<in> set ls),
               ServerTLSBootstrap = (switch_line server_key True \<in> set ls)\<rparr>"







subsection \<open>Updating config.yaml\<close>












definition no_faults :: "'e kubelet_env_scheme \<Rightarrow> string \<Rightarrow> bool" where
  "no_faults env path \<longleftrightarrow>
     (\<forall>h. os_read_fault env h path = None) \<and> (\<forall>h data. os_write_fault env h path data = None)"



subsection \<open>Examples\<close>

text \<open>A library that reads YAML line by line, and writes one kubeconfig.\<close>

definition sample_kubelet :: Kubelet where
  "sample_kubelet = Kubelet_New ''node'' True True"

definition embedded_user :: AuthInfo where
  "embedded_user = \<lparr>ClientCertificate = '''', ClientCertificateData = ''cert'', ClientKey = '''',
     ClientKeyData = ''key'', AuthInfo_rest = ''''\<rparr>"

definition sample_kubeconfig :: kubeconfig where
  "sample_kubeconfig = \<lparr>AuthInfos = [(''node'', embedded_user)], kubeconfig_rest = ''clusters''\<rparr>"

definition updated_kubeconfig :: kubeconfig where
  "updated_kubeconfig = \<lparr>AuthInfos = [(''node'', refer_to_pem embedded_user)], kubeconfig_rest = ''clusters''\<rparr>"

definition sample_Load :: "host \<Rightarrow> string \<Rightarrow> go_error + kubeconfig" where
  "sample_Load h path =
     (case files h path of
        None \<Rightarrow> Inl (Error ''no such file or directory'')
      | Some f \<Rightarrow> if content f = ''updated'' then Inr updated_kubeconfig
                  else if content f = ''embedded'' then Inr sample_kubeconfig
                  else Inl (Error ''cannot decode''))"

definition sample_Write :: "host \<Rightarrow> kubeconfig \<Rightarrow> string \<Rightarrow> go_error option \<times> filesystem" where
  "sample_Write h cfg path =
     (if cfg = updated_kubeconfig then (None, (files h)(path \<mapsto> \<lparr>content = ''updated'', mode = 384\<rparr>))
      else if cfg = sample_kubeconfig then (None, (files h)(path \<mapsto> \<lparr>content = ''embedded'', mode = 384\<rparr>))
      else (Some (Error ''cannot encode''), files h))"

definition sample_kubelet_env :: kubelet_env where
  "sample_kubelet_env = host_env.extend quiet_env
     (kubelet_env.fields sample_Load sample_Write (\<lambda>b. Inr (reads (butlast (Split CHR 0x0A b)))))"

lemma sample_kubelet_env_simps:
  "yaml_Unmarshal sample_kubelet_env b = Inr (reads (butlast (Split CHR 0x0A b)))"
  "clientcmd_LoadFromFile sample_kubelet_env = sample_Load"
  "clientcmd_WriteToFile sample_kubelet_env = sample_Write"
  "os_read_fault sample_kubelet_env h path = None" "os_write_fault sample_kubelet_env h path data = None"
  by (simp_all add: sample_kubelet_env_def quiet_env_def host_env.defs kubelet_env.defs)





lemma sample_no_faults: "no_faults sample_kubelet_env path"
  by (simp add: no_faults_def sample_kubelet_env_simps)

definition sample_config :: "string list" where
  "sample_config = [''apiVersion: kubelet.config.k8s.io/v1beta1'', ''rotateCertificates: false'', ''kind: KubeletConfiguration'']"

lemma sample_config_ok: "config_lines sample_config"
  by code_simp








subsection \<open>Updating kubelet.conf\<close>


lemma refer_to_pem_no_data [simp]: "\<not> has_data (refer_to_pem a)"
  by (simp add: refer_to_pem_def has_data_def)





subsection \<open>Where the text edit falls short\<close>

text \<open>
  Claim C33. When a switch has to be changed and its key is there, but not spelled exactly the way the code
  writes it (two blanks after the colon, quotes, another boolean literal), the text edit finds nothing to replace:
  if that is so for each switch that has to be changed, one of the two or both, then the update reports
  success and leaves every file as it was, and the next check asks for the same update again.
\<close>

theorem unusual_spelling_never_settles:
  assumes "no_faults env path" and "files h path = Some f"
    and "yaml_Unmarshal env (content f) = Inr kc"
    and "RotateCertificates kc \<noteq> enableKubeletClientCertRotation k \<or> ServerTLSBootstrap kc \<noteq> enableKubeletServerCertRotation k"
    and "RotateCertificates kc \<noteq> enableKubeletClientCertRotation k \<Longrightarrow>
      Contains (content f) (rotate_key @ '':'') \<and> \<not> Contains (content f) (switch_line rotate_key (RotateCertificates kc))"
    and "ServerTLSBootstrap kc \<noteq> enableKubeletServerCertRotation k \<Longrightarrow>
      Contains (content f) (server_key @ '':'') \<and> \<not> Contains (content f) (switch_line server_key (ServerTLSBootstrap kc))"
  shows "\<exists>h1 h2. updateVarLibKubeletConfigYaml env k path path h = (None, h1) \<and> files h1 = files h \<and>
           checkVarLibKubeletConfigYaml env k path h1 = (Inr True, h2)"
proof -
  have "set_switch rotate_key (RotateCertificates kc) (enableKubeletClientCertRotation k) (content f) = content f"
    "set_switch server_key (ServerTLSBootstrap kc) (enableKubeletServerCertRotation k) (content f) = content f"
    using assms(5,6) unfolding set_switch_def switch_line_def by (auto simp: Replace1_absent)
  then have same: "new_config k kc (content f) = content f" by (simp add: new_config_def)
  then obtain h1 where "updateVarLibKubeletConfigYaml env k path path h = (None, h1)"
    and files: "files h1 = files h"
    using assms(1-3)
    by (cases f) (auto simp: updateVarLibKubeletConfigYaml_def ReadFile_def Stat_def WriteFile_def
        no_faults_def fun_upd_idem)
  moreover have "\<exists>h2. checkVarLibKubeletConfigYaml env k path h1 = (Inr True, h2)"
    using assms(1-4) files by (auto simp: checkVarLibKubeletConfigYaml_def ReadFile_def no_faults_def)
  ultimately show ?thesis by blast
qed

text \<open>Both switches with two blanks after the colon.\<close>

definition unusual_config :: "string list" where
  "unusual_config = [''rotateCertificates:  false'', ''serverTLSBootstrap:  false'']"

theorem unusual_spelling_never_settles_witness:
  "\<exists>h1 h2. updateVarLibKubeletConfigYaml sample_kubelet_env sample_kubelet ''/config.yaml'' ''/config.yaml''
       \<lparr>files = [''/config.yaml'' \<mapsto> \<lparr>content = doc unusual_config, mode = 420\<rparr>], log = []\<rparr> = (None, h1) \<and>
     checkVarLibKubeletConfigYaml sample_kubelet_env sample_kubelet ''/config.yaml'' h1 = (Inr True, h2)"
proof -
  let ?f = "\<lparr>content = doc unusual_config, mode = 420\<rparr>"
  have y: "yaml_Unmarshal sample_kubelet_env (content ?f) = Inr \<lparr>RotateCertificates = False, ServerTLSBootstrap = False\<rparr>"
    unfolding sample_kubelet_env_simps by code_simp
  have c: "Contains (content ?f) (rotate_key @ '':'')" "\<not> Contains (content ?f) (switch_line rotate_key False)"
    "Contains (content ?f) (server_key @ '':'')" "\<not> Contains (content ?f) (switch_line server_key False)"
    by code_simp+
  show ?thesis
    using unusual_spelling_never_settles [OF sample_no_faults _ y, of
        "\<lparr>files = [''/config.yaml'' \<mapsto> ?f], log = []\<rparr>" "''/config.yaml''" sample_kubelet] c
    by (auto simp: sample_kubelet_def Kubelet_New_def)
qed

text \<open>
  A file whose last line lacks the final newline is damaged: when the switch is absent it is appended to
  that last line instead of getting a line of its own.
\<close>

lemma missing_newline_glues_lines:
  assumes "RotateCertificates kc \<noteq> enableKubeletClientCertRotation k"
    and "ServerTLSBootstrap kc = enableKubeletServerCertRotation k"
    and "\<not> Contains (doc ls @ l) (rotate_key @ '':'')"
  shows "new_config k kc (doc ls @ l) = doc (ls @ [l @ switch_line rotate_key (enableKubeletClientCertRotation k)])"
  using assms by (simp add: new_config_def set_switch_def switch_line_def)

end
