(* ===== verification/Node.thy ===== *)
theory Node
  imports Kubeadm Kubelet_Conf
begin

text \<open>
  The interfaces \<open>cert.Certificate\<close> and \<open>conf.Config\<close> (pkg/pki/cert/certificate.go,
  pkg/pki/conf/conf.go) as locales, with what the daemon relies on as their laws; their
  implementations \<open>Kubeadm\<close>, \<open>Null\<close> and \<open>Kubelet\<close> as interpretations; and pkg/pki/node/node.go,
  which combines one of each.
\<close>

text \<open>Events that only look, and events that stay on the node (no lock, no cordon, no drain).\<close>

fun query_event :: "event \<Rightarrow> bool" where
  "query_event (EvNow _) = True"
| "query_event (EvReadFile _ _) = True"
| "query_event (EvLoadKubeconfig _ _) = True"
| "query_event (EvOutput args _) = (args = version_args \<or> (\<exists>b. args = certs_args b [''check-expiration'']))"
| "query_event _ = False"

fun local_event :: "event \<Rightarrow> bool" where
  "local_event (EvCordonOrUncordon _ _ _) = False"
| "local_event (EvNodeDrain _ _) = False"
| "local_event (EvLockTest _ _) = False"
| "local_event (EvLockAcquire _ _) = False"
| "local_event (EvLockRelease _) = False"
| "local_event _ = True"

text \<open>What the handling of the kubelet's configuration does, and the part of it that only looks.\<close>

fun config_event :: "event \<Rightarrow> bool" where
  "config_event (EvReadFile _ _) = True"
| "config_event (EvStat _ _) = True"
| "config_event (EvWriteFile _ _ _) = True"
| "config_event (EvLoadKubeconfig _ _) = True"
| "config_event (EvWriteKubeconfig _ _) = True"
| "config_event (EvRun args _) = (args = restart_args)"
| "config_event _ = False"

lemma config_is_local: "config_event e \<Longrightarrow> local_event e"
  by (cases e) auto

lemma query_is_local: "query_event e \<Longrightarrow> local_event e"
  by (cases e) auto

subsection \<open>The interfaces\<close>

locale certificate_interface =
  fixes check_expiration :: "host \<Rightarrow> (string list \<times> go_error option) outcome \<times> host"
    and rotate :: "string list \<Rightarrow> host \<Rightarrow> go_error option outcome \<times> host"
  assumes check_expiration_queries: "check_expiration h = (r, h') \<Longrightarrow> runs query_event h h'"
    and check_expiration_error: "check_expiration h = (Returned (certs, Some e), h') \<Longrightarrow> certs = []"
    and rotate_local: "rotate certs h = (q, h') \<Longrightarrow> runs local_event h h'"

locale config_interface =
  fixes check_config :: "host \<Rightarrow> (string list \<times> go_error option) \<times> host"
    and update_config :: "string list \<Rightarrow> host \<Rightarrow> go_error option \<times> host"
    and managed :: "string list"
  assumes check_config_queries: "check_config h = (r, h') \<Longrightarrow> runs query_event h h' \<and> files h' = files h"
    and check_config_managed: "check_config h = ((paths, errs), h') \<Longrightarrow> set paths \<subseteq> set managed"
    and update_config_local: "update_config paths h = (err, h') \<Longrightarrow> runs local_event h h'"

subsection \<open>kubeadm and null implement the certificate interface\<close>

lemma check_expiry_loop_queries:
  "check_expiry_loop d (Clock_Now env) kv certs acc h = (res, h') \<Longrightarrow> runs query_event h h'"
proof (induction certs arbitrary: acc h)
  case (Cons cert certs)
  show ?case
  proof (cases "map_of kv cert")
    case None
    then show ?thesis using Cons by auto
  next
    case (Some t)
    have step: "checkCertificateExpiry cert t d (Clock_Now env) h =
        (due t (os_now env h) d, emit (EvNow (os_now env h)) h)"
      by (simp add: checkCertificateExpiry_due Clock_Now_eq)
    have "runs query_event (emit (EvNow (os_now env h)) h) h'"
      using Cons Some step by (auto split: if_splits)
    then show ?thesis by (rule runs_trans [rotated]) simp
  qed
qed simp

lemma Kubeadm_check_queries:
  assumes "Kubeadm_CheckExpiration env (Kubeadm_New env node d) h = (r, h')"
  shows "runs query_event h h'"
proof -
  have version: "Cmd_Output env version_cmd h = (res, h1) \<Longrightarrow> runs query_event h h1" for res h h1
    by (auto simp: Cmd_Output_kubeadm split: prod.splits)
  have check: "Cmd_Output env (certs_cmd b [''check-expiration'']) h = (res, h1) \<Longrightarrow> runs query_event h h1"
    for b res h h1 by (auto simp: Cmd_Output_kubeadm split: prod.splits)
  from assms show ?thesis
    unfolding Kubeadm_CheckExpiration_def Kubeadm_New_def kubeadmAlphaCertsCheckExpiration_def
    by (auto simp: Let_def split: prod.splits sum.splits outcome.splits
        dest!: version check check_expiry_loop_queries intro: runs_trans)
qed

lemma Kubeadm_check_error:
  "Kubeadm_CheckExpiration env k h = (Returned (certs, Some e), h') \<Longrightarrow> certs = []"
  unfolding Kubeadm_CheckExpiration_def kubeadmAlphaCertsCheckExpiration_def
  by (auto simp: Let_def split: prod.splits sum.splits outcome.splits)

lemma cert_block_local: "cert_block env c es r \<Longrightarrow> list_all local_event es"
  by (erule cert_blockE) auto

lemma loop_trace_local: "loop_trace env cs errs es r \<Longrightarrow> list_all local_event es"
  by (induction rule: loop_trace.induct) (auto dest: cert_block_local)

lemma Kubeadm_rotate_local:
  "Kubeadm_Rotate env k cs h = (r, h') \<Longrightarrow> runs local_event h h'"
  unfolding runs_def by (drule Kubeadm_Rotate_log) (auto dest: loop_trace_local)

interpretation kubeadm_certs: certificate_interface
  "Kubeadm_CheckExpiration env (Kubeadm_New env node d)" "Kubeadm_Rotate env (Kubeadm_New env node d)"
  for env :: "'e host_env_scheme" and node d
  by unfold_locales (auto dest: Kubeadm_check_queries Kubeadm_check_error Kubeadm_rotate_local)

interpretation null_certs: certificate_interface
  "Null_CheckExpiration (Null_New node d)" "Null_Rotate (Null_New node d)" for node d
  by unfold_locales (auto simp: Null_CheckExpiration_def Null_Rotate_def)

subsection \<open>The kubelet implements the configuration interface\<close>

lemma check_actions_query:
  assumes "map_of (configs env) path = Some act" "action_check act k p h = (r, h')"
  shows "runs (\<lambda>e. query_event e \<and> config_event e) h h' \<and> files h' = files h"
  using assms
  by (auto simp: configs_def checkEtcKubernetesKubeletConf_def checkVarLibKubeletConfigYaml_def
      LoadFromFile_def ReadFile_def Let_def split: if_splits prod.splits sum.splits option.splits)

lemma update_actions_config:
  assumes "map_of (configs env) path = Some act" "action_update act k p q h = (r, h')"
  shows "runs config_event h h'"
  using assms
  by (auto simp: configs_def updateEtcKubernetesKubeletConf_def updateVarLibKubeletConfigYaml_def
      LoadFromFile_def WriteToFile_def ReadFile_def Stat_def WriteFile_def Let_def runs_def
      split: if_splits prod.splits sum.splits option.splits)

lemma check_loop_spec:
  assumes "check_loop env k paths acc errs h = ((res, errs'), h')"
  shows "runs (\<lambda>e. query_event e \<and> config_event e) h h' \<and> files h' = files h \<and>
    (\<exists>ps. res = acc @ ps \<and> set ps \<subseteq> set (map fst (configs env)) \<inter> set paths)"
  using assms
proof (induction paths arbitrary: acc errs h)
  case (Cons p paths)
  show ?case
  proof (cases "map_of (configs env) p")
    case None
    then show ?thesis using Cons by fastforce
  next
    case (Some act)
    obtain r h1 where check: "action_check act k p h = (r, h1)" by fastforce
    have q: "runs (\<lambda>e. query_event e \<and> config_event e) h h1" "files h1 = files h" using check_actions_query [OF Some check] by auto
    have known: "p \<in> set (map fst (configs env))" using Some by (force dest: map_of_SomeD)
    obtain acc' errs1 where step: "check_loop env k paths acc' errs1 h1 = ((res, errs'), h')"
      "acc' = acc \<or> acc' = acc @ [p]"
      using Cons.prems Some check by (cases r) (auto split: if_splits)
    from Cons.IH [OF step(1)] q known step(2) show ?thesis by (auto intro: runs_trans)
  qed
qed simp

lemma update_loop_config:
  "update_loop env k paths errs h = (r, h') \<Longrightarrow> runs config_event h h'"
proof (induction paths arbitrary: errs h)
  case (Cons p paths)
  show ?case
  proof (cases "map_of (configs env) p")
    case None
    then show ?thesis using Cons by auto
  next
    case (Some act)
    obtain e h1 where upd: "action_update act k p p h = (e, h1)" by fastforce
    have "runs config_event h h1" using update_actions_config [OF Some upd] .
    moreover have "runs config_event h1 h'" using Cons Some upd by (cases e) auto
    ultimately show ?thesis by (rule runs_trans)
  qed
qed simp

lemma UpdateConfig_config:
  assumes "UpdateConfig env k paths h = (err, h')"
  shows "runs config_event h h'"
proof -
  obtain r h1 where loop: "update_loop env k paths None h = (r, h1)" by fastforce
  have "runs config_event h h1" using update_loop_config [OF loop] .
  moreover have "runs config_event h1 h'"
    using assms loop
    by (auto simp: UpdateConfig_def RestartKubelet_def Cmd_Run_def NewCommand_def restart_args_def split: prod.splits sum.splits option.splits)
  ultimately show ?thesis by (rule runs_trans)
qed

lemma CheckConfig_config:
  assumes "CheckConfig env k h = ((paths, errs), h')"
  shows "runs (\<lambda>e. query_event e \<and> config_event e) h h'" "files h' = files h"
    "set paths \<subseteq> set (map fst (configs env))"
  using check_loop_spec [OF assms [unfolded CheckConfig_def]] by auto

definition managed_files :: "string list" where
  "managed_files = [''/etc/kubernetes/kubelet.conf'', ''/var/lib/kubelet/config.yaml'']"

lemma managed_configs: "map fst (configs env) = managed_files"
  by (simp add: configs_def managed_files_def)

interpretation kubelet_config: config_interface
  "CheckConfig env (Kubelet_New node client server)" "UpdateConfig env (Kubelet_New node client server)" managed_files
  for env :: "'e kubelet_env_scheme" and node client server
proof
  fix h h' :: host and r
  assume "CheckConfig env (Kubelet_New node client server) h = (r, h')"
  then show "runs query_event h h' \<and> files h' = files h"
    by (cases r) (blast dest: CheckConfig_config intro: runs_mono)
next
  fix h h' :: host and paths errs
  assume "CheckConfig env (Kubelet_New node client server) h = ((paths, errs), h')"
  then show "set paths \<subseteq> set managed_files"
    using CheckConfig_config(3) managed_configs by metis
next
  fix h h' :: host and paths err
  assume "UpdateConfig env (Kubelet_New node client server) paths h = (err, h')"
  then show "runs local_event h h'" by (blast intro: runs_mono UpdateConfig_config config_is_local)
qed

subsection \<open>node.go\<close>

text \<open>Values of the two Go interfaces: their methods, bound to a receiver.\<close>

record conf_Config =
  conf_CheckConfig :: "host \<Rightarrow> (string list \<times> go_error option) \<times> host"
  conf_UpdateConfig :: "string list \<Rightarrow> host \<Rightarrow> go_error option \<times> host"

record cert_Certificate =
  cert_CheckExpiration :: "host \<Rightarrow> (string list \<times> go_error option) outcome \<times> host"
  cert_Rotate :: "string list \<Rightarrow> host \<Rightarrow> go_error option outcome \<times> host"

abbreviation Kubelet_Config :: "'e kubelet_env_scheme \<Rightarrow> Kubelet \<Rightarrow> conf_Config" where
  "Kubelet_Config env k \<equiv> \<lparr>conf_CheckConfig = CheckConfig env k, conf_UpdateConfig = UpdateConfig env k\<rparr>"

abbreviation Kubeadm_Certificate :: "'e host_env_scheme \<Rightarrow> Kubeadm \<Rightarrow> cert_Certificate" where
  "Kubeadm_Certificate env k \<equiv>
     \<lparr>cert_CheckExpiration = Kubeadm_CheckExpiration env k, cert_Rotate = Kubeadm_Rotate env k\<rparr>"

abbreviation Null_Certificate :: "Null \<Rightarrow> cert_Certificate" where
  "Null_Certificate n \<equiv> \<lparr>cert_CheckExpiration = Null_CheckExpiration n, cert_Rotate = Null_Rotate n\<rparr>"

text \<open>The struct embeds both interfaces, whose methods are promoted to it.\<close>

record Node =
  node_Config :: conf_Config
  node_Certificate :: cert_Certificate

abbreviation "node_CheckConfig nd \<equiv> conf_CheckConfig (node_Config nd)"
abbreviation "node_UpdateConfig nd \<equiv> conf_UpdateConfig (node_Config nd)"
abbreviation "node_CheckExpiration nd \<equiv> cert_CheckExpiration (node_Certificate nd)"
abbreviation "node_Rotate nd \<equiv> cert_Rotate (node_Certificate nd)"

definition Node_New :: "'e kubelet_env_scheme \<Rightarrow> bool \<Rightarrow> string \<Rightarrow> duration \<Rightarrow> bool \<Rightarrow> bool \<Rightarrow> Node" where
  "Node_New env isControlPlane name d client server =
     (if isControlPlane
      then \<lparr>node_Config = Kubelet_Config env (Kubelet_New name client server),
            node_Certificate = Kubeadm_Certificate env (Kubeadm_New env name d)\<rparr>
      else \<lparr>node_Config = Kubelet_Config env (Kubelet_New name client server),
            node_Certificate = Null_Certificate (Null_New name d)\<rparr>)"

locale node_interface =
  certificate_interface "node_CheckExpiration nd" "node_Rotate nd" +
  config_interface "node_CheckConfig nd" "node_UpdateConfig nd" managed_files for nd :: Node

interpretation node_new: node_interface "Node_New env isControlPlane name d client server"
  for env :: "'e kubelet_env_scheme" and isControlPlane name d client server
proof (cases isControlPlane)
  case True
  then show "node_interface (Node_New env isControlPlane name d client server)"
    by (simp add: node_interface_def Node_New_def Let_def kubelet_config.config_interface_axioms
        kubeadm_certs.certificate_interface_axioms)
next
  case False
  then show "node_interface (Node_New env isControlPlane name d client server)"
    by (simp add: node_interface_def Node_New_def Let_def kubelet_config.config_interface_axioms
        null_certs.certificate_interface_axioms)
qed

end
