(* ===== verification/Config_Settles.thy ===== *)
theory Config_Settles
  imports Node
begin


subsection \<open>The two files\<close>

abbreviation "kubelet_conf_path \<equiv> ''/etc/kubernetes/kubelet.conf''"
abbreviation "config_yaml_path \<equiv> ''/var/lib/kubelet/config.yaml''"














subsection \<open>The loops\<close>











subsection \<open>A check, an update, a check\<close>















end
