(* ===== verification/Flags.thy ===== *)
theory Flags
  imports Go_Time
begin

text \<open>
  The command line flags of kucero (cmd/kucero/main.go): the package variables they are stored
  in, and their defaults as \<open>main\<close> declares them. Parsing the command line is the library
  cobra; what it leaves in the variables is an arbitrary record of this type.
\<close>

record flags =
  apiServerHost :: string
  kubeconfigPath :: string
  pollingPeriod :: duration
  flag_expiryTimeToRotate :: duration
  flag_duration :: duration
  dsNamespace :: string
  dsName :: string
  lockAnnotation :: string
  enableKubeletCSRController :: bool
  metricsAddr :: string
  leaderElectionID :: string
  caCertPath :: string
  caKeyPath :: string
  flag_enableKubeletClientCertRotation :: bool
  flag_enableKubeletServerCertRotation :: bool

definition default_flags :: flags where
  "default_flags = \<lparr>
     apiServerHost = '''',
     kubeconfigPath = '''',
     pollingPeriod = time_Hour,
     flag_expiryTimeToRotate = time_Hour * 24 * 30,
     flag_duration = time_Hour * 24 * 365,
     dsNamespace = ''kube-system'',
     dsName = ''kucero'',
     lockAnnotation = ''caasp.suse.com/kucero-node-lock'',
     enableKubeletCSRController = True,
     metricsAddr = '':8080'',
     leaderElectionID = ''kucero-leader-election'',
     caCertPath = ''/etc/kubernetes/pki/ca.crt'',
     caKeyPath = ''/etc/kubernetes/pki/ca.key'',
     flag_enableKubeletClientCertRotation = True,
     flag_enableKubeletServerCertRotation = True\<rparr>"

lemma default_durations [simp]:
  "sint (pollingPeriod default_flags) = 3600 * 1000000000"
  "sint (flag_expiryTimeToRotate default_flags) = 2592000 * 1000000000"
  "sint (flag_duration default_flags) = 31536000 * 1000000000"
  by (simp_all add: default_flags_def time_Hour_def time_Minute_def time_Second_def)

end
