(* ===== verification/Daemon.thy ===== *)
theory Daemon
  imports Node Flags
begin

text \<open>
  The daemon: cmd/kucero/lock.go and the certificate loop of cmd/kucero/main.go. The lock is
  \<open>daemonsetlock\<close> of weaveworks/kured, a parameter: its answers are arbitrary, and it may write
  the metadata it is given. The signals that wake the loop (a tick of \<open>time.Tick\<close> or a
  termination signal) are a list, in the order the loop receives them.

  \<open>int(pollingPeriod.Seconds())\<close> is computed in floating point; up to 2^22 seconds (48 days) it is
  the integer quotient, which is what \<open>Seconds_int\<close> computes.
\<close>

record nodeMeta =
  Unschedulable :: bool

record daemon_env = kubelet_env +
  lock_Test :: "host \<Rightarrow> nodeMeta \<Rightarrow> (bool \<times> go_error option) \<times> nodeMeta"
  lock_Acquire :: "host \<Rightarrow> nodeMeta \<Rightarrow> duration \<Rightarrow> (bool \<times> string \<times> go_error option) \<times> nodeMeta"
  lock_Release :: "host \<Rightarrow> go_error option"

subsection \<open>lock.go\<close>

definition holding :: "'e daemon_env_scheme \<Rightarrow> nodeMeta \<Rightarrow> host \<Rightarrow> bool \<times> nodeMeta \<times> host" where
  "holding env metadata h =
     (let ((held, err), metadata) = lock_Test env h metadata
      in (held, metadata, emit (EvLockTest held err) h))"

text \<open>The time to live of the lock.\<close>

definition lock_ttl :: duration where
  "lock_ttl = time_Minute"

definition acquire :: "'e daemon_env_scheme \<Rightarrow> nodeMeta \<Rightarrow> host \<Rightarrow> bool \<times> nodeMeta \<times> host" where
  "acquire env metadata h =
     (let ((held, holder, err), metadata) = lock_Acquire env h metadata lock_ttl;
          h = emit (EvLockAcquire held err) h
      in if err \<noteq> None then (False, metadata, h)
         else if \<not> held then (False, metadata, h)
         else (True, metadata, h))"

definition release :: "'e daemon_env_scheme \<Rightarrow> host \<Rightarrow> host" where
  "release env h = (let err = lock_Release env h in emit (EvLockRelease err) h)"

subsection \<open>One turn of the loop\<close>

text \<open>What is done while the lock is held; a panic of the rotation ends it on the spot.\<close>

definition rotate_under_lock ::
  "'e daemon_env_scheme \<Rightarrow> Node \<Rightarrow> string \<Rightarrow> nodeMeta \<Rightarrow> string list \<Rightarrow> string list \<Rightarrow> host \<Rightarrow> unit outcome \<times> host" where
  "rotate_under_lock env certNode node meta configsToBeUpdate expiryCerts h =
     (let h = (if \<not> Unschedulable meta
               then snd (Drain env node (snd (Cordon env node h))) else h);
          h = (if 0 < length configsToBeUpdate then snd (node_UpdateConfig certNode configsToBeUpdate h) else h)
      in case (if 0 < length expiryCerts then node_Rotate certNode expiryCerts h else (Returned None, h)) of
           (Panicked m, h) \<Rightarrow> (Panicked m, h)
         | (Returned err, h) \<Rightarrow>
             (let h = (if \<not> Unschedulable meta then snd (Uncordon env node h) else h)
              in (Returned (), release env h)))"

definition tick ::
  "'e daemon_env_scheme \<Rightarrow> Node \<Rightarrow> string \<Rightarrow> nodeMeta \<Rightarrow> host \<Rightarrow> unit outcome \<times> nodeMeta \<times> host" where
  "tick env certNode node meta h =
     (case node_CheckConfig certNode h of
        ((configsToBeUpdate, err), h) \<Rightarrow>
          (case node_CheckExpiration certNode h of
             (Panicked m, h) \<Rightarrow> (Panicked m, meta, h)
           | (Returned (expiryCerts, err), h) \<Rightarrow>
               if 0 < length configsToBeUpdate \<or> 0 < length expiryCerts then
                 (case acquire env meta h of
                    (False, meta, h) \<Rightarrow> (Returned (), meta, h)
                  | (True, meta, h) \<Rightarrow>
                      (let (r, h) = rotate_under_lock env certNode node meta configsToBeUpdate expiryCerts h
                       in (r, meta, h)))
               else (Returned (), meta, h)))"

datatype wakeup = Quit | Tick

fun certificate_loop ::
  "'e daemon_env_scheme \<Rightarrow> Node \<Rightarrow> string \<Rightarrow> nodeMeta \<Rightarrow> wakeup list \<Rightarrow> host \<Rightarrow> unit outcome \<times> host" where
  "certificate_loop env certNode node meta [] h = (Returned (), h)"
| "certificate_loop env certNode node meta (Quit # ws) h = (Returned (), h)"
| "certificate_loop env certNode node meta (Tick # ws) h =
     (case tick env certNode node meta h of
        (Panicked m, meta, h) \<Rightarrow> (Panicked m, h)
      | (Returned _, meta, h) \<Rightarrow> certificate_loop env certNode node meta ws h)"

subsection \<open>Start of the daemon\<close>

text \<open>A lock that an earlier run of the daemon on this node has left is released.\<close>

definition start_lock :: "'e daemon_env_scheme \<Rightarrow> host \<Rightarrow> nodeMeta \<times> host" where
  "start_lock env h =
     (let (held, meta, h) = holding env \<lparr>Unschedulable = False\<rparr> h
      in (meta, if held then release env h else h))"

text \<open>
  The main goroutine; the goroutine of the controller, which \<open>rotateCertificateWhenNeeded\<close> starts
  before its loop, shares no state with it (theory \<open>Process\<close>).
\<close>

definition rotateCertificateWhenNeeded ::
  "'e daemon_env_scheme \<Rightarrow> flags \<Rightarrow> string \<Rightarrow> bool \<Rightarrow> wakeup list \<Rightarrow> host \<Rightarrow> unit outcome \<times> host" where
  "rotateCertificateWhenNeeded env fl node isControlPlaneNode wakeups h =
     (let certNode = Node_New env isControlPlaneNode node (flag_expiryTimeToRotate fl)
            (flag_enableKubeletClientCertRotation fl) (flag_enableKubeletServerCertRotation fl);
          (meta, h) = start_lock env h
      in certificate_loop env certNode node meta wakeups h)"

definition Seconds_int :: "duration \<Rightarrow> int" where
  "Seconds_int d = (if 0 \<le> sint d then sint d div 1000000000 else - ((- sint d) div 1000000000))"

text \<open>\<open>rand.Intn\<close>: panics unless its argument is positive; \<open>random\<close> is the raw draw.\<close>

definition rand_Intn :: "nat \<Rightarrow> int \<Rightarrow> int outcome" where
  "rand_Intn random n = (if n \<le> 0 then Panicked ''invalid argument to Intn'' else Returned (int random mod n))"

definition shift_pollingPeriod :: "nat \<Rightarrow> duration \<Rightarrow> duration outcome" where
  "shift_pollingPeriod random period =
     (case rand_Intn random (Seconds_int period) of
        Panicked m \<Rightarrow> Panicked m
      | Returned extra \<Rightarrow> Returned (period + word_of_int extra * time_Second))"

subsection \<open>Every change is made under the lock\<close>

text \<open>
  Reading the log from the left with the flag "lock held": an answer to an attempt to acquire
  the lock sets the flag, a release clears it, and everything that is not a query needs it.
\<close>

fun lock_free :: "event \<Rightarrow> bool" where
  "lock_free (EvLockTest _ _) = True"
| "lock_free (EvLockAcquire _ _) = True"
| "lock_free (EvLockRelease _) = True"
| "lock_free e = query_event e"

fun held_after :: "bool \<Rightarrow> event list \<Rightarrow> bool" where
  "held_after held [] = held"
| "held_after held (EvLockAcquire b err # es) = held_after (b \<and> err = None) es"
| "held_after held (EvLockRelease err # es) = held_after False es"
| "held_after held (e # es) = held_after held es"

fun disciplined :: "bool \<Rightarrow> event list \<Rightarrow> bool" where
  "disciplined held [] = True"
| "disciplined held (e # es) = ((held \<or> lock_free e) \<and> disciplined (held_after held [e]) es)"

lemma held_after_append [simp]: "held_after held (xs @ ys) = held_after (held_after held xs) ys"
  by (induction held xs rule: held_after.induct) auto

lemma disciplined_append [simp]:
  "disciplined held (xs @ ys) \<longleftrightarrow> disciplined held xs \<and> disciplined (held_after held xs) ys"
proof (induction xs arbitrary: held)
  case (Cons x xs)
  have "held_after held (x # xs) = held_after (held_after held [x]) xs"
    using held_after_append [of held "[x]" xs] by simp
  with Cons show ?case by simp
qed simp

lemma local_keeps_held: "list_all local_event es \<Longrightarrow> held_after held es = held"
proof (induction es)
  case (Cons e es)
  then show ?case by (cases e) auto
qed simp

lemma disciplined_held: "list_all local_event es \<Longrightarrow> disciplined True es"
proof (induction es)
  case (Cons e es)
  then show ?case using local_keeps_held [of "[e]" True] by simp
qed simp

lemma query_lock_free: "query_event e \<Longrightarrow> lock_free e"
  by (cases e) auto

lemma disciplined_queries: "list_all query_event es \<Longrightarrow> disciplined held es \<and> held_after held es = held"
proof (induction es arbitrary: held)
  case (Cons e es)
  then have "held_after held [e] = held" using local_keeps_held [of "[e]" held] by (simp add: query_is_local)
  with Cons show ?case
    using held_after_append [of held "[e]" es] by (simp add: query_lock_free)
qed simp

text \<open>The phases of a turn as events.\<close>

definition section_events :: "nodeMeta \<Rightarrow> string \<Rightarrow> event list \<Rightarrow> event list \<Rightarrow> bool" where
  "section_events meta node work es \<longleftrightarrow>
     list_all local_event work \<and>
     (if Unschedulable meta
      then \<exists>e. es = work @ [EvLockRelease e]
      else \<exists>c d u e. es = [EvCordonOrUncordon node True c, EvNodeDrain node d] @ work @
                        [EvCordonOrUncordon node False u, EvLockRelease e])"

definition section_crashed :: "nodeMeta \<Rightarrow> string \<Rightarrow> event list \<Rightarrow> event list \<Rightarrow> bool" where
  "section_crashed meta node work es \<longleftrightarrow>
     list_all local_event work \<and>
     (if Unschedulable meta then es = work
      else \<exists>c d. es = [EvCordonOrUncordon node True c, EvNodeDrain node d] @ work)"

lemma cordon_logs:
  "\<exists>c. snd (Cordon env node h) = emit (EvCordonOrUncordon node True c) h"
  "\<exists>d. snd (Drain env node h) = emit (EvNodeDrain node d) h"
  "\<exists>u. snd (Uncordon env node h) = emit (EvCordonOrUncordon node False u) h"
  "\<exists>e. release env' h = emit (EvLockRelease e) h"
  by (auto simp: Cordon_def Drain_def Uncordon_def release_def Let_def)

context node_interface
begin

lemma work_under_lock:
  assumes "h1 = (if 0 < length cs then snd (node_UpdateConfig nd cs h) else h)"
    and "(r, h2) = (if 0 < length certs then node_Rotate nd certs h1 else (Returned None, h1))"
  shows "\<exists>es. log h2 = log h @ es \<and> list_all local_event es"
proof -
  have "runs local_event h h1"
    using assms(1) update_config_local [of cs h "fst (node_UpdateConfig nd cs h)"] by (auto simp: prod_eq_iff)
  moreover have "runs local_event h1 h2"
    using assms(2) rotate_local [of certs h1 r h2] by (auto split: if_splits)
  ultimately have "runs local_event h h2" by (rule runs_trans)
  then show ?thesis by (simp add: runs_def)
qed

lemma rotate_under_lock_events:
  assumes "rotate_under_lock env nd node meta cs certs h = (r, h')"
  shows "\<exists>work es. log h' = log h @ es \<and>
    (case r of Returned _ \<Rightarrow> section_events meta node work es | Panicked m \<Rightarrow> section_crashed meta node work es)"
proof -
  define h0 where "h0 = (if \<not> Unschedulable meta then snd (Drain env node (snd (Cordon env node h))) else h)"
  define h1 where "h1 = (if 0 < length cs then snd (node_UpdateConfig nd cs h0) else h0)"
  obtain q h2 where q: "(q, h2) = (if 0 < length certs then node_Rotate nd certs h1 else (Returned None, h1))"
    by (metis surj_pair)
  obtain work where work: "log h2 = log h0 @ work" "list_all local_event work"
    using work_under_lock [OF h1_def q] by blast
  obtain c d where h0: "log h0 = log h @ (if Unschedulable meta then [] else
      [EvCordonOrUncordon node True c, EvNodeDrain node d])"
    using cordon_logs(1) [of env node h] cordon_logs(2) [of env node "snd (Cordon env node h)"]
    by (cases "Unschedulable meta") (auto simp: h0_def)
  have body: "rotate_under_lock env nd node meta cs certs h =
      (case q of Panicked m \<Rightarrow> (Panicked m, h2)
       | Returned err \<Rightarrow> (Returned (), release env (if \<not> Unschedulable meta then snd (Uncordon env node h2) else h2)))"
    unfolding rotate_under_lock_def Let_def h0_def [symmetric] h1_def [symmetric] q [symmetric]
    by (cases q) simp_all
  show ?thesis
  proof (cases q)
    case (Panicked m)
    with body assms work h0 show ?thesis
      by (intro exI [of _ work] exI [of _ "(if Unschedulable meta then [] else
            [EvCordonOrUncordon node True c, EvNodeDrain node d]) @ work"])
         (auto simp: section_crashed_def)
  next
    case (Returned err)
    obtain u where u: "snd (Uncordon env node h2) = emit (EvCordonOrUncordon node False u) h2"
      using cordon_logs(3) by blast
    obtain e where e: "h' = emit (EvLockRelease e) (if \<not> Unschedulable meta then snd (Uncordon env node h2) else h2)"
      and "r = Returned ()"
      using Returned body assms cordon_logs(4) [of env] by auto
    with work h0 u show ?thesis
      by (intro exI [of _ work] exI [of _ "(if Unschedulable meta then [] else
            [EvCordonOrUncordon node True c, EvNodeDrain node d]) @ work @
            (if Unschedulable meta then [] else [EvCordonOrUncordon node False u]) @ [EvLockRelease e]"])
         (auto simp: section_events_def)
  qed
qed

lemma tick_events:
  assumes "tick env nd node meta h = (r, meta', h')"
  shows "\<exists>qs es. log h' = log h @ qs @ es \<and> list_all query_event qs \<and>
    (es = [] \<or>
     (\<exists>b err. es = [EvLockAcquire b err] \<and> r = Returned () \<and> \<not> (b \<and> err = None)) \<or>
     (\<exists>work rest. es = EvLockAcquire True None # rest \<and>
        (case r of Returned _ \<Rightarrow> section_events meta' node work rest
                 | Panicked m \<Rightarrow> section_crashed meta' node work rest)))"
proof -
  obtain cs err h1 where conf: "node_CheckConfig nd h = ((cs, err), h1)" by (metis surj_pair)
  obtain q h2 where exp: "node_CheckExpiration nd h1 = (q, h2)" by (metis surj_pair)
  have "runs query_event h h2"
    using check_config_queries [OF conf] check_expiration_queries [OF exp] runs_trans by blast
  then obtain qs where qs: "log h2 = log h @ qs" "list_all query_event qs" by (auto simp: runs_def)
  show ?thesis
  proof (cases q)
    case (Panicked m)
    then show ?thesis using assms conf exp qs by (auto simp: tick_def)
  next
    case (Returned p)
    obtain certs err' where p: "p = (certs, err')" by (cases p)
    show ?thesis
    proof (cases "0 < length cs \<or> 0 < length certs")
      case False
      then show ?thesis using assms conf exp qs Returned p by (auto simp: tick_def)
    next
      case True
      obtain b holder e meta1 where acq: "lock_Acquire env h2 meta lock_ttl = ((b, holder, e), meta1)"
        by (metis surj_pair)
      let ?h3 = "emit (EvLockAcquire b e) h2"
      show ?thesis
      proof (cases "b \<and> e = None")
        case False
        then have "r = Returned ()" "h' = ?h3"
          using assms conf exp Returned p True acq
          by (auto simp: tick_def acquire_def Let_def split: if_splits)
        with False qs show ?thesis by (intro exI [of _ qs] exI [of _ "[EvLockAcquire b e]"]) auto
      next
        case held: True
        then have sect: "rotate_under_lock env nd node meta' cs certs ?h3 = (r, h')"
          using assms conf exp Returned p True acq
          by (auto simp: tick_def acquire_def Let_def split: prod.splits)
        obtain work es where es: "log h' = log ?h3 @ es"
          "case r of Returned _ \<Rightarrow> section_events meta' node work es | Panicked m \<Rightarrow> section_crashed meta' node work es"
          using rotate_under_lock_events [OF sect] by blast
        then have "log h' = log h @ qs @ EvLockAcquire True None # es" using qs held by simp
        with es(2) qs(2) show ?thesis by blast
      qed
    qed
  qed
qed

end

lemma section_disciplined:
  "section_events meta node work es \<Longrightarrow> disciplined True es \<and> \<not> held_after True es"
  by (auto simp: section_events_def local_keeps_held disciplined_held split: if_splits)

lemma crash_disciplined: "section_crashed meta node work es \<Longrightarrow> disciplined True es"
  by (auto simp: section_crashed_def local_keeps_held disciplined_held split: if_splits)

lemma tick_shape_disciplined:
  assumes "list_all query_event qs"
    and "es = [] \<or> (\<exists>b err. es = [EvLockAcquire b err] \<and> r = Returned () \<and> \<not> (b \<and> err = None)) \<or>
     (\<exists>work rest. es = EvLockAcquire True None # rest \<and>
        (case r of Returned _ \<Rightarrow> section_events meta' node work rest
                 | Panicked m \<Rightarrow> section_crashed meta' node work rest))"
  shows "disciplined False (qs @ es)" "r = Returned () \<Longrightarrow> \<not> held_after False (qs @ es)"
proof -
  have q: "disciplined False qs" "held_after False qs = False"
    using disciplined_queries [OF assms(1)] by blast+
  from assms(2) q show "disciplined False (qs @ es)"
    by (cases r) (auto dest: section_disciplined crash_disciplined)
  from assms(2) q show "r = Returned () \<Longrightarrow> \<not> held_after False (qs @ es)"
    by (auto dest: section_disciplined)
qed

context node_interface
begin

lemma tick_disciplined:
  assumes "tick env nd node meta h = (r, meta', h')"
  shows "\<exists>es. log h' = log h @ es \<and> disciplined False es \<and> (r = Returned () \<longrightarrow> \<not> held_after False es)"
  using tick_events [OF assms] tick_shape_disciplined by metis

lemma certificate_loop_disciplined:
  assumes "certificate_loop env nd node meta ws h = (r, h')"
  shows "\<exists>es. log h' = log h @ es \<and> disciplined False es \<and> (r = Returned () \<longrightarrow> \<not> held_after False es)"
  using assms
proof (induction ws arbitrary: meta h)
  case (Cons w ws)
  show ?case
  proof (cases w)
    case Quit
    then show ?thesis using Cons.prems by (intro exI [of _ "[]"]) simp
  next
    case Tick
    obtain q meta1 h1 where step: "tick env nd node meta h = (q, meta1, h1)" by (metis surj_pair)
    obtain es where es: "log h1 = log h @ es" "disciplined False es" "q = Returned () \<longrightarrow> \<not> held_after False es"
      using tick_disciplined [OF step] by blast
    show ?thesis
    proof (cases q)
      case (Panicked m)
      then show ?thesis using Cons.prems Tick step es by auto
    next
      case (Returned u)
      then have "certificate_loop env nd node meta1 ws h1 = (r, h')" using Cons.prems Tick step by simp
      then obtain es' where "log h' = log h1 @ es'" "disciplined False es'" "r = Returned () \<longrightarrow> \<not> held_after False es'"
        using Cons.IH by blast
      with es Returned show ?thesis by (intro exI [of _ "es @ es'"]) auto
    qed
  qed
qed simp

end

lemma start_lock_log:
  assumes "start_lock env h = (meta, h')"
  shows "\<exists>held err e. log h' = log h @ EvLockTest held err # (if held then [EvLockRelease e] else [])"
proof -
  obtain held err meta1 where test: "lock_Test env h \<lparr>Unschedulable = False\<rparr> = ((held, err), meta1)"
    by (metis surj_pair)
  obtain e where "release env (emit (EvLockTest held err) h) = emit (EvLockRelease e) (emit (EvLockTest held err) h)"
    using cordon_logs(4) by blast
  with assms test show ?thesis
    by (intro exI [of _ held] exI [of _ err] exI [of _ e]) (auto simp: start_lock_def holding_def Let_def)
qed

lemma daemon_disciplined:
  assumes "rotateCertificateWhenNeeded env fl node cp ws h = (r, h')"
  shows "\<exists>es. log h' = log h @ es \<and> disciplined False es \<and> (r = Returned () \<longrightarrow> \<not> held_after False es)"
proof -
  let ?nd = "Node_New env cp node (flag_expiryTimeToRotate fl)
    (flag_enableKubeletClientCertRotation fl) (flag_enableKubeletServerCertRotation fl)"
  obtain meta h1 where start: "start_lock env h = (meta, h1)" by (metis surj_pair)
  have "certificate_loop env ?nd node meta ws h1 = (r, h')"
    using assms start by (simp add: rotateCertificateWhenNeeded_def)
  then obtain es where es: "log h' = log h1 @ es" "disciplined False es" "r = Returned () \<longrightarrow> \<not> held_after False es"
    using node_new.certificate_loop_disciplined by blast
  obtain held err e where "log h1 = log h @ EvLockTest held err # (if held then [EvLockRelease e] else [])"
    using start_lock_log [OF start] by blast
  with es show ?thesis
    by (intro exI [of _ "(EvLockTest held err # (if held then [EvLockRelease e] else [])) @ es"]) auto
qed

subsection \<open>Worker nodes\<close>

fun off_kubeadm :: "event \<Rightarrow> bool" where
  "off_kubeadm (EvRun args _) = (''/usr/bin/kubeadm'' \<notin> set args)"
| "off_kubeadm (EvOutput args _) = (''/usr/bin/kubeadm'' \<notin> set args)"
| "off_kubeadm _ = True"

lemma config_off_kubeadm: "config_event e \<Longrightarrow> off_kubeadm e"
  by (cases e) (auto simp: restart_args_def nsenter_def)

lemma worker_fields:
  "node_CheckConfig (Node_New env False name d c s) = CheckConfig env (Kubelet_New name c s)"
  "node_UpdateConfig (Node_New env False name d c s) = UpdateConfig env (Kubelet_New name c s)"
  "node_CheckExpiration (Node_New env False name d c s) h = (Returned ([], None), h)"
  "node_Rotate (Node_New env False name d c s) certs h = (Returned None, h)"
  by (simp_all add: Node_New_def Null_CheckExpiration_def Null_Rotate_def Let_def)

lemma runs_step: "\<exists>e. h' = emit e h \<and> P e \<Longrightarrow> runs P h h'"
  by auto

lemma runs_cordon:
  "runs off_kubeadm h (snd (Cordon env node h))" "runs off_kubeadm h (snd (Drain env node h))"
  "runs off_kubeadm h (snd (Uncordon env node h))" "runs off_kubeadm h (release env' h)"
  using cordon_logs(1) [of env node h] cordon_logs(2) [of env node h] cordon_logs(3) [of env node h]
    cordon_logs(4) [of env' h]
  by (auto intro!: runs_step)

lemma runs_update: "runs off_kubeadm h (snd (UpdateConfig env k cs h))"
  using UpdateConfig_config [of env k cs h] config_off_kubeadm by (metis prod.collapse runs_mono)

lemma worker_section:
  assumes "rotate_under_lock env (Node_New env False name d c s) node meta cs [] h = (r, h')"
  shows "r = Returned () \<and> runs off_kubeadm h h'"
proof -
  define h0 where "h0 = (if \<not> Unschedulable meta then snd (Drain env node (snd (Cordon env node h))) else h)"
  define h1 where "h1 = (if 0 < length cs then snd (UpdateConfig env (Kubelet_New name c s) cs h0) else h0)"
  define h2 where "h2 = (if \<not> Unschedulable meta then snd (Uncordon env node h1) else h1)"
  have "r = Returned ()" "h' = release env h2"
    using assms unfolding rotate_under_lock_def worker_fields
    by (simp_all add: Let_def h0_def h1_def h2_def split: if_splits)
  moreover have "runs off_kubeadm h h0" by (auto simp: h0_def intro: runs_trans [OF runs_cordon(1) runs_cordon(2)])
  moreover have "runs off_kubeadm h0 h1" "runs off_kubeadm h1 h2"
    by (auto simp: h1_def h2_def intro: runs_cordon(3) runs_update)
  ultimately show ?thesis using runs_cordon(4) runs_trans by metis
qed

lemma worker_tick:
  assumes "tick env (Node_New env False name d c s) node meta h = (r, meta', h')"
  shows "r = Returned () \<and> runs off_kubeadm h h'"
proof -
  obtain cs err h1 where conf: "CheckConfig env (Kubelet_New name c s) h = ((cs, err), h1)" by (metis surj_pair)
  have q: "runs off_kubeadm h h1"
    using CheckConfig_config(1) [OF conf] by (rule runs_mono) (simp add: config_off_kubeadm)
  obtain b holder e meta1 where acq: "lock_Acquire env h1 meta lock_ttl = ((b, holder, e), meta1)"
    by (metis surj_pair)
  let ?h2 = "emit (EvLockAcquire b e) h1"
  have q2: "runs off_kubeadm h ?h2" using q by (rule runs_then_emit) simp
  consider "r = Returned ()" "h' = h1" | "r = Returned ()" "h' = ?h2"
    | "rotate_under_lock env (Node_New env False name d c s) node meta1 cs [] ?h2 = (r, h')"
    using assms conf acq unfolding tick_def worker_fields
    by (auto simp: acquire_def Let_def worker_fields split: if_splits prod.splits)
  then show ?thesis
  proof cases
    case 3
    then show ?thesis using worker_section q2 runs_trans by blast
  qed (use q q2 in auto)
qed

subsection \<open>The polling period\<close>

lemma Seconds_int_bounds:
  assumes "sint time_Second \<le> sint period"
  shows "1 \<le> Seconds_int period" "Seconds_int period * 1000000000 \<le> sint period"
proof -
  have p: "1000000000 \<le> sint period" using assms by simp
  then show "1 \<le> Seconds_int period"
    using zdiv_mono1 [of 1000000000 "sint period" 1000000000] by (simp add: Seconds_int_def)
  have "sint period div 1000000000 * 1000000000 \<le> sint period"
    using div_mult_mod_eq [of "sint period" 1000000000] pos_mod_sign [of 1000000000 "sint period"] by linarith
  with p show "Seconds_int period * 1000000000 \<le> sint period" by (simp add: Seconds_int_def)
qed


text \<open>
  For a configured period between one second and 48 days the shifted period is at least
  the configured one and less than twice as long, and the arithmetic on 64-bit durations does not wrap.
\<close>

lemma shift_pollingPeriod_range:
  assumes "sint time_Second \<le> sint period" and "sint period \<le> 2 ^ 22 * sint time_Second"
  shows "\<exists>p extra. shift_pollingPeriod random period = Returned p \<and> 0 \<le> extra \<and>
           sint p = sint period + extra * sint time_Second \<and> sint period \<le> sint p \<and> sint p < 2 * sint period"
proof -
  define n where "n = Seconds_int period"
  have n: "1 \<le> n" "n * 1000000000 \<le> sint period"
    using Seconds_int_bounds [OF assms(1)] by (simp_all add: n_def)
  define extra where "extra = int random mod n"
  have extra: "0 \<le> extra" "extra < n" using n(1) by (simp_all add: extra_def)
  have small: "extra * 1000000000 < sint period" using extra(2) n(2) by linarith
  have "period + word_of_int extra * time_Second = word_of_int (sint period + extra * 1000000000)"
    by (simp add: time_Second_def)
  also have "sint (word_of_int (sint period + extra * 1000000000) :: duration) = sint period + extra * 1000000000"
    using small assms extra(1) by (intro sint64_of_int) simp_all
  finally have sum: "sint (period + word_of_int extra * time_Second) = sint period + extra * 1000000000" .
  have "shift_pollingPeriod random period = Returned (period + word_of_int extra * time_Second)"
    using n(1) by (simp add: shift_pollingPeriod_def rand_Intn_def n_def extra_def)
  with sum small extra(1) show ?thesis by (intro exI [of _ "period + word_of_int extra * time_Second"] exI [of _ extra]) simp
qed

lemma short_pollingPeriod:
  assumes "sint period < sint time_Second"
  shows "\<exists>m. shift_pollingPeriod random period = Panicked m"
proof -
  have "Seconds_int period \<le> 0"
    using assms by (auto simp: Seconds_int_def intro: div_nonneg_neg_le0)
  then show ?thesis by (simp add: shift_pollingPeriod_def rand_Intn_def)
qed

text \<open>
  Claim C38. The polling period the daemon runs with, for a configured period of at most 48 days: one below
  one second, which the flag accepts, crashes the daemon at start, as \<open>rand.Intn\<close> is called with zero or a
  negative number; any other is lengthened by a whole number of seconds to less than twice its length, and the 64-bit
  arithmetic does not wrap.
\<close>

theorem shift_pollingPeriod_correct:
  assumes "sint period \<le> 2 ^ 22 * sint time_Second"
  shows "case shift_pollingPeriod random period of
      Panicked m \<Rightarrow> sint period < sint time_Second
    | Returned p \<Rightarrow> sint time_Second \<le> sint period \<and>
        (\<exists>extra \<ge> 0. sint p = sint period + extra * sint time_Second \<and> sint p < 2 * sint period)"
proof (cases "sint period < sint time_Second")
  case True
  then show ?thesis using short_pollingPeriod [OF True, of random] by auto
next
  case False
  then have "sint time_Second \<le> sint period" by simp
  with shift_pollingPeriod_range [OF this assms, of random] show ?thesis by auto
qed

theorem shift_pollingPeriod_correct_witness:
  "\<exists>extra p. shift_pollingPeriod 5000 time_Hour = Returned p \<and>
     sint p = sint time_Hour + extra * sint time_Second \<and> sint p < 2 * sint time_Hour"
proof -
  have hour: "sint time_Hour = 3600 * sint time_Second"
    by (simp add: time_Hour_def time_Minute_def time_Second_def)
  then have "sint time_Hour \<le> 2 ^ 22 * sint time_Second" by simp
  from shift_pollingPeriod_correct [OF this, of 5000] show ?thesis
    by (cases "shift_pollingPeriod 5000 time_Hour") (auto simp: hour)
qed

subsection \<open>Properties of the daemon\<close>

text \<open>A lock that is always free and a worker node whose configuration needs an update.\<close>

definition sample_daemon_env :: daemon_env where
  "sample_daemon_env = kubelet_env.extend sample_kubelet_env
     (daemon_env.fields (\<lambda>h meta. ((False, None), meta)) (\<lambda>h meta ttl. ((True, ''node'', None), meta)) (\<lambda>h. None))"

definition sample_worker :: host where
  "sample_worker = \<lparr>files = [''/var/lib/kubelet/config.yaml'' \<mapsto> \<lparr>content = doc sample_config, mode = 420\<rparr>], log = []\<rparr>"

text \<open>
  Claim C11. What one turn of the loop does, when it ends normally: first only queries; then
  nothing more when nothing is due; or one attempt to take the lock that fails, and nothing
  more; or the lock is taken and the turn is bracketed: cordon and drain, work on the node
  only, uncordon, and the release of the lock as its last action (without cordon, drain and
  uncordon when the lock's metadata says the node was unschedulable).
\<close>

theorem tick_is_bracketed:
  assumes "tick env (Node_New env isControlPlane name d client server) node meta h = (Returned (), meta', h')"
  shows "\<exists>qs es. events_between h h' = qs @ es \<and> list_all query_event qs \<and>
    (es = [] \<or>
     (\<exists>b err. es = [EvLockAcquire b err] \<and> \<not> (b \<and> err = None)) \<or>
     (\<exists>work rest. es = EvLockAcquire True None # rest \<and> section_events meta' node work rest))"
proof -
  obtain qs es where es: "log h' = log h @ qs @ es" "list_all query_event qs"
    "es = [] \<or> (\<exists>b err. es = [EvLockAcquire b err] \<and> \<not> (b \<and> err = None)) \<or>
     (\<exists>work rest. es = EvLockAcquire True None # rest \<and> section_events meta' node work rest)"
    using node_new.tick_events [OF assms] unfolding outcome.case by blast
  moreover from es(1) have "events_between h h' = qs @ es" by (simp add: events_between_def)
  ultimately show ?thesis by blast
qed

theorem tick_is_bracketed_witness:
  "\<exists>h' qs es. events_between sample_worker h' = qs @ es \<and> list_all query_event qs \<and>
    (es = [] \<or>
     (\<exists>b err. es = [EvLockAcquire b err] \<and> \<not> (b \<and> err = None)) \<or>
     (\<exists>meta' work rest. es = EvLockAcquire True None # rest \<and> section_events meta' ''node'' work rest))"
proof -
  obtain r meta' h' where run: "tick sample_daemon_env (Node_New sample_daemon_env False ''node'' thirty_days True True)
      ''node'' \<lparr>Unschedulable = False\<rparr> sample_worker = (r, meta', h')" by (metis surj_pair)
  then have "r = Returned ()" using worker_tick by blast
  with run have "tick sample_daemon_env (Node_New sample_daemon_env False ''node'' thirty_days True True)
      ''node'' \<lparr>Unschedulable = False\<rparr> sample_worker = (Returned (), meta', h')" by simp
  from tick_is_bracketed [OF this] show ?thesis by blast
qed

text \<open>
  Claim C35. A turn that panics while the lock is held (kubeadm's version cannot be parsed
  when a certificate is renewed) leaves the node cordoned and drained and the lock taken: no
  uncordon and no release follow the acquisition.
\<close>

theorem panicking_tick_leaves_lock:
  assumes "tick env (Node_New env isControlPlane name d client server) node meta h = (Panicked m, meta', h')"
    and "EvLockAcquire True None \<in> set (events_between h h')"
  shows "held_after False (events_between h h') \<and>
    (\<forall>u. EvCordonOrUncordon node False u \<notin> set (events_between h h')) \<and>
    (\<not> Unschedulable meta' \<longrightarrow> (\<exists>c. EvCordonOrUncordon node True c \<in> set (events_between h h')))"
proof -
  obtain qs es where es: "log h' = log h @ qs @ es" "list_all query_event qs"
    and shape: "es = [] \<or> (\<exists>work rest. es = EvLockAcquire True None # rest \<and> section_crashed meta' node work rest)"
    using node_new.tick_events [OF assms(1)] unfolding outcome.case by blast
  have ev: "events_between h h' = qs @ es" using es(1) by (simp add: events_between_def)
  have "e \<notin> set qs" if "\<not> query_event e" for e using that es(2) by (auto simp: list_all_iff)
  then have absent: "EvLockAcquire True None \<notin> set qs" "\<And>u. EvCordonOrUncordon node False u \<notin> set qs" by simp_all
  then obtain work rest where rest: "es = EvLockAcquire True None # rest" "section_crashed meta' node work rest"
    using shape assms(2) ev by auto
  then have "\<And>u. EvCordonOrUncordon node False u \<notin> set work" "held_after True work"
    using local_keeps_held [of work True] by (auto simp: section_crashed_def list_all_iff)
  with rest absent show ?thesis unfolding ev by (auto simp: section_crashed_def split: if_splits)
qed

text \<open>A control-plane node whose kubeadm reports a broken version once the node is drained.\<close>

definition drained :: "host \<Rightarrow> bool" where
  "drained h \<longleftrightarrow> list_ex (\<lambda>e. case e of EvNodeDrain _ _ \<Rightarrow> True | _ \<Rightarrow> False) (log h)"

definition broken_env :: daemon_env where
  "broken_env = kubelet_env.extend
     (host_env.extend (sample_env\<lparr>os_output := (\<lambda>h args.
          if args = version_args \<and> drained h then (Inr ''broken'', files h) else os_output sample_env h args)\<rparr>)
        (kubelet_env.fields sample_Load sample_Write (\<lambda>b. Inr (reads []))))
     (daemon_env.fields (\<lambda>h meta. ((False, None), meta)) (\<lambda>h meta ttl. ((True, ''node'', None), meta)) (\<lambda>h. None))"

lemma broken_env_simps:
  "os_output broken_env h args = (if args = version_args \<and> drained h then (Inr ''broken'', files h) else os_output sample_env h args)"
  "os_run broken_env = os_run sample_env" "os_now broken_env = os_now sample_env"
  "range_keys broken_env = range_keys sample_env" "os_lookupName broken_env = os_lookupName sample_env"
  "semver_AtLeast broken_env = semver_AtLeast sample_env"
  "os_read_fault broken_env h path = None"
  "clientcmd_LoadFromFile broken_env = sample_Load"
  "lock_Acquire broken_env h meta ttl = ((True, ''node'', None), meta)"
  by (simp_all add: broken_env_def sample_env_def host_env.defs kubelet_env.defs daemon_env.defs)

lemma broken_versions:
  "at_least_1_20 broken_env out = at_least_1_20 sample_env out"
  "at_least_1_20 sample_env ''broken'' = Panicked ''version''"
  by (simp add: at_least_1_20_def broken_env_simps) code_simp

lemma broken_tick:
  "\<exists>h'. tick broken_env (Node_New broken_env True ''node'' thirty_days True True) ''node'' \<lparr>Unschedulable = False\<rparr> sample_host =
     (Panicked ''version'', \<lparr>Unschedulable = False\<rparr>, h') \<and> EvLockAcquire True None \<in> set (events_between sample_host h')"
proof -
  have "certs_args True [''check-expiration''] \<noteq> version_args" by code_simp
  moreover have "map_of certificates ''apiserver'' = Some ''/etc/kubernetes/pki/apiserver.crt''" by code_simp
  ultimately show ?thesis
    by (simp add: tick_def Node_New_def CheckConfig_def configs_def checkEtcKubernetesKubeletConf_def
        checkVarLibKubeletConfigYaml_def LoadFromFile_def ReadFile_def sample_Load_def sample_host_def
        Kubeadm_CheckExpiration_def Kubeadm_New_def kubeadmAlphaCertsCheckExpiration_def
        Cmd_Output_kubeadm sample_commands sample_parse checkCertificateExpiry_due Clock_Now_eq sample_due
        broken_env_simps broken_versions drained_def acquire_def rotate_under_lock_def Cordon_def Drain_def
        Kubeadm_Rotate_def backupCertificate_def rotateCertificate_def kubeadmAlphaCertsRenew_def Cmd_Run_def
        Let_def events_between_def del: append_Cons)
qed

theorem panicking_tick_leaves_lock_witness:
  "\<exists>h'. held_after False (events_between sample_host h') \<and>
     (\<forall>u. EvCordonOrUncordon ''node'' False u \<notin> set (events_between sample_host h')) \<and>
     (\<exists>c. EvCordonOrUncordon ''node'' True c \<in> set (events_between sample_host h'))"
proof -
  obtain h' where run: "tick broken_env (Node_New broken_env True ''node'' thirty_days True True) ''node''
      \<lparr>Unschedulable = False\<rparr> sample_host = (Panicked ''version'', \<lparr>Unschedulable = False\<rparr>, h')"
    "EvLockAcquire True None \<in> set (events_between sample_host h')" using broken_tick by blast
  from panicking_tick_leaves_lock [OF run] show ?thesis by auto
qed

end
