(* ===== verification/Settled_Node.thy ===== *)
theory Settled_Node
  imports Daemon Config_Settles
begin

text \<open>
  Turns that look and do nothing: on a worker node after a turn whose update of the configuration
  succeeded, and on any node whose configuration is settled while none of its certificates is due. And
  turns that disturb the node in vain, for certificates kucero does not manage.
\<close>


















subsection \<open>A control-plane node with nothing due\<close>







context node_interface
begin

text \<open>After its two checks a turn only goes on when one of them found something.\<close>

lemma tick_after_checks:
  assumes "node_CheckConfig nd h = ((cs, e0), h1)" and "node_CheckExpiration nd h1 = (q, h2)"
    and "tick env nd node meta h = (r, meta', h')"
  shows "\<exists>es. log h' = log h2 @ es"
    and "cs = [] \<Longrightarrow> (\<And>certs e. q = Returned (certs, e) \<Longrightarrow> certs = []) \<Longrightarrow> h' = h2 \<and> meta' = meta"
proof -
  obtain b holder e meta1 where acq: "lock_Acquire env h2 meta lock_ttl = ((b, holder, e), meta1)" by (metis surj_pair)
  let ?h3 = "emit (EvLockAcquire b e) h2"
  have "h' = h2 \<or> h' = ?h3 \<or> (\<exists>certs. rotate_under_lock env nd node meta1 cs certs ?h3 = (r, h'))"
    using assms acq
    by (auto simp: tick_def acquire_def Let_def split: if_splits outcome.splits prod.splits)
  moreover have "\<exists>es. log h' = log h2 @ es" if "rotate_under_lock env nd node meta1 cs certs ?h3 = (r, h')" for certs
    using rotate_under_lock_events [OF that] by auto
  ultimately show "\<exists>es. log h' = log h2 @ es" by auto
  show "h' = h2 \<and> meta' = meta" if "cs = []" "\<And>certs e. q = Returned (certs, e) \<Longrightarrow> certs = []"
    using assms that by (cases q) (auto simp: tick_def split: prod.splits)
qed

end




text \<open>A settled control-plane node whose certificates last for eleven days and more.\<close>

definition idle_env :: daemon_env where
  "idle_env = kubelet_env.extend
     (host_env.extend sample_env (kubelet_env.fields sample_Load sample_Write
        (\<lambda>b. Inr (Kubelet_Conf.reads (butlast (Split CHR 0x0A b))))))
     (daemon_env.fields (\<lambda>h meta. ((False, None), meta)) (\<lambda>h meta ttl. ((True, ''node'', None), meta)) (\<lambda>h. None))"

definition idle_host :: host where
  "idle_host = \<lparr>files = [kubelet_conf_path \<mapsto> \<lparr>content = ''updated'', mode = 384\<rparr>,
     config_yaml_path \<mapsto> \<lparr>content = doc sample_config, mode = 420\<rparr>], log = []\<rparr>"




abbreviation "idle_node \<equiv> Node_New idle_env True ''node'' time_Hour False False"



subsection \<open>A due certificate that kucero does not manage\<close>

lemma rotate_loop_unknown:
  "\<forall>c \<in> set certs. map_of certificates c = None \<Longrightarrow> rotate_loop env node certs errs h = (Returned errs, h)"
  by (induction certs) auto

lemma Rotate_unknown:
  assumes "\<forall>c \<in> set certs. map_of certificates c = None"
  shows "\<exists>e e' h'. Kubeadm_Rotate env k certs h = (Returned e', h') \<and> log h' = log h @ [EvRun restart_args e]"
  using rotate_loop_unknown [OF assms, of env "nodeName k" None h]
  by (auto simp: Kubeadm_Rotate_def RestartKubelet_def Cmd_Run_def NewCommand_def restart_args_def emit_def
      split: prod.splits option.splits)

text \<open>
  Claim C32. A due certificate that kucero does not manage disturbs the node for nothing: kubeadm's table also has the certificate
  authorities, which \<open>CheckExpiration\<close> reports like any other certificate, but \<open>Rotate\<close> only knows the ten of
  \<open>certificates\<close>. When only such certificates are due on a control-plane node with a settled
  configuration, a turn that gets the lock cordons and drains the node, restarts the kubelet, uncordons the node and
  releases the lock, and does nothing else: nothing is backed up or renewed, so that the next turn does the same.
\<close>

theorem unmanaged_certificate_disturbs:
  assumes "CheckConfig env (Kubelet_New name client server) h = (([], errs), h1)"
    and "Kubeadm_CheckExpiration env (Kubeadm_New env name d) h1 = (Returned (certs, err), h2)"
    and "certs \<noteq> []" and "\<forall>c \<in> set certs. map_of certificates c = None"
    and "lock_Acquire env h2 meta lock_ttl = ((True, holder, None), meta')" and "\<not> Unschedulable meta'"
  shows "\<exists>h' c n e u x.
    tick env (Node_New env True name d client server) node meta h = (Returned (), meta', h') \<and>
    events_between h2 h' = [EvLockAcquire True None, EvCordonOrUncordon node True c, EvNodeDrain node n,
      EvRun restart_args e, EvCordonOrUncordon node False u, EvLockRelease x]"
proof -
  let ?nd = "Node_New env True name d client server"
  have fields: "node_CheckConfig ?nd = CheckConfig env (Kubelet_New name client server)"
    "node_CheckExpiration ?nd = Kubeadm_CheckExpiration env (Kubeadm_New env name d)"
    "node_Rotate ?nd = Kubeadm_Rotate env (Kubeadm_New env name d)"
    by (simp_all add: Node_New_def Let_def)
  define h3 where "h3 = emit (EvLockAcquire True None) h2"
  obtain c where c: "snd (Cordon env node h3) = emit (EvCordonOrUncordon node True c) h3" using cordon_logs(1) by blast
  obtain n where n: "snd (Drain env node (snd (Cordon env node h3))) = emit (EvNodeDrain node n) (snd (Cordon env node h3))"
    using cordon_logs(2) by blast
  define h4 where "h4 = snd (Drain env node (snd (Cordon env node h3)))"
  obtain e e' h5 where rot: "Kubeadm_Rotate env (Kubeadm_New env name d) certs h4 = (Returned e', h5)"
    and h5: "log h5 = log h4 @ [EvRun restart_args e]"
    using Rotate_unknown [OF assms(4)] by blast
  obtain u where u: "snd (Uncordon env node h5) = emit (EvCordonOrUncordon node False u) h5" using cordon_logs(3) by blast
  obtain x where x: "release env (snd (Uncordon env node h5)) = emit (EvLockRelease x) (snd (Uncordon env node h5))"
    using cordon_logs(4) by blast
  have "rotate_under_lock env ?nd node meta' [] certs h3 = (Returned (), release env (snd (Uncordon env node h5)))"
    using assms(3,6) rot by (simp add: rotate_under_lock_def fields h4_def Let_def)
  then have "tick env ?nd node meta h = (Returned (), meta', release env (snd (Uncordon env node h5)))"
    using assms(1-3,5) by (simp add: tick_def fields acquire_def h3_def Let_def)
  moreover have "events_between h2 (release env (snd (Uncordon env node h5))) =
      [EvLockAcquire True None, EvCordonOrUncordon node True c, EvNodeDrain node n,
       EvRun restart_args e, EvCordonOrUncordon node False u, EvLockRelease x]"
  proof -
    have "log (release env (snd (Uncordon env node h5))) = log h5 @ [EvCordonOrUncordon node False u, EvLockRelease x]"
      unfolding x unfolding u by simp
    moreover have "log h4 = log (snd (Cordon env node h3)) @ [EvNodeDrain node n]"
      unfolding h4_def n by simp
    moreover have "log (snd (Cordon env node h3)) = log h2 @ [EvLockAcquire True None, EvCordonOrUncordon node True c]"
      unfolding c by (simp add: h3_def)
    ultimately show ?thesis using h5 by (simp add: events_between_def)
  qed
  ultimately show ?thesis by blast
qed

text \<open>A settled node on which only the authority of etcd is due.\<close>

definition authority_env :: daemon_env where
  "authority_env = idle_env\<lparr>os_output := (\<lambda>h args. (if args = version_args then Inr (''v1.20.2'' @ [CHR 0x0A])
     else Inr (join_with CHR 0x0A [''CERTIFICATE AUTHORITY   EXPIRES'', ''etcd-ca   Mar 11, 2030 01:51 UTC   9y'']), files h))\<rparr>"

theorem unmanaged_certificate_disturbs_witness:
  "\<exists>h1 h2 h' c n e u x.
    Kubeadm_CheckExpiration authority_env (Kubeadm_New authority_env ''node'' (87600 * time_Hour)) h1 = (Returned ([''etcd-ca''], None), h2) \<and>
    tick authority_env (Node_New authority_env True ''node'' (87600 * time_Hour) False False) ''node'' \<lparr>Unschedulable = False\<rparr> idle_host
      = (Returned (), \<lparr>Unschedulable = False\<rparr>, h') \<and>
    events_between h2 h' = [EvLockAcquire True None, EvCordonOrUncordon ''node'' True c, EvNodeDrain ''node'' n,
      EvRun restart_args e, EvCordonOrUncordon ''node'' False u, EvLockRelease x]"
proof -
  obtain h1 where conf: "CheckConfig authority_env (Kubelet_New ''node'' False False) idle_host = (([], None), h1)"
  proof -
    have "fst (CheckConfig authority_env (Kubelet_New ''node'' False False) idle_host) = ([], None)" by code_simp
    then show thesis using that by (metis prod.collapse)
  qed
  obtain h2 where check: "Kubeadm_CheckExpiration authority_env (Kubeadm_New authority_env ''node'' (87600 * time_Hour)) h1 =
      (Returned ([''etcd-ca''], None), h2)"
  proof -
    have "fst (Kubeadm_CheckExpiration authority_env (Kubeadm_New authority_env ''node'' (87600 * time_Hour))
        (snd (CheckConfig authority_env (Kubelet_New ''node'' False False) idle_host))) = Returned ([''etcd-ca''], None)"
      by code_simp
    then show thesis using that unfolding conf by (metis prod.collapse snd_conv)
  qed
  have acq: "lock_Acquire authority_env h2 \<lparr>Unschedulable = False\<rparr> lock_ttl = ((True, ''node'', None), \<lparr>Unschedulable = False\<rparr>)"
    by (simp add: authority_env_def idle_env_def daemon_env.defs kubelet_env.defs host_env.defs sample_env_def)
  have "map_of certificates ''etcd-ca'' = None" by code_simp
  then obtain h' c n e u x where
    "tick authority_env (Node_New authority_env True ''node'' (87600 * time_Hour) False False) ''node'' \<lparr>Unschedulable = False\<rparr> idle_host
      = (Returned (), \<lparr>Unschedulable = False\<rparr>, h')"
    "events_between h2 h' = [EvLockAcquire True None, EvCordonOrUncordon ''node'' True c, EvNodeDrain ''node'' n,
      EvRun restart_args e, EvCordonOrUncordon ''node'' False u, EvLockRelease x]"
    using unmanaged_certificate_disturbs [OF conf check _ _ acq, of "''node''"] by auto
  with check show ?thesis by blast
qed

end
