(* ===== verification/X509.thy ===== *)
theory X509
  imports Go_Time
begin

text \<open>
  The certificate data kucero handles (\<open>crypto/x509\<close>, \<open>crypto/x509/pkix\<close>) and the
  cryptographic library as a parameter. Keys, IP addresses, URIs and extensions are opaque byte
  strings: kucero only copies them. \<open>x509_lib\<close> holds the library calls themselves; no property
  of the development needs more of them than that they are functions of their arguments.
\<close>

record pkix_Name =
  Organization :: "string list"
  CommonName :: string
  NameRest :: string  \<comment> \<open>the other attributes of the distinguished name\<close>

record x509_CertificateRequest =
  cr_Raw :: bytes
  cr_Subject :: pkix_Name
  cr_DNSNames :: "string list"
  cr_IPAddresses :: "bytes list"
  cr_EmailAddresses :: "string list"
  cr_URIs :: "string list"
  cr_PublicKeyAlgorithm :: int
  cr_PublicKey :: bytes
  cr_Extensions :: "bytes list"
  cr_ExtraExtensions :: "bytes list"

type_synonym x509_KeyUsage = "64 word"
type_synonym x509_ExtKeyUsage = nat

record x509_Certificate =
  crt_SerialNumber :: int
  crt_Subject :: pkix_Name
  crt_DNSNames :: "string list"
  crt_IPAddresses :: "bytes list"
  crt_EmailAddresses :: "string list"
  crt_URIs :: "string list"
  crt_PublicKeyAlgorithm :: int
  crt_PublicKey :: bytes
  crt_Extensions :: "bytes list"
  crt_ExtraExtensions :: "bytes list"
  crt_NotBefore :: time
  crt_NotAfter :: time
  crt_KeyUsage :: x509_KeyUsage
  crt_ExtKeyUsage :: "x509_ExtKeyUsage list"
  crt_BasicConstraintsValid :: bool
  crt_IsCA :: bool

record x509_lib =
  ParseCertificateRequest :: "bytes \<Rightarrow> go_error + x509_CertificateRequest"
  CheckSignature :: "x509_CertificateRequest \<Rightarrow> go_error option"
  CreateCertificate ::
    "x509_Certificate \<Rightarrow> x509_Certificate \<Rightarrow> bytes \<Rightarrow> bytes \<Rightarrow> go_error + bytes"
  pem_Decode :: "bytes \<Rightarrow> (string \<times> bytes) option"
  pem_EncodeToMemory :: "string \<Rightarrow> bytes \<Rightarrow> bytes"

text \<open>The constants of \<open>crypto/x509\<close>: one bit per key usage, one number per extended usage.\<close>

definition KeyUsageDigitalSignature :: x509_KeyUsage where "KeyUsageDigitalSignature = 1"
definition KeyUsageContentCommitment :: x509_KeyUsage where "KeyUsageContentCommitment = 2"
definition KeyUsageKeyEncipherment :: x509_KeyUsage where "KeyUsageKeyEncipherment = 4"
definition KeyUsageDataEncipherment :: x509_KeyUsage where "KeyUsageDataEncipherment = 8"
definition KeyUsageKeyAgreement :: x509_KeyUsage where "KeyUsageKeyAgreement = 16"
definition KeyUsageCertSign :: x509_KeyUsage where "KeyUsageCertSign = 32"
definition KeyUsageCRLSign :: x509_KeyUsage where "KeyUsageCRLSign = 64"
definition KeyUsageEncipherOnly :: x509_KeyUsage where "KeyUsageEncipherOnly = 128"
definition KeyUsageDecipherOnly :: x509_KeyUsage where "KeyUsageDecipherOnly = 256"

lemmas key_usage_bits =
  KeyUsageDigitalSignature_def KeyUsageContentCommitment_def KeyUsageKeyEncipherment_def
  KeyUsageDataEncipherment_def KeyUsageKeyAgreement_def KeyUsageCertSign_def
  KeyUsageCRLSign_def KeyUsageEncipherOnly_def KeyUsageDecipherOnly_def

definition ExtKeyUsageAny :: x509_ExtKeyUsage where "ExtKeyUsageAny = 0"
definition ExtKeyUsageServerAuth :: x509_ExtKeyUsage where "ExtKeyUsageServerAuth = 1"
definition ExtKeyUsageClientAuth :: x509_ExtKeyUsage where "ExtKeyUsageClientAuth = 2"
definition ExtKeyUsageCodeSigning :: x509_ExtKeyUsage where "ExtKeyUsageCodeSigning = 3"
definition ExtKeyUsageEmailProtection :: x509_ExtKeyUsage where "ExtKeyUsageEmailProtection = 4"
definition ExtKeyUsageIPSECEndSystem :: x509_ExtKeyUsage where "ExtKeyUsageIPSECEndSystem = 5"
definition ExtKeyUsageIPSECTunnel :: x509_ExtKeyUsage where "ExtKeyUsageIPSECTunnel = 6"
definition ExtKeyUsageIPSECUser :: x509_ExtKeyUsage where "ExtKeyUsageIPSECUser = 7"
definition ExtKeyUsageTimeStamping :: x509_ExtKeyUsage where "ExtKeyUsageTimeStamping = 8"
definition ExtKeyUsageOCSPSigning :: x509_ExtKeyUsage where "ExtKeyUsageOCSPSigning = 9"
definition ExtKeyUsageMicrosoftServerGatedCrypto :: x509_ExtKeyUsage where
  "ExtKeyUsageMicrosoftServerGatedCrypto = 10"
definition ExtKeyUsageNetscapeServerGatedCrypto :: x509_ExtKeyUsage where
  "ExtKeyUsageNetscapeServerGatedCrypto = 11"

lemmas ext_key_usage_numbers =
  ExtKeyUsageAny_def ExtKeyUsageServerAuth_def ExtKeyUsageClientAuth_def
  ExtKeyUsageCodeSigning_def ExtKeyUsageEmailProtection_def ExtKeyUsageIPSECEndSystem_def
  ExtKeyUsageIPSECTunnel_def ExtKeyUsageIPSECUser_def ExtKeyUsageTimeStamping_def
  ExtKeyUsageOCSPSigning_def ExtKeyUsageMicrosoftServerGatedCrypto_def
  ExtKeyUsageNetscapeServerGatedCrypto_def

text \<open>
  \<open>capi.KeyUsage\<close> is a string type of \<open>k8s.io/api\<close> with named constants: each constant the
  sources name is a constructor, every other string is \<open>OtherUsage\<close>.
\<close>

datatype capi_KeyUsage =
    UsageSigning | UsageDigitalSignature | UsageContentCommitment | UsageKeyEncipherment
  | UsageKeyAgreement | UsageDataEncipherment | UsageCertSign | UsageCRLSign
  | UsageEncipherOnly | UsageDecipherOnly | UsageAny | UsageServerAuth | UsageClientAuth
  | UsageCodeSigning | UsageEmailProtection | UsageSMIME | UsageIPsecEndSystem
  | UsageIPsecTunnel | UsageIPsecUser | UsageTimestamping | UsageOCSPSigning
  | UsageMicrosoftSGC | UsageNetscapeSGC | OtherUsage string

end
