(* ===== verification/Capi.thy ===== *)
theory Capi
  imports X509
begin

text \<open>
  The certificate signing request object of \<open>k8s.io/api/certificates/v1\<close>, with the fields the
  sources read or write. \<open>ExpirationSeconds\<close> is a pointer to an \<open>int32\<close>, \<open>Certificate\<close> a
  byte slice whose \<open>nil\<close> value is \<open>None\<close>.
\<close>

record CertificateSigningRequestSpec =
  spec_Request :: bytes
  spec_ExpirationSeconds :: "32 word option"
  spec_Usages :: "capi_KeyUsage list"
  spec_Username :: string
  spec_UID :: string
  spec_Groups :: "string list"
  spec_Extra :: "(string \<times> string list) list"

datatype RequestConditionType = CertificateApproved | CertificateDenied | CertificateFailed

record CertificateSigningRequestCondition =
  cond_Type :: RequestConditionType
  cond_Status :: bool
  cond_Reason :: string
  cond_Message :: string
  cond_LastUpdateTime :: time

record CertificateSigningRequestStatus =
  status_Conditions :: "CertificateSigningRequestCondition list"
  status_Certificate :: "bytes option"

record CertificateSigningRequest =
  csr_Name :: string
  csr_DeletionTimestamp :: "time option"  \<comment> \<open>\<open>None\<close> exactly when \<open>IsZero()\<close> holds: a nil pointer or the zero time\<close>
  csr_Spec :: CertificateSigningRequestSpec
  csr_Status :: CertificateSigningRequestStatus

end
