(* ===== verification/CSR_Helper.thy ===== *)
theory CSR_Helper
  imports Capi Go_Strings
begin

text \<open>
  \<open>controllers/helper.go\<close> (which requests are kubelet serving certificates) and
  \<open>pkg/pki/cert/parser.go\<close> (decoding a request). \<open>pem.Decode\<close> and
  \<open>x509.ParseCertificateRequest\<close> are calls of the X.509 library parameter.
\<close>

definition ParseCSR :: "x509_lib \<Rightarrow> bytes \<Rightarrow> go_error + x509_CertificateRequest" where
  "ParseCSR lib pemBytes =
     (case pem_Decode lib pemBytes of
        None \<Rightarrow> Inl (Error ''PEM block type must be CERTIFICATE REQUEST'')
      | Some (block_Type, block_Bytes) \<Rightarrow>
          if block_Type \<noteq> ''CERTIFICATE REQUEST''
          then Inl (Error ''PEM block type must be CERTIFICATE REQUEST'')
          else (case ParseCertificateRequest lib block_Bytes of
                  Inl err \<Rightarrow> Inl err
                | Inr csr \<Rightarrow> Inr csr))"

text \<open>The loop over \<open>csr.Spec.Usages\<close> and its early return; the map is used as a set of keys.\<close>

fun all_in_usageMap :: "(capi_KeyUsage \<times> unit) list \<Rightarrow> capi_KeyUsage list \<Rightarrow> bool" where
  "all_in_usageMap usageMap [] = True"
| "all_in_usageMap usageMap (u # us) =
     (case map_of usageMap u of None \<Rightarrow> False | Some _ \<Rightarrow> all_in_usageMap usageMap us)"

definition hasExactUsages :: "CertificateSigningRequest \<Rightarrow> capi_KeyUsage list \<Rightarrow> bool" where
  "hasExactUsages csr usages =
     (if length usages \<noteq> length (spec_Usages (csr_Spec csr)) then False
      else all_in_usageMap (foldl (\<lambda>m u. map_put u () m) [] usages) (spec_Usages (csr_Spec csr)))"

definition kubeletServerUsages :: "capi_KeyUsage list" where
  "kubeletServerUsages = [UsageKeyEncipherment, UsageDigitalSignature, UsageServerAuth]"

definition isNodeServingCert :: "CertificateSigningRequest \<Rightarrow> x509_CertificateRequest \<Rightarrow> bool" where
  "isNodeServingCert csr x509cr =
     (if [''system:nodes''] \<noteq> Organization (cr_Subject x509cr) then False
      else if length (cr_DNSNames x509cr) < 1 \<or> length (cr_IPAddresses x509cr) < 1 then False
      else if \<not> hasExactUsages csr kubeletServerUsages then False
      else if \<not> HasPrefix (CommonName (cr_Subject x509cr)) ''system:node:'' then False
      else if spec_Username (csr_Spec csr) \<noteq> CommonName (cr_Subject x509cr) then False
      else True)"

lemma all_in_usageMap_iff:
  "all_in_usageMap m us \<longleftrightarrow> set us \<subseteq> fst ` set m"
  by (induction us) (auto split: option.splits simp flip: dom_map_of_conv_image_fst)

lemma fold_map_put_keys:
  "fst ` set (foldl (\<lambda>m u. map_put u () m) m0 us) = fst ` set m0 \<union> set us"
  by (induction us arbitrary: m0) auto

lemma hasExactUsages_iff:
  "hasExactUsages csr usages \<longleftrightarrow>
     length (spec_Usages (csr_Spec csr)) = length usages \<and>
     set (spec_Usages (csr_Spec csr)) \<subseteq> set usages"
  by (auto simp: hasExactUsages_def all_in_usageMap_iff fold_map_put_keys)

lemma isNodeServingCert_iff:
  "isNodeServingCert csr cr \<longleftrightarrow>
     Organization (cr_Subject cr) = [''system:nodes''] \<and>
     cr_DNSNames cr \<noteq> [] \<and> cr_IPAddresses cr \<noteq> [] \<and>
     hasExactUsages csr kubeletServerUsages \<and>
     (\<exists>name. CommonName (cr_Subject cr) = ''system:node:'' @ name) \<and>
     spec_Username (csr_Spec csr) = CommonName (cr_Subject cr)"
  by (auto simp: isNodeServingCert_def HasPrefix_iff Suc_le_eq)

text \<open>
  Claim C25. A request is taken for a kubelet serving certificate exactly when its subject is a
  node of the group \<open>system:nodes\<close> alone, it names at least one DNS name and one IP address,
  the user who sent it is that node, and it asks for three usages, all of them among key
  encipherment, digital signature and server authentication.
\<close>

theorem isNodeServingCert_correct:
  "isNodeServingCert csr cr \<longleftrightarrow>
     Organization (cr_Subject cr) = [''system:nodes''] \<and>
     cr_DNSNames cr \<noteq> [] \<and> cr_IPAddresses cr \<noteq> [] \<and>
     length (spec_Usages (csr_Spec csr)) = 3 \<and>
     set (spec_Usages (csr_Spec csr)) \<subseteq> {UsageKeyEncipherment, UsageDigitalSignature, UsageServerAuth} \<and>
     (\<exists>name. CommonName (cr_Subject cr) = ''system:node:'' @ name) \<and>
     spec_Username (csr_Spec csr) = CommonName (cr_Subject cr)"
  by (auto simp: isNodeServingCert_iff hasExactUsages_iff kubeletServerUsages_def)

text \<open>
  On lists without repetitions \<open>hasExactUsages\<close> is what its name says, equality of
  the two sets of usages.
\<close>

lemma hasExactUsages_exact:
  assumes "distinct usages" and "distinct (spec_Usages (csr_Spec csr))"
  shows "hasExactUsages csr usages \<longleftrightarrow> set (spec_Usages (csr_Spec csr)) = set usages"
proof
  assume "hasExactUsages csr usages"
  then show "set (spec_Usages (csr_Spec csr)) = set usages"
    using assms by (metis card_subset_eq distinct_card hasExactUsages_iff finite_set)
next
  assume "set (spec_Usages (csr_Spec csr)) = set usages"
  then show "hasExactUsages csr usages"
    using assms by (metis hasExactUsages_iff distinct_card order_refl)
qed

definition sample_csr :: "capi_KeyUsage list \<Rightarrow> CertificateSigningRequest" where
  "sample_csr us = \<lparr>csr_Name = ''csr-1'', csr_DeletionTimestamp = None,
     csr_Spec = \<lparr>spec_Request = ''req'', spec_ExpirationSeconds = None, spec_Usages = us,
       spec_Username = ''system:node:a'', spec_UID = ''1'', spec_Groups = [''system:nodes''],
       spec_Extra = [(''k'', [''v''])]\<rparr>,
     csr_Status = \<lparr>status_Conditions = [], status_Certificate = None\<rparr>\<rparr>"

text \<open>
  With repetitions it is not: a request that lists server authentication three times
  passes for one with exactly the kubelet server usages.
\<close>

lemma hasExactUsages_accepts_repetition:
  "hasExactUsages (sample_csr [UsageServerAuth, UsageServerAuth, UsageServerAuth]) kubeletServerUsages \<and>
   set (spec_Usages (csr_Spec (sample_csr [UsageServerAuth, UsageServerAuth, UsageServerAuth])))
     \<noteq> set kubeletServerUsages"
  by (auto simp: hasExactUsages_iff kubeletServerUsages_def sample_csr_def)

end
