(* ===== verification/Go_Sort.thy ===== *)
theory Go_Sort
  imports Kucero_Prelude
begin

text \<open>
  Go's \<open>sort.Sort\<close> on a \<open>sort.Interface\<close>. The library sorts a slice of at most twelve
  elements with the insertion sort below (longer ones go through pattern-defeating quicksort,
  which kucero never reaches: see the bound in the theory of the signing policies). The
  interface is the locale \<open>sort_interface\<close>; what \<open>sort.Sort\<close> promises is proved in it once,
  from the laws of \<open>Len\<close>, \<open>Less\<close> and \<open>Swap\<close>.
\<close>

text \<open>The inner loop: \<open>for j := i; j > a && data.Less(j, j-1); j-- { data.Swap(j, j-1) }\<close>.\<close>

fun sift :: "('s \<Rightarrow> nat \<Rightarrow> nat \<Rightarrow> bool) \<Rightarrow> ('s \<Rightarrow> nat \<Rightarrow> nat \<Rightarrow> 's) \<Rightarrow> 's \<Rightarrow> nat \<Rightarrow> 's" where
  "sift lt swap s 0 = s"
| "sift lt swap s (Suc j) =
     (if lt s (Suc j) j then sift lt swap (swap s (Suc j) j) j else s)"

definition insertionSort ::
  "('s \<Rightarrow> nat \<Rightarrow> nat \<Rightarrow> bool) \<Rightarrow> ('s \<Rightarrow> nat \<Rightarrow> nat \<Rightarrow> 's) \<Rightarrow> nat \<Rightarrow> 's \<Rightarrow> 's" where
  "insertionSort lt swap n s = fold (\<lambda>i s. sift lt swap s i) [1..<n] s"

definition sort_Sort ::
  "('s \<Rightarrow> nat) \<Rightarrow> ('s \<Rightarrow> nat \<Rightarrow> nat \<Rightarrow> bool) \<Rightarrow> ('s \<Rightarrow> nat \<Rightarrow> nat \<Rightarrow> 's) \<Rightarrow> 's \<Rightarrow> 's" where
  "sort_Sort len lt swap s = insertionSort lt swap (len s) s"

text \<open>Insertion from the right end, on the reversed prefix.\<close>

fun insr :: "'a::linorder \<Rightarrow> 'a list \<Rightarrow> 'a list" where
  "insr x [] = [x]"
| "insr x (y # r) = (if x < y then y # insr x r else x # y # r)"

lemma mset_insr [simp]: "mset (insr x r) = add_mset x (mset r)"
  by (induction r) auto

lemma set_insr [simp]: "set (insr x r) = insert x (set r)"
  using mset_eq_set [of "insr x r" "x # r"] by simp

lemma length_insr [simp]: "length (insr x r) = Suc (length r)"
  by (induction r) auto

lemma sorted_insr: "sorted (rev r) \<Longrightarrow> sorted (rev (insr x r))"
  by (induction r) (auto simp: sorted_append)

locale sort_interface =
  fixes Len :: "'s \<Rightarrow> nat"
    and Less :: "'s \<Rightarrow> nat \<Rightarrow> nat \<Rightarrow> bool"
    and Swap :: "'s \<Rightarrow> nat \<Rightarrow> nat \<Rightarrow> 's"
    and elems :: "'s \<Rightarrow> 'a::linorder list"
  assumes Len_elems: "Len s = length (elems s)"
    and Less_elems: "i < Len s \<Longrightarrow> j < Len s \<Longrightarrow> Less s i j \<longleftrightarrow> elems s ! i < elems s ! j"
    and Swap_elems: "i < Len s \<Longrightarrow> j < Len s \<Longrightarrow>
      elems (Swap s i j) = (elems s)[i := elems s ! j, j := elems s ! i]"
begin

lemma elems_sift:
  "elems s = rev r @ x # zs \<Longrightarrow> elems (sift Less Swap s (length r)) = rev (insr x r) @ zs"
proof (induction r arbitrary: s zs)
  case (Cons y r)
  have n: "Suc (length r) < Len s" "length r < Len s" using Cons.prems by (simp_all add: Len_elems)
  have at: "elems s ! Suc (length r) = x" "elems s ! length r = y"
    by (simp_all add: Cons.prems nth_append)
  have "elems (Swap s (Suc (length r)) (length r)) = rev r @ x # y # zs"
    unfolding Swap_elems [OF n] at by (simp add: Cons.prems list_update_append)
  note swapped = Cons.IH [OF this]
  show ?case using swapped by (simp add: Less_elems [OF n, unfolded at] Cons.prems)
qed simp

lemma elems_sift_prefix:
  assumes "i < length (elems s)" and "sorted (take i (elems s))"
  shows "sorted (take (Suc i) (elems (sift Less Swap s i)))"
    and "mset (elems (sift Less Swap s i)) = mset (elems s)"
proof -
  have split: "elems s = rev (rev (take i (elems s))) @ elems s ! i # drop (Suc i) (elems s)"
    using assms(1) by (simp add: id_take_nth_drop [symmetric])
  have len: "length (rev (take i (elems s))) = i" using assms(1) by simp
  note sift = elems_sift [OF split, unfolded len]
  have "sorted (rev (insr (elems s ! i) (rev (take i (elems s)))))"
    by (rule sorted_insr) (simp add: assms(2))
  then show "sorted (take (Suc i) (elems (sift Less Swap s i)))"
    using assms(1) by (simp add: sift)
  have "mset (elems s) = mset (take i (elems s)) + {#elems s ! i#} + mset (drop (Suc i) (elems s))"
    by (subst split) simp
  then show "mset (elems (sift Less Swap s i)) = mset (elems s)"
    by (simp add: sift)
qed

lemma insertionSort_prefix:
  "1 \<le> k \<Longrightarrow> k \<le> length (elems s) \<Longrightarrow>
   sorted (take k (elems (insertionSort Less Swap k s))) \<and>
   mset (elems (insertionSort Less Swap k s)) = mset (elems s)"
proof (induction k rule: nat_induct_at_least)
  case base
  then show ?case by (cases "elems s") (simp_all add: insertionSort_def)
next
  case (Suc k)
  let ?t = "insertionSort Less Swap k s"
  have IH: "sorted (take k (elems ?t))" "mset (elems ?t) = mset (elems s)"
    using Suc by auto
  then have "k < length (elems ?t)" using Suc.prems by (metis Suc_le_lessD size_mset)
  note step = elems_sift_prefix [OF this IH(1)]
  have "insertionSort Less Swap (Suc k) s = sift Less Swap ?t k"
    using Suc.hyps by (simp add: insertionSort_def upt_Suc_append)
  then show ?case using step IH(2) by simp
qed

theorem sort_Sort_correct:
  "sorted (elems (sort_Sort Len Less Swap s))"
  "mset (elems (sort_Sort Len Less Swap s)) = mset (elems s)"
proof -
  have *: "sorted (elems (sort_Sort Len Less Swap s)) \<and>
        mset (elems (sort_Sort Len Less Swap s)) = mset (elems s)"
  proof (cases "elems s")
    case Nil
    then show ?thesis by (simp add: sort_Sort_def insertionSort_def Len_elems)
  next
    case (Cons a l)
    then have "1 \<le> length (elems s)" by simp
    from insertionSort_prefix [OF this order_refl]
    have p: "sorted (take (length (elems s)) (elems (sort_Sort Len Less Swap s)))"
      and m: "mset (elems (sort_Sort Len Less Swap s)) = mset (elems s)"
      by (simp_all add: sort_Sort_def Len_elems)
    from m have "length (elems (sort_Sort Len Less Swap s)) = length (elems s)"
      by (metis size_mset)
    with p m show ?thesis by simp
  qed
  then show "sorted (elems (sort_Sort Len Less Swap s))"
    "mset (elems (sort_Sort Len Less Swap s)) = mset (elems s)" by blast+
qed

end

end
