(* ===== verification/Policies.thy ===== *)
theory Policies
  imports X509 Go_Sort
begin

unbundle bit_operations_syntax

text \<open>
  \<open>pkg/pki/authority/policies.go\<close>: the translation of certificate API usages to X.509 usage
  bits and extended usages, the sorted slice it builds them with, and
  \<open>PermissiveSigningPolicy.apply\<close>. \<open>signing_policy\<close> is the Go interface \<open>SigningPolicy\<close> as the
  certificate authority relies on it.
\<close>

definition keyUsageDict :: "capi_KeyUsage \<Rightarrow> x509_KeyUsage option" where
  "keyUsageDict = map_of
    [(UsageSigning, KeyUsageDigitalSignature),
     (UsageDigitalSignature, KeyUsageDigitalSignature),
     (UsageContentCommitment, KeyUsageContentCommitment),
     (UsageKeyEncipherment, KeyUsageKeyEncipherment),
     (UsageKeyAgreement, KeyUsageKeyAgreement),
     (UsageDataEncipherment, KeyUsageDataEncipherment),
     (UsageCertSign, KeyUsageCertSign),
     (UsageCRLSign, KeyUsageCRLSign),
     (UsageEncipherOnly, KeyUsageEncipherOnly),
     (UsageDecipherOnly, KeyUsageDecipherOnly)]"

definition extKeyUsageDict :: "capi_KeyUsage \<Rightarrow> x509_ExtKeyUsage option" where
  "extKeyUsageDict = map_of
    [(UsageAny, ExtKeyUsageAny),
     (UsageServerAuth, ExtKeyUsageServerAuth),
     (UsageClientAuth, ExtKeyUsageClientAuth),
     (UsageCodeSigning, ExtKeyUsageCodeSigning),
     (UsageEmailProtection, ExtKeyUsageEmailProtection),
     (UsageSMIME, ExtKeyUsageEmailProtection),
     (UsageIPsecEndSystem, ExtKeyUsageIPSECEndSystem),
     (UsageIPsecTunnel, ExtKeyUsageIPSECTunnel),
     (UsageIPsecUser, ExtKeyUsageIPSECUser),
     (UsageTimestamping, ExtKeyUsageTimeStamping),
     (UsageOCSPSigning, ExtKeyUsageOCSPSigning),
     (UsageMicrosoftSGC, ExtKeyUsageMicrosoftServerGatedCrypto),
     (UsageNetscapeSGC, ExtKeyUsageNetscapeServerGatedCrypto)]"

text \<open>The methods of \<open>sortedExtKeyUsage\<close>, which make it a \<open>sort.Interface\<close>.\<close>

type_synonym sortedExtKeyUsage = "x509_ExtKeyUsage list"

definition sortedExtKeyUsage_Len :: "sortedExtKeyUsage \<Rightarrow> nat" where
  "sortedExtKeyUsage_Len s = length s"

definition sortedExtKeyUsage_Swap :: "sortedExtKeyUsage \<Rightarrow> nat \<Rightarrow> nat \<Rightarrow> sortedExtKeyUsage" where
  "sortedExtKeyUsage_Swap s i j = s[i := s ! j, j := s ! i]"

definition sortedExtKeyUsage_Less :: "sortedExtKeyUsage \<Rightarrow> nat \<Rightarrow> nat \<Rightarrow> bool" where
  "sortedExtKeyUsage_Less s i j \<longleftrightarrow> s ! i < s ! j"

text \<open>
  The loop of \<open>keyUsagesFromStrings\<close>: the usage bits, the extended usages as the keys of a Go
  map, the usages in neither dictionary. \<open>range_ekus\<close> is the order in which the second loop
  visits the keys of that map.
\<close>

type_synonym usage_scan = "x509_KeyUsage \<times> (x509_ExtKeyUsage \<times> unit) list \<times> capi_KeyUsage list"

fun usage_step :: "usage_scan \<Rightarrow> capi_KeyUsage \<Rightarrow> usage_scan" where
  "usage_step (keyUsage, extKeyUsages, unrecognized) usage =
     (case keyUsageDict usage of
        Some val \<Rightarrow> (keyUsage OR val, extKeyUsages, unrecognized)
      | None \<Rightarrow>
          (case extKeyUsageDict usage of
             Some val \<Rightarrow> (keyUsage, map_put val () extKeyUsages, unrecognized)
           | None \<Rightarrow> (keyUsage, extKeyUsages, unrecognized @ [usage])))"

definition keyUsagesFromStrings ::
  "(x509_ExtKeyUsage list \<Rightarrow> x509_ExtKeyUsage list) \<Rightarrow> capi_KeyUsage list \<Rightarrow>
   go_error + x509_KeyUsage \<times> x509_ExtKeyUsage list" where
  "keyUsagesFromStrings range_ekus usages =
     (let (keyUsage, extKeyUsages, unrecognized) = foldl usage_step (0, [], []) usages;
          sorted = sort_Sort sortedExtKeyUsage_Len sortedExtKeyUsage_Less sortedExtKeyUsage_Swap
                     (range_ekus (map fst extKeyUsages))
      in if 0 < length unrecognized then Inl (Error ''unrecognized usage values'')
         else Inr (keyUsage, sorted))"

text \<open>A value of the interface \<open>SigningPolicy\<close> is its method \<open>apply\<close>, bound to a receiver.\<close>

type_synonym SigningPolicy = "x509_Certificate \<Rightarrow> go_error + x509_Certificate"

record PermissiveSigningPolicy =
  TTL :: duration
  Usages :: "capi_KeyUsage list"

text \<open>\<open>apply\<close> returns the mutated template; on its error path the template is not used.\<close>

definition PermissiveSigningPolicy_apply ::
  "(x509_ExtKeyUsage list \<Rightarrow> x509_ExtKeyUsage list) \<Rightarrow> PermissiveSigningPolicy \<Rightarrow> SigningPolicy" where
  "PermissiveSigningPolicy_apply range_ekus p tmpl =
     (case keyUsagesFromStrings range_ekus (Usages p) of
        Inl err \<Rightarrow> Inl err
      | Inr (usage, extUsages) \<Rightarrow>
          Inr (tmpl\<lparr>crt_KeyUsage := usage, crt_ExtKeyUsage := extUsages,
                    crt_NotAfter := Add (crt_NotBefore tmpl) (TTL p),
                    crt_ExtraExtensions := [], crt_Extensions := [],
                    crt_BasicConstraintsValid := True, crt_IsCA := False\<rparr>))"

subsection \<open>Usages\<close>

definition recognized :: "capi_KeyUsage \<Rightarrow> bool" where
  "recognized u \<longleftrightarrow> keyUsageDict u \<noteq> None \<or> extKeyUsageDict u \<noteq> None"

text \<open>The extended usages a list of API usages asks for, as a set.\<close>

definition ext_usages_of :: "capi_KeyUsage list \<Rightarrow> x509_ExtKeyUsage set" where
  "ext_usages_of us = {v. \<exists>u \<in> set us. keyUsageDict u = None \<and> extKeyUsageDict u = Some v}"

interpretation ekus: sort_interface sortedExtKeyUsage_Len sortedExtKeyUsage_Less
  sortedExtKeyUsage_Swap "\<lambda>s. s"
  by unfold_locales
    (simp_all add: sortedExtKeyUsage_Len_def sortedExtKeyUsage_Less_def sortedExtKeyUsage_Swap_def)

lemma ext_usages_of_Nil [simp]: "ext_usages_of [] = {}"
  by (simp add: ext_usages_of_def)

lemma ext_usages_of_snoc:
  "ext_usages_of (us @ [u]) =
     (if keyUsageDict u = None \<and> extKeyUsageDict u \<noteq> None
      then insert (the (extKeyUsageDict u)) (ext_usages_of us) else ext_usages_of us)"
  by (auto simp: ext_usages_of_def)

lemma extKeyUsageDict_bound: "extKeyUsageDict u = Some v \<Longrightarrow> v < 12"
  by (cases u) (simp_all add: extKeyUsageDict_def ext_key_usage_numbers)

lemma ext_usages_of_bound: "ext_usages_of us \<subseteq> {..<12}"
  by (auto simp: ext_usages_of_def dest: extKeyUsageDict_bound)

lemma keyUsageDict_bound: "keyUsageDict u = Some v \<Longrightarrow> bit v n \<Longrightarrow> n < 9"
proof -
  assume "keyUsageDict u = Some v" and bit: "bit v n"
  then have "take_bit 9 v = v" by (cases u) (auto simp: keyUsageDict_def key_usage_bits)
  with bit have "bit (take_bit 9 v) n" by simp
  then show "n < 9" by (simp add: bit_take_bit_iff)
qed

lemma finite_ext_usages_of [simp]: "finite (ext_usages_of us)"
  using ext_usages_of_bound finite_subset by blast

text \<open>What the scan computes, by induction from the right.\<close>

lemma usage_scan:
  assumes "foldl usage_step (0, [], []) us = (ku, eku, unrec)"
  shows "\<forall>n. bit ku n \<longleftrightarrow> (\<exists>u \<in> set us. \<exists>v. keyUsageDict u = Some v \<and> bit v n)"
    and "fst ` set eku = ext_usages_of us" and "distinct (map fst eku)"
    and "unrec = filter (\<lambda>u. \<not> recognized u) us"
  using assms
proof (atomize(full), induction us arbitrary: ku eku unrec rule: rev_induct)
  case (snoc u us)
  obtain ku' eku' unrec' where scan: "foldl usage_step (0, [], []) us = (ku', eku', unrec')"
    by (metis prod_cases3)
  note IH = snoc.IH [OF scan]
  have step: "usage_step (ku', eku', unrec') u = (ku, eku, unrec)" using snoc.prems scan by simp
  show ?case
  proof (cases "keyUsageDict u")
    case (Some v)
    with step IH show ?thesis
      by (auto simp: ext_usages_of_snoc recognized_def bit_or_iff)
  next
    case None
    then show ?thesis
      using step IH
      by (cases "extKeyUsageDict u") (clarsimp simp: ext_usages_of_snoc recognized_def)+
  qed
qed simp

lemma sort_Sort_set:
  assumes "mset (f xs) = mset xs" and "distinct xs"
  shows "sort_Sort sortedExtKeyUsage_Len sortedExtKeyUsage_Less sortedExtKeyUsage_Swap (f xs)
       = sorted_list_of_set (set xs)"
    (is "?s = _")
proof -
  have "sorted ?s" "mset ?s = mset xs" using ekus.sort_Sort_correct [of "f xs"] assms(1) by simp_all
  moreover from this(2) have "distinct ?s" "set ?s = set xs"
    using assms(2) mset_eq_imp_distinct_iff mset_eq_set by blast+
  ultimately show ?thesis
    by (intro sorted_list_unique) simp_all
qed

lemma keyUsagesFromStrings_eq:
  assumes "\<And>xs. mset (range_ekus xs) = mset xs"
  shows "keyUsagesFromStrings range_ekus us =
    (if \<exists>u \<in> set us. \<not> recognized u then Inl (Error ''unrecognized usage values'')
     else Inr (fst (foldl usage_step (0, [], []) us), sorted_list_of_set (ext_usages_of us)))"
proof -
  obtain ku eku unrec where scan: "foldl usage_step (0, [], []) us = (ku, eku, unrec)"
    by (metis prod_cases3)
  note facts = usage_scan [OF scan]
  have "set (map fst eku) = ext_usages_of us" using facts(2) by simp
  with sort_Sort_set [where f = range_ekus, OF assms facts(3)] show ?thesis
    unfolding keyUsagesFromStrings_def scan
    by (simp add: facts(4) filter_empty_conv)
qed

lemma usage_bits:
  "bit (fst (foldl usage_step (0, [], []) us)) n \<longleftrightarrow>
     (\<exists>u \<in> set us. \<exists>v. keyUsageDict u = Some v \<and> bit v n)"
proof -
  obtain ku eku unrec where scan: "foldl usage_step (0, [], []) us = (ku, eku, unrec)"
    by (metis prod_cases3)
  with usage_scan(1) [OF scan] show ?thesis by simp
qed

lemma usage_bits_eq_iff:
  "fst (foldl usage_step (0, [], []) us) = ku \<longleftrightarrow>
     (\<forall>n. bit ku n \<longleftrightarrow> (\<exists>u \<in> set us. \<exists>v. keyUsageDict u = Some v \<and> bit v n))"
proof
  assume "\<forall>n. bit ku n \<longleftrightarrow> (\<exists>u \<in> set us. \<exists>v. keyUsageDict u = Some v \<and> bit v n)"
  then show "fst (foldl usage_step (0, [], []) us) = ku"
    by (intro bit_word_eqI) (simp add: usage_bits)
qed (use usage_bits in blast)

text \<open>
  Claim C24. \<open>keyUsagesFromStrings\<close> succeeds exactly when every usage is in one of the two
  dictionaries, and then returns the union of the key usage bits asked for and the extended
  usages asked for, each once and in increasing order, whatever order Go's map iteration takes.
\<close>

theorem keyUsagesFromStrings_correct:
  assumes "\<And>xs. mset (range_ekus xs) = mset xs"
  shows "keyUsagesFromStrings range_ekus us = Inr (ku, ekus) \<longleftrightarrow>
    (\<forall>u \<in> set us. recognized u) \<and>
    (\<forall>n. bit ku n \<longleftrightarrow> (\<exists>u \<in> set us. \<exists>v. keyUsageDict u = Some v \<and> bit v n)) \<and>
    ekus = sorted_list_of_set (ext_usages_of us)"
  unfolding usage_bits_eq_iff [symmetric]
  by (auto simp: keyUsagesFromStrings_eq [OF assms])

theorem keyUsagesFromStrings_correct_witness:
  "keyUsagesFromStrings rev [UsageServerAuth, UsageKeyEncipherment, UsageAny, UsageSigning]
     = Inr (5, [0, 1]) \<and>
   (\<forall>n. bit (5 :: 64 word) n \<longleftrightarrow>
      (\<exists>u \<in> set [UsageServerAuth, UsageKeyEncipherment, UsageAny, UsageSigning].
         \<exists>v. keyUsageDict u = Some v \<and> bit v n))"
proof -
  have eq: "keyUsagesFromStrings rev [UsageServerAuth, UsageKeyEncipherment, UsageAny, UsageSigning]
     = Inr (5, [0, 1])"
    by code_simp
  have "\<And>xs :: nat list. mset (rev xs) = mset xs" by simp
  note iff = keyUsagesFromStrings_correct [of rev, OF this]
  from eq iff [THEN iffD1, OF eq] show ?thesis by blast
qed

text \<open>
  The translation depends on the set of usages only: neither their order, nor
  repetitions, nor the iteration order of the map changes the result.
\<close>

lemma keyUsagesFromStrings_order_independent:
  assumes "\<And>xs. mset (range1 xs) = mset xs" and "\<And>xs. mset (range2 xs) = mset xs"
    and "set us = set us'"
  shows "keyUsagesFromStrings range1 us = keyUsagesFromStrings range2 us'"
proof -
  have bits: "fst (foldl usage_step (0, [], []) us) = fst (foldl usage_step (0, [], []) us')"
    by (simp add: usage_bits_eq_iff usage_bits assms(3))
  have "ext_usages_of us = ext_usages_of us'" by (simp add: ext_usages_of_def assms(3))
  with bits show ?thesis
    by (simp add: keyUsagesFromStrings_eq [OF assms(1)] keyUsagesFromStrings_eq [OF assms(2)] assms(3))
qed

text \<open>
  The slice handed to \<open>sort.Sort\<close> never has more than twelve elements, which is the
  length up to which the library uses insertion sort.
\<close>

lemma sorted_usages_at_most_twelve:
  "length (map fst (fst (snd (foldl usage_step (0, [], []) us)))) \<le> 12"
proof -
  obtain ku eku unrec where scan: "foldl usage_step (0, [], []) us = (ku, eku, unrec)"
    by (metis prod_cases3)
  note facts = usage_scan [OF scan]
  have "length (map fst eku) = card (ext_usages_of us)"
    using facts(2,3) by (metis distinct_card list.set_map)
  also have "\<dots> \<le> card {..<12 :: nat}" by (rule card_mono) (simp_all add: ext_usages_of_bound)
  finally show ?thesis by (simp add: scan)
qed

subsection \<open>The signing policy interface\<close>

text \<open>
  \<open>SigningPolicy\<close> (policies.go): \<open>apply\<close> may set usages, validity end, extensions and the basic
  constraints of a template, and nothing else; what it makes is never a CA certificate.
\<close>

definition identity_of :: "x509_Certificate \<Rightarrow> _" where
  "identity_of t = (crt_SerialNumber t, crt_Subject t, crt_DNSNames t, crt_IPAddresses t,
     crt_EmailAddresses t, crt_URIs t, crt_PublicKeyAlgorithm t, crt_PublicKey t, crt_NotBefore t)"

locale signing_policy =
  fixes papply :: SigningPolicy
  assumes apply_identity: "papply t = Inr t' \<Longrightarrow> identity_of t' = identity_of t"
    and apply_not_CA: "papply t = Inr t' \<Longrightarrow> crt_BasicConstraintsValid t' \<and> \<not> crt_IsCA t'"
    and apply_no_extensions:
      "papply t = Inr t' \<Longrightarrow> crt_Extensions t' = [] \<and> crt_ExtraExtensions t' = []"

interpretation permissive: signing_policy "PermissiveSigningPolicy_apply range_ekus p"
  by unfold_locales
    (auto simp: PermissiveSigningPolicy_apply_def identity_of_def split: sum.splits)

lemma PermissiveSigningPolicy_apply_Inr:
  "PermissiveSigningPolicy_apply range_ekus p t = Inr t' \<Longrightarrow>
     crt_NotAfter t' = Add (crt_NotBefore t) (TTL p) \<and>
     keyUsagesFromStrings range_ekus (Usages p) = Inr (crt_KeyUsage t', crt_ExtKeyUsage t')"
  by (auto simp: PermissiveSigningPolicy_apply_def split: sum.splits)

lemma PermissiveSigningPolicy_apply_Inl_iff:
  "PermissiveSigningPolicy_apply range_ekus p t = Inl e \<longleftrightarrow>
     keyUsagesFromStrings range_ekus (Usages p) = Inl e"
  by (auto simp: PermissiveSigningPolicy_apply_def split: sum.splits)

end
