(* ===== verification/Authority.thy ===== *)
theory Authority
  imports Policies
begin

text \<open>
  \<open>pkg/pki/authority/authority.go\<close>: the certificate authority and \<open>Sign\<close>. The wall clock
  (\<open>time.Now()\<close>), the random number generator and the X.509 library are parameters. \<open>Sign\<close>
  is split where the source calls \<open>x509.CreateCertificate\<close>: \<open>Sign_template\<close> is everything
  before that call and yields the template and the parsed request.
\<close>

definition serialNumberLimit :: int where
  "serialNumberLimit = 2 ^ 128"

record CertificateAuthority =
  RawCert :: bytes
  RawKey :: bytes
  Certificate :: x509_Certificate
  PrivateKey :: bytes
  Backdate :: duration
  Now :: "time option"  \<comment> \<open>\<open>None\<close> is the nil function: use the wall clock\<close>

text \<open>The zero value of \<open>time.Time\<close>: the first of January of the year 1.\<close>

definition zero_Time :: time where
  "zero_Time = Date 1 1 1 0 0 0 0"

definition Sign_now :: "time \<Rightarrow> CertificateAuthority \<Rightarrow> time" where
  "Sign_now wall ca = (case Now ca of None \<Rightarrow> wall | Some t \<Rightarrow> t)"

definition request_template :: "int \<Rightarrow> time \<Rightarrow> x509_CertificateRequest \<Rightarrow> x509_Certificate" where
  "request_template serialNumber nbf cr =
     \<lparr>crt_SerialNumber = serialNumber, crt_Subject = cr_Subject cr,
      crt_DNSNames = cr_DNSNames cr, crt_IPAddresses = cr_IPAddresses cr,
      crt_EmailAddresses = cr_EmailAddresses cr, crt_URIs = cr_URIs cr,
      crt_PublicKeyAlgorithm = cr_PublicKeyAlgorithm cr, crt_PublicKey = cr_PublicKey cr,
      crt_Extensions = cr_Extensions cr, crt_ExtraExtensions = cr_ExtraExtensions cr,
      crt_NotBefore = nbf, crt_NotAfter = zero_Time, crt_KeyUsage = 0, crt_ExtKeyUsage = [],
      crt_BasicConstraintsValid = False, crt_IsCA = False\<rparr>"

definition Sign_template ::
  "x509_lib \<Rightarrow> (int \<Rightarrow> go_error + int) \<Rightarrow> time \<Rightarrow> CertificateAuthority \<Rightarrow> bytes \<Rightarrow> SigningPolicy \<Rightarrow>
   go_error + x509_Certificate \<times> x509_CertificateRequest" where
  "Sign_template lib rand_Int wall ca crDER papply =
     (let now = Sign_now wall ca; nbf = Add now (- Backdate ca);
          notAfter = crt_NotAfter (Certificate ca)
      in if \<not> Before nbf notAfter then Inl (Error ''the signer has expired'')
         else case ParseCertificateRequest lib crDER of
           Inl err \<Rightarrow> Inl (Errorf ''unable to parse certificate request'' err)
         | Inr cr \<Rightarrow>
            (case CheckSignature lib cr of
               Some err \<Rightarrow> Inl (Errorf ''unable to verify certificate request signature'' err)
             | None \<Rightarrow>
                (case rand_Int serialNumberLimit of
                   Inl err \<Rightarrow> Inl (Errorf ''unable to generate a serial number'' err)
                 | Inr serialNumber \<Rightarrow>
                    (case papply (request_template serialNumber nbf cr) of
                       Inl err \<Rightarrow> Inl err
                     | Inr tmpl \<Rightarrow>
                        (let tmpl = (if \<not> Before (crt_NotAfter tmpl) notAfter
                                     then tmpl\<lparr>crt_NotAfter := notAfter\<rparr> else tmpl)
                         in if \<not> Before now notAfter
                            then Inl (Error ''refusing to sign a certificate that expired in the past'')
                            else Inr (tmpl, cr))))))"

definition CertificateAuthority_Sign ::
  "x509_lib \<Rightarrow> (int \<Rightarrow> go_error + int) \<Rightarrow> time \<Rightarrow> CertificateAuthority \<Rightarrow> bytes \<Rightarrow> SigningPolicy \<Rightarrow> go_error + bytes" where
  "CertificateAuthority_Sign lib rand_Int wall ca crDER papply =
     (case Sign_template lib rand_Int wall ca crDER papply of
        Inl err \<Rightarrow> Inl err
      | Inr (tmpl, cr) \<Rightarrow>
          (case CreateCertificate lib tmpl (Certificate ca) (cr_PublicKey cr) (PrivateKey ca) of
             Inl err \<Rightarrow> Inl (Errorf ''failed to sign certificate'' err)
           | Inr der \<Rightarrow> Inr der))"

subsection \<open>What is signed\<close>

text \<open>Every stage of \<open>Sign_template\<close> succeeded; the template is the policy's, clamped.\<close>

lemma Sign_template_Inr:
  assumes "Sign_template lib rand_Int wall ca crDER papply = Inr (tmpl, cr)"
  obtains serialNumber t where
    "ParseCertificateRequest lib crDER = Inr cr" and "CheckSignature lib cr = None"
    and "rand_Int serialNumberLimit = Inr serialNumber"
    and "papply (request_template serialNumber (Add (Sign_now wall ca) (- Backdate ca)) cr) = Inr t"
    and "tmpl = t\<lparr>crt_NotAfter := min (crt_NotAfter t) (crt_NotAfter (Certificate ca))\<rparr>"
    and "Sign_now wall ca < crt_NotAfter (Certificate ca)"
    and "Add (Sign_now wall ca) (- Backdate ca) < crt_NotAfter (Certificate ca)"
  using assms unfolding Sign_template_def Let_def Before_def
  by (auto split: if_splits sum.splits option.splits simp: min_def)

lemma CertificateAuthority_Sign_Inr:
  assumes "CertificateAuthority_Sign lib rand_Int wall ca crDER papply = Inr der"
  obtains tmpl cr where
    "Sign_template lib rand_Int wall ca crDER papply = Inr (tmpl, cr)"
    and "CreateCertificate lib tmpl (Certificate ca) (cr_PublicKey cr) (PrivateKey ca) = Inr der"
  using assms unfolding CertificateAuthority_Sign_def by (auto split: sum.splits)

context signing_policy
begin

lemma template_of_request:
  assumes "Sign_template lib rand_Int wall ca crDER papply = Inr (tmpl, cr)"
  shows "identity_of tmpl =
      identity_of (request_template (crt_SerialNumber tmpl) (Add (Sign_now wall ca) (- Backdate ca)) cr)"
    and "rand_Int serialNumberLimit = Inr (crt_SerialNumber tmpl)"
    and "crt_BasicConstraintsValid tmpl \<and> \<not> crt_IsCA tmpl"
    and "crt_Extensions tmpl = [] \<and> crt_ExtraExtensions tmpl = []"
    and "crt_NotAfter tmpl \<le> crt_NotAfter (Certificate ca)"
proof -
  obtain sn t where t: "papply (request_template sn (Add (Sign_now wall ca) (- Backdate ca)) cr) = Inr t"
    and sn: "rand_Int serialNumberLimit = Inr sn"
    and tmpl: "tmpl = t\<lparr>crt_NotAfter := min (crt_NotAfter t) (crt_NotAfter (Certificate ca))\<rparr>"
    using assms by (rule Sign_template_Inr)
  have id: "identity_of tmpl = identity_of t" by (simp add: tmpl identity_of_def)
  note id_t = apply_identity [OF t]
  have sn': "crt_SerialNumber tmpl = sn"
    using id id_t by (simp add: identity_of_def request_template_def)
  show "identity_of tmpl =
      identity_of (request_template (crt_SerialNumber tmpl) (Add (Sign_now wall ca) (- Backdate ca)) cr)"
    using id id_t by (simp add: sn')
  show "rand_Int serialNumberLimit = Inr (crt_SerialNumber tmpl)" by (simp add: sn sn')
  show "crt_BasicConstraintsValid tmpl \<and> \<not> crt_IsCA tmpl"
    using apply_not_CA [OF t] by (simp add: tmpl)
  show "crt_Extensions tmpl = [] \<and> crt_ExtraExtensions tmpl = []"
    using apply_no_extensions [OF t] by (simp add: tmpl)
  show "crt_NotAfter tmpl \<le> crt_NotAfter (Certificate ca)" by (simp add: tmpl)
qed

end

subsection \<open>Concrete values\<close>

text \<open>A request, a CA and a library that accepts every request, for the witnesses.\<close>

definition sample_request :: x509_CertificateRequest where
  "sample_request = \<lparr>cr_Raw = ''csr'', cr_Subject = \<lparr>Organization = [''system:nodes''],
     CommonName = ''system:node:a'', NameRest = ''''\<rparr>, cr_DNSNames = [''a''],
     cr_IPAddresses = [''ip''], cr_EmailAddresses = [], cr_URIs = [],
     cr_PublicKeyAlgorithm = 1, cr_PublicKey = ''pub'', cr_Extensions = [''x''],
     cr_ExtraExtensions = []\<rparr>"

definition sample_lib :: x509_lib where
  "sample_lib = \<lparr>ParseCertificateRequest = (\<lambda>b. Inr (sample_request\<lparr>cr_Raw := b\<rparr>)),
     CheckSignature = (\<lambda>_. None), CreateCertificate = (\<lambda>_ _ _ _. Inr ''der''),
     pem_Decode = (\<lambda>b. if b = [] then None else Some (''CERTIFICATE REQUEST'', b)),
     pem_EncodeToMemory = (\<lambda>t b. t @ b)\<rparr>"

definition sample_CA :: CertificateAuthority where
  "sample_CA = \<lparr>RawCert = ''cert'', RawKey = ''key'',
     Certificate = (request_template 1 0 sample_request)
       \<lparr>crt_NotAfter := 1000 * 1000000000, crt_IsCA := True\<rparr>,
     PrivateKey = ''priv'', Backdate = 5 * time_Minute, Now = None\<rparr>"

lemmas sample_defs = sample_request_def sample_lib_def sample_CA_def

subsection \<open>Properties of Sign\<close>

text \<open>All that is known of a certificate that was issued under the permissive policy.\<close>

lemma CertificateAuthority_Sign_issued:
  assumes "CertificateAuthority_Sign lib rand_Int wall ca crDER
             (PermissiveSigningPolicy_apply range_ekus p) = Inr der"
  obtains tmpl cr where
    "ParseCertificateRequest lib crDER = Inr cr" and "CheckSignature lib cr = None"
    and "CreateCertificate lib tmpl (Certificate ca) (cr_PublicKey cr) (PrivateKey ca) = Inr der"
    and "identity_of tmpl = identity_of
      (request_template (crt_SerialNumber tmpl) (Add (Sign_now wall ca) (- Backdate ca)) cr)"
    and "rand_Int serialNumberLimit = Inr (crt_SerialNumber tmpl)"
    and "crt_NotAfter tmpl =
      min (Add (Add (Sign_now wall ca) (- Backdate ca)) (TTL p)) (crt_NotAfter (Certificate ca))"
    and "Sign_now wall ca < crt_NotAfter (Certificate ca)"
    and "keyUsagesFromStrings range_ekus (Usages p) = Inr (crt_KeyUsage tmpl, crt_ExtKeyUsage tmpl)"
    and "crt_Extensions tmpl = [] \<and> crt_ExtraExtensions tmpl = []"
    and "crt_BasicConstraintsValid tmpl \<and> \<not> crt_IsCA tmpl"
proof -
  obtain tmpl cr where st: "Sign_template lib rand_Int wall ca crDER
        (PermissiveSigningPolicy_apply range_ekus p) = Inr (tmpl, cr)"
    and create: "CreateCertificate lib tmpl (Certificate ca) (cr_PublicKey cr) (PrivateKey ca) = Inr der"
    using assms by (rule CertificateAuthority_Sign_Inr)
  obtain sn t where parse: "ParseCertificateRequest lib crDER = Inr cr" "CheckSignature lib cr = None"
    and t: "PermissiveSigningPolicy_apply range_ekus p
        (request_template sn (Add (Sign_now wall ca) (- Backdate ca)) cr) = Inr t"
    and tmpl: "tmpl = t\<lparr>crt_NotAfter := min (crt_NotAfter t) (crt_NotAfter (Certificate ca))\<rparr>"
    and now: "Sign_now wall ca < crt_NotAfter (Certificate ca)"
    using st by (rule Sign_template_Inr)
  note applied = PermissiveSigningPolicy_apply_Inr [OF t]
  note facts = permissive.template_of_request [OF st]
  show thesis
    by (rule that [OF parse create facts(1,2)])
      (use applied now facts in \<open>simp_all add: tmpl request_template_def\<close>)
qed

text \<open>
  Claim C13. A certificate is only issued for a request that parses and whose signature checks;
  what is handed to \<open>x509.CreateCertificate\<close> has the subject, the SANs and the public key of
  that request and the random serial number, is backdated by \<open>Backdate\<close>, ends at the policy's
  TTL or with the CA, whichever is earlier, carries exactly the translated usages, has no
  extension of the request and is never a CA certificate.
\<close>

theorem CertificateAuthority_Sign_sound:
  assumes "CertificateAuthority_Sign lib rand_Int wall ca crDER
             (PermissiveSigningPolicy_apply range_ekus p) = Inr der"
  shows "\<exists>tmpl cr. ParseCertificateRequest lib crDER = Inr cr \<and> CheckSignature lib cr = None \<and>
    CreateCertificate lib tmpl (Certificate ca) (cr_PublicKey cr) (PrivateKey ca) = Inr der \<and>
    rand_Int serialNumberLimit = Inr (crt_SerialNumber tmpl) \<and>
    crt_Subject tmpl = cr_Subject cr \<and> crt_PublicKey tmpl = cr_PublicKey cr \<and>
    crt_DNSNames tmpl = cr_DNSNames cr \<and> crt_IPAddresses tmpl = cr_IPAddresses cr \<and>
    crt_EmailAddresses tmpl = cr_EmailAddresses cr \<and> crt_URIs tmpl = cr_URIs cr \<and>
    crt_NotBefore tmpl = Add (Sign_now wall ca) (- Backdate ca) \<and>
    crt_NotAfter tmpl =
      min (Add (crt_NotBefore tmpl) (TTL p)) (crt_NotAfter (Certificate ca)) \<and>
    Sign_now wall ca < crt_NotAfter (Certificate ca) \<and>
    keyUsagesFromStrings range_ekus (Usages p) = Inr (crt_KeyUsage tmpl, crt_ExtKeyUsage tmpl) \<and>
    crt_Extensions tmpl = [] \<and> crt_ExtraExtensions tmpl = [] \<and>
    crt_BasicConstraintsValid tmpl \<and> \<not> crt_IsCA tmpl"
  using assms
  by (rule CertificateAuthority_Sign_issued)
    (auto simp: identity_of_def request_template_def)

theorem CertificateAuthority_Sign_sound_witness:
  "\<exists>(tmpl :: x509_Certificate) cr. ParseCertificateRequest sample_lib ''csr'' = Inr cr \<and>
    crt_SerialNumber tmpl = 7 \<and> crt_Subject tmpl = cr_Subject cr \<and>
    crt_NotAfter tmpl = min (Add (crt_NotBefore tmpl) time_Hour) (crt_NotAfter (Certificate sample_CA)) \<and>
    \<not> crt_IsCA tmpl"
proof -
  have "CertificateAuthority_Sign sample_lib (\<lambda>_. Inr 7) 0 sample_CA ''csr''
      (PermissiveSigningPolicy_apply rev \<lparr>TTL = time_Hour, Usages = [UsageServerAuth]\<rparr>) = Inr ''der''"
    by code_simp
  from CertificateAuthority_Sign_sound [OF this] show ?thesis
    by fastforce
qed

text \<open>
  Claim C27. When \<open>Sign\<close> gets as far as signing: with a backdate that is not negative, exactly
  when the CA certificate has not expired now, the request parses and its signature checks, a
  serial number can be drawn and every usage is known. The two expiry checks of the source
  together are this one: the backdated check can only fail where the other fails too.
\<close>

theorem Sign_template_succeeds_iff:
  assumes "\<And>xs. mset (range_ekus xs) = mset xs" and "0 \<le> sint (Backdate ca)"
  shows "(\<exists>r. Sign_template lib rand_Int wall ca crDER (PermissiveSigningPolicy_apply range_ekus p) = Inr r)
    \<longleftrightarrow> Sign_now wall ca < crt_NotAfter (Certificate ca) \<and>
       (\<exists>cr. ParseCertificateRequest lib crDER = Inr cr \<and> CheckSignature lib cr = None) \<and>
       (\<exists>sn. rand_Int serialNumberLimit = Inr sn) \<and> (\<forall>u \<in> set (Usages p). recognized u)"
proof -
  have "sint (- Backdate ca) = - sint (Backdate ca)"
    using assms(2) by (intro sint_uminus_duration) simp
  then have nbf: "Add (Sign_now wall ca) (- Backdate ca) \<le> Sign_now wall ca"
    using assms(2) by (simp add: Add_def)
  have known: "(\<exists>t'. PermissiveSigningPolicy_apply range_ekus p t = Inr t') \<longleftrightarrow>
      (\<forall>u \<in> set (Usages p). recognized u)" for t
    by (auto simp: PermissiveSigningPolicy_apply_def keyUsagesFromStrings_eq [OF assms(1)])
  show ?thesis
  proof
    assume "\<exists>r. Sign_template lib rand_Int wall ca crDER (PermissiveSigningPolicy_apply range_ekus p) = Inr r"
    then show "Sign_now wall ca < crt_NotAfter (Certificate ca) \<and>
       (\<exists>cr. ParseCertificateRequest lib crDER = Inr cr \<and> CheckSignature lib cr = None) \<and>
       (\<exists>sn. rand_Int serialNumberLimit = Inr sn) \<and> (\<forall>u \<in> set (Usages p). recognized u)"
      using known by (auto elim!: Sign_template_Inr)
  next
    assume R: "Sign_now wall ca < crt_NotAfter (Certificate ca) \<and>
       (\<exists>cr. ParseCertificateRequest lib crDER = Inr cr \<and> CheckSignature lib cr = None) \<and>
       (\<exists>sn. rand_Int serialNumberLimit = Inr sn) \<and> (\<forall>u \<in> set (Usages p). recognized u)"
    then obtain cr sn t' where
      "ParseCertificateRequest lib crDER = Inr cr" "CheckSignature lib cr = None"
      "rand_Int serialNumberLimit = Inr sn"
      "PermissiveSigningPolicy_apply range_ekus p
         (request_template sn (Add (Sign_now wall ca) (- Backdate ca)) cr) = Inr t'"
      using known by blast
    with R nbf show "\<exists>r. Sign_template lib rand_Int wall ca crDER
        (PermissiveSigningPolicy_apply range_ekus p) = Inr r"
      by (simp add: Sign_template_def Before_def Let_def)
  qed
qed

theorem Sign_template_succeeds_iff_witness:
  "(\<exists>r. Sign_template sample_lib (\<lambda>_. Inr 7) 999 sample_CA ''csr''
      (PermissiveSigningPolicy_apply rev \<lparr>TTL = time_Hour, Usages = [UsageServerAuth]\<rparr>) = Inr r) \<and>
   \<not> (\<exists>r. Sign_template sample_lib (\<lambda>_. Inr 7) (1000 * 1000000000) sample_CA ''csr''
      (PermissiveSigningPolicy_apply rev \<lparr>TTL = time_Hour, Usages = [UsageServerAuth]\<rparr>) = Inr r)"
proof -
  have backdate: "0 \<le> sint (Backdate sample_CA)" by (simp add: sample_CA_def time_Minute_def time_Second_def)
  have rng: "\<And>xs :: nat list. mset (rev xs) = mset xs" by simp
  have known: "recognized UsageServerAuth" by (simp add: recognized_def extKeyUsageDict_def)
  show ?thesis
    unfolding Sign_template_succeeds_iff [where range_ekus = rev, OF rng backdate]
    using known by (simp add: sample_defs Sign_now_def)
qed


text \<open>
  What \<open>x509.CreateCertificate\<close> can encode as a leaf certificate: a serial number of at
  most 128 bits, key usages among the nine of X.509, extended usages known to the library, each
  once and in order, valid basic constraints that say it is no CA, and no extension of the request.
\<close>

definition leaf_template :: "x509_Certificate \<Rightarrow> bool" where
  "leaf_template tmpl \<longleftrightarrow>
     0 \<le> crt_SerialNumber tmpl \<and> crt_SerialNumber tmpl < serialNumberLimit \<and>
     take_bit 9 (crt_KeyUsage tmpl) = crt_KeyUsage tmpl \<and>
     sorted_wrt (<) (crt_ExtKeyUsage tmpl) \<and> set (crt_ExtKeyUsage tmpl) \<subseteq> {..<12} \<and>
     crt_BasicConstraintsValid tmpl \<and> \<not> crt_IsCA tmpl \<and>
     crt_Extensions tmpl = [] \<and> crt_ExtraExtensions tmpl = []"

text \<open>\<open>rand.Int\<close> of crypto/rand draws below its limit.\<close>

definition draws_below :: "(int \<Rightarrow> go_error + int) \<Rightarrow> bool" where
  "draws_below rand_Int \<longleftrightarrow> (\<forall>limit n. rand_Int limit = Inr n \<longrightarrow> 0 \<le> n \<and> n < limit)"

lemma usage_word_bound:
  "take_bit 9 (fst (foldl usage_step (0, [], []) us)) = fst (foldl usage_step (0, [], []) us)"
  by (rule bit_word_eqI) (auto simp: bit_take_bit_iff usage_bits dest: keyUsageDict_bound)

text \<open>
  Claim C31. Whatever request and CA it is given, and whatever usages are asked for, \<open>Sign\<close>
  hands \<open>x509.CreateCertificate\<close> a well-formed template of a leaf certificate whose validity ends
  with the CA's at the latest.
\<close>

theorem Sign_template_well_formed:
  assumes "\<And>xs. mset (range_ekus xs) = mset xs" and "draws_below rand_Int"
    and "Sign_template lib rand_Int wall ca crDER (PermissiveSigningPolicy_apply range_ekus p) = Inr (tmpl, cr)"
  shows "leaf_template tmpl \<and> crt_NotAfter tmpl \<le> crt_NotAfter (Certificate ca)"
proof -
  obtain sn t where t: "PermissiveSigningPolicy_apply range_ekus p
        (request_template sn (Add (Sign_now wall ca) (- Backdate ca)) cr) = Inr t"
    and tmpl: "tmpl = t\<lparr>crt_NotAfter := min (crt_NotAfter t) (crt_NotAfter (Certificate ca))\<rparr>"
    using assms(3) by (rule Sign_template_Inr)
  have "keyUsagesFromStrings range_ekus (Usages p) = Inr (crt_KeyUsage tmpl, crt_ExtKeyUsage tmpl)"
    using PermissiveSigningPolicy_apply_Inr [OF t] by (simp add: tmpl)
  then have usages: "crt_KeyUsage tmpl = fst (foldl usage_step (0, [], []) (Usages p))"
    "crt_ExtKeyUsage tmpl = sorted_list_of_set (ext_usages_of (Usages p))"
    by (simp_all add: keyUsagesFromStrings_eq [OF assms(1)] split: if_splits)
  have "0 \<le> crt_SerialNumber tmpl \<and> crt_SerialNumber tmpl < serialNumberLimit"
    using permissive.template_of_request(2) [OF assms(3)] assms(2) unfolding draws_below_def by blast
  moreover have "sorted_wrt (<) (crt_ExtKeyUsage tmpl)" "set (crt_ExtKeyUsage tmpl) \<subseteq> {..<12}"
    using ext_usages_of_bound by (simp_all add: usages(2) strict_sorted_iff)
  ultimately show ?thesis
    using permissive.template_of_request(3-5) [OF assms(3)] usage_word_bound [of "Usages p"]
    by (simp add: leaf_template_def usages(1))
qed

theorem Sign_template_well_formed_witness:
  "\<exists>tmpl cr. Sign_template sample_lib (\<lambda>limit. if 7 < limit then Inr 7 else Inl (Error ''limit'')) 0 sample_CA ''csr''
      (PermissiveSigningPolicy_apply rev \<lparr>TTL = time_Hour, Usages = [UsageServerAuth, UsageAny, UsageSigning]\<rparr>) = Inr (tmpl, cr) \<and>
     leaf_template tmpl"
proof -
  let ?rand = "\<lambda>limit :: int. if 7 < limit then Inr 7 else Inl (Error ''limit'')"
  let ?p = "\<lparr>TTL = time_Hour, Usages = [UsageServerAuth, UsageAny, UsageSigning]\<rparr>"
  have "\<not> isl (Sign_template sample_lib ?rand 0 sample_CA ''csr'' (PermissiveSigningPolicy_apply rev ?p))"
    by code_simp
  then obtain tmpl cr where sign:
    "Sign_template sample_lib ?rand 0 sample_CA ''csr'' (PermissiveSigningPolicy_apply rev ?p) = Inr (tmpl, cr)"
    by (metis isl_def sum.exhaust surj_pair)
  have "draws_below ?rand" by (auto simp: draws_below_def split: if_splits)
  then have "leaf_template tmpl"
    using Sign_template_well_formed [where range_ekus = rev, OF _ _ sign] by simp
  with sign show ?thesis by blast
qed

end
