(* ===== verification/Signer.thy ===== *)
theory Signer
  imports Authority Capi
begin

text \<open>
  \<open>pkg/pki/signer\<close>: the provider that reloads the CA key pair (ca_provider.go) and the signer on
  top of it (signer.go).

  Parameters (\<open>ca_lib\<close>): the dynamic file loader of \<open>k8s.io/apiserver\<close>, the PEM parsers and
  \<open>ExpirationSecondsToDuration\<close> of \<open>k8s.io/client-go\<close>. The loader is a function of the number
  of reads made so far, so the files may change between any two reads, also between the two
  reads of one \<open>currentCA\<close>. The atomic value \<open>caValue\<close> is an option, \<open>None\<close> before the first
  \<open>Store\<close>; loading it as a \<open>*CertificateAuthority\<close> then panics.
\<close>

datatype parsed_key = CryptoSigner bytes | OtherKey bytes

type_synonym loader = "nat \<Rightarrow> bytes \<times> bytes"

record ca_lib =
  NewDynamicServingContentFromFiles :: "string \<Rightarrow> string \<Rightarrow> string \<Rightarrow> go_error + loader"
  ParseCertsPEM :: "bytes \<Rightarrow> go_error + x509_Certificate list"
  ParsePrivateKeyPEM :: "bytes \<Rightarrow> go_error + parsed_key"
  ExpirationSecondsToDuration :: "32 word \<Rightarrow> duration"

record caProvider =
  caValue :: "CertificateAuthority option"
  caLoader :: loader
  reads :: nat

definition CurrentCertKeyContent :: "caProvider \<Rightarrow> (bytes \<times> bytes) \<times> caProvider" where
  "CurrentCertKeyContent p = (caLoader p (reads p), p\<lparr>reads := Suc (reads p)\<rparr>)"

definition setCA :: "ca_lib \<Rightarrow> caProvider \<Rightarrow> go_error option \<times> caProvider" where
  "setCA clib p =
     (let ((certPEM, keyPEM), p) = CurrentCertKeyContent p
      in case ParseCertsPEM clib certPEM of
           Inl err \<Rightarrow> (Some (Errorf ''error reading CA cert file'' err), p)
         | Inr certs \<Rightarrow>
             if length certs \<noteq> 1
             then (Some (Error ''error reading CA cert file: expected 1 certificate''), p)
             else (case ParsePrivateKeyPEM clib keyPEM of
                     Inl err \<Rightarrow> (Some (Errorf ''error reading CA key file'' err), p)
                   | Inr (OtherKey _) \<Rightarrow>
                       (Some (Error ''error reading CA key file: key did not implement crypto.Signer''), p)
                   | Inr (CryptoSigner priv) \<Rightarrow>
                       (None, p\<lparr>caValue := Some \<lparr>RawCert = certPEM, RawKey = keyPEM,
                          Certificate = hd certs, PrivateKey = priv,
                          Backdate = 5 * time_Minute, Now = None\<rparr>\<rparr>)))"

definition newCAProvider :: "ca_lib \<Rightarrow> string \<Rightarrow> string \<Rightarrow> go_error + caProvider" where
  "newCAProvider clib caFile caKeyFile =
     (case NewDynamicServingContentFromFiles clib ''csr-controller'' caFile caKeyFile of
        Inl err \<Rightarrow> Inl (Errorf ''error reading CA cert file'' err)
      | Inr ldr \<Rightarrow>
          (case setCA clib \<lparr>caValue = None, caLoader = ldr, reads = 0\<rparr> of
             (Some err, _) \<Rightarrow> Inl err
           | (None, ret) \<Rightarrow> Inr ret))"

definition currentCA ::
  "ca_lib \<Rightarrow> caProvider \<Rightarrow> (CertificateAuthority \<times> go_error option) outcome \<times> caProvider" where
  "currentCA clib p =
     (let ((certPEM, keyPEM), p) = CurrentCertKeyContent p
      in case caValue p of
           None \<Rightarrow> (Panicked ''interface conversion: interface is nil'', p)
         | Some currCA \<Rightarrow>
             if RawCert currCA = certPEM \<and> RawKey currCA = keyPEM
             then (Returned (currCA, None), p)
             else (case setCA clib p of
                     (Some err, p) \<Rightarrow> (Returned (currCA, Some err), p)
                   | (None, p) \<Rightarrow>
                       (case caValue p of
                          None \<Rightarrow> (Panicked ''interface conversion: interface is nil'', p)
                        | Some ca \<Rightarrow> (Returned (ca, None), p))))"

record Signer =
  sg_caProvider :: caProvider
  certTTL :: duration

definition NewSigner :: "ca_lib \<Rightarrow> string \<Rightarrow> string \<Rightarrow> duration \<Rightarrow> go_error + Signer" where
  "NewSigner clib caFile caKeyFile duration =
     (case newCAProvider clib caFile caKeyFile of
        Inl err \<Rightarrow> Inl err
      | Inr p \<Rightarrow> Inr \<lparr>sg_caProvider = p, certTTL = duration\<rparr>)"

definition Signer_duration :: "ca_lib \<Rightarrow> Signer \<Rightarrow> 32 word option \<Rightarrow> duration" where
  "Signer_duration clib s expirationSeconds =
     (case expirationSeconds of
        None \<Rightarrow> certTTL s
      | Some n \<Rightarrow>
          (let min = 10 * time_Minute; requestedDuration = ExpirationSecondsToDuration clib n
           in if duration_less (certTTL s) requestedDuration then certTTL s
              else if duration_less requestedDuration min then min
              else requestedDuration))"

definition Signer_Sign ::
  "ca_lib \<Rightarrow> x509_lib \<Rightarrow> (x509_ExtKeyUsage list \<Rightarrow> x509_ExtKeyUsage list) \<Rightarrow>
   (int \<Rightarrow> go_error + int) \<Rightarrow> time \<Rightarrow> Signer \<Rightarrow> x509_CertificateRequest \<Rightarrow>
   CertificateSigningRequestSpec \<Rightarrow> (go_error + bytes) outcome \<times> Signer" where
  "Signer_Sign clib lib range_ekus rand_Int wall s x509cr spec =
     (case currentCA clib (sg_caProvider s) of
        (Panicked msg, p) \<Rightarrow> (Panicked msg, s\<lparr>sg_caProvider := p\<rparr>)
      | (Returned (_, Some err), p) \<Rightarrow> (Returned (Inl err), s\<lparr>sg_caProvider := p\<rparr>)
      | (Returned (currCA, None), p) \<Rightarrow>
          (case CertificateAuthority_Sign lib rand_Int wall currCA (cr_Raw x509cr)
                  (PermissiveSigningPolicy_apply range_ekus
                     \<lparr>TTL = Signer_duration clib s (spec_ExpirationSeconds spec),
                      Usages = spec_Usages spec\<rparr>) of
             Inl err \<Rightarrow> (Returned (Inl err), s\<lparr>sg_caProvider := p\<rparr>)
           | Inr der \<Rightarrow>
               (Returned (Inr (pem_EncodeToMemory lib ''CERTIFICATE'' der)), s\<lparr>sg_caProvider := p\<rparr>)))"

subsection \<open>The provider's invariant\<close>

text \<open>
  The stored CA is the parse of a cert/key pair the loader delivered at some earlier read.
\<close>

definition loaded_CA :: "ca_lib \<Rightarrow> caProvider \<Rightarrow> nat \<Rightarrow> CertificateAuthority \<Rightarrow> bool" where
  "loaded_CA clib p n ca \<longleftrightarrow>
     n < reads p \<and> caLoader p n = (RawCert ca, RawKey ca) \<and>
     ParseCertsPEM clib (RawCert ca) = Inr [Certificate ca] \<and>
     ParsePrivateKeyPEM clib (RawKey ca) = Inr (CryptoSigner (PrivateKey ca)) \<and>
     Backdate ca = 5 * time_Minute \<and> Now ca = None"

definition caProvider_inv :: "ca_lib \<Rightarrow> caProvider \<Rightarrow> bool" where
  "caProvider_inv clib p \<longleftrightarrow> (\<exists>ca n. caValue p = Some ca \<and> loaded_CA clib p n ca)"

lemma CurrentCertKeyContent_eq [simp]:
  "CurrentCertKeyContent p = (caLoader p (reads p), p\<lparr>reads := Suc (reads p)\<rparr>)"
  by (simp add: CurrentCertKeyContent_def)

lemma length_one_iff: "length xs \<noteq> 1 \<longleftrightarrow> (\<nexists>x. xs = [x])"
  by (simp add: length_Suc_conv)

lemma setCA_error:
  "setCA clib p = (Some err, p') \<Longrightarrow> p' = p\<lparr>reads := Suc (reads p)\<rparr>"
  by (auto simp: setCA_def split: prod.splits sum.splits parsed_key.splits if_splits)

lemma setCA_ok:
  assumes "setCA clib p = (None, p')"
  shows "\<exists>ca. caValue p' = Some ca \<and> loaded_CA clib p' (reads p) ca \<and>
    caLoader p' = caLoader p \<and> reads p' = Suc (reads p)"
  using assms
  by (auto simp: setCA_def loaded_CA_def length_Suc_conv
      split: prod.splits sum.splits parsed_key.splits if_splits)

lemma loaded_CA_later:
  "loaded_CA clib p n ca \<Longrightarrow> caLoader p' = caLoader p \<Longrightarrow> reads p \<le> reads p' \<Longrightarrow>
   loaded_CA clib p' n ca"
  by (auto simp: loaded_CA_def)

lemma newCAProvider_inv: "newCAProvider clib f g = Inr p \<Longrightarrow> caProvider_inv clib p"
  by (auto simp: newCAProvider_def caProvider_inv_def split: sum.splits prod.splits option.splits
      dest!: setCA_ok)

lemma NewSigner_inv:
  "NewSigner clib f g d = Inr s \<Longrightarrow> caProvider_inv clib (sg_caProvider s) \<and> certTTL s = d"
  by (auto simp: NewSigner_def split: sum.splits dest: newCAProvider_inv)

lemma loaded_CA_equal:
  assumes "loaded_CA clib p n ca" and "caLoader p m = (RawCert ca, RawKey ca)" and "m < k"
  shows "loaded_CA clib (p\<lparr>reads := k\<rparr>) m ca"
  using assms by (simp add: loaded_CA_def)

lemma currentCA_inv:
  assumes "caProvider_inv clib p"
  shows "\<exists>ca e p'. currentCA clib p = (Returned (ca, e), p') \<and> caProvider_inv clib p' \<and>
    caLoader p' = caLoader p \<and> reads p < reads p' \<and>
    (e = None \<longrightarrow> caValue p' = Some ca \<and> loaded_CA clib p' (reads p' - 1) ca) \<and>
    (e \<noteq> None \<longrightarrow> caValue p' = caValue p \<and> caValue p = Some ca)"
proof -
  obtain ca n where ca: "caValue p = Some ca" "loaded_CA clib p n ca"
    using assms by (auto simp: caProvider_inv_def)
  define p1 where "p1 = p\<lparr>reads := Suc (reads p)\<rparr>"
  have p1: "caValue p1 = Some ca" "loaded_CA clib p1 n ca" "caLoader p1 = caLoader p"
    "reads p1 = Suc (reads p)"
    using ca loaded_CA_later [of clib p n ca p1] by (simp_all add: p1_def)
  show ?thesis
  proof (cases "caLoader p (reads p) = (RawCert ca, RawKey ca)")
    case True
    then have "currentCA clib p = (Returned (ca, None), p1)"
      using ca by (simp add: currentCA_def p1_def)
    moreover have "loaded_CA clib p1 (reads p) ca"
      unfolding p1_def by (rule loaded_CA_equal [OF ca(2) True]) simp
    ultimately show ?thesis using p1 by (auto simp: caProvider_inv_def)
  next
    case False
    obtain e p2 where set: "setCA clib p1 = (e, p2)" by force
    have cur: "currentCA clib p = (case (e, p2) of
        (Some err, p) \<Rightarrow> (Returned (ca, Some err), p)
      | (None, p) \<Rightarrow> (case caValue p of
          None \<Rightarrow> (Panicked ''interface conversion: interface is nil'', p)
        | Some ca \<Rightarrow> (Returned (ca, None), p)))"
      using False ca set
      by (cases "caLoader p (reads p)") (auto simp: currentCA_def p1_def)
    show ?thesis
    proof (cases e)
      case None
      from setCA_ok [OF set [unfolded None]] obtain ca2
        where "caValue p2 = Some ca2" "loaded_CA clib p2 (reads p1) ca2"
          "caLoader p2 = caLoader p1" "reads p2 = Suc (reads p1)" by blast
      with None cur p1 show ?thesis by (auto simp: caProvider_inv_def)
    next
      case (Some err)
      from setCA_error [OF set [unfolded Some]] have p2: "p2 = p1\<lparr>reads := Suc (reads p1)\<rparr>" .
      have "loaded_CA clib p2 n ca" using p1(2) by (rule loaded_CA_later) (simp_all add: p2)
      with Some cur p1 ca p2 show ?thesis by (auto simp: caProvider_inv_def)
    qed
  qed
qed

text \<open>A library, a loader whose key pair changes after the first read, and the signer on them.\<close>

definition sample_calib :: ca_lib where
  "sample_calib = \<lparr>
     NewDynamicServingContentFromFiles = (\<lambda>_ _ _. Inr (\<lambda>n. if n = 0 then (''cert'', ''k0'') else (''cert'', ''k1''))),
     ParseCertsPEM = (\<lambda>_. Inr [Certificate sample_CA]),
     ParsePrivateKeyPEM = (\<lambda>b. Inr (CryptoSigner b)),
     ExpirationSecondsToDuration = (\<lambda>n. word_of_int (sint n * 1000000000))\<rparr>"

definition sample_signer :: Signer where
  "sample_signer = \<lparr>sg_caProvider = \<lparr>caValue = Some (sample_CA\<lparr>RawKey := ''k0'', PrivateKey := ''k0''\<rparr>),
      caLoader = (\<lambda>n. if n = 0 then (''cert'', ''k0'') else (''cert'', ''k1'')), reads = 1\<rparr>,
      certTTL = time_Hour\<rparr>"

lemma sample_signer_new: "NewSigner sample_calib ''c'' ''k'' time_Hour = Inr sample_signer"
  by (simp add: NewSigner_def newCAProvider_def setCA_def sample_calib_def sample_signer_def
      sample_CA_def)

lemma sample_signer_inv: "caProvider_inv sample_calib (sg_caProvider sample_signer)"
  using NewSigner_inv [OF sample_signer_new] by simp

subsection \<open>The signer in use\<close>

text \<open>The states of a signer: made by \<open>NewSigner\<close>, then one call of \<open>Sign\<close> after another.\<close>

inductive signer_state ::
  "ca_lib \<Rightarrow> x509_lib \<Rightarrow> (x509_ExtKeyUsage list \<Rightarrow> x509_ExtKeyUsage list) \<Rightarrow> Signer \<Rightarrow> bool"
  for clib lib range_ekus where
  new: "NewSigner clib f g d = Inr s \<Longrightarrow> signer_state clib lib range_ekus s"
| sign: "signer_state clib lib range_ekus s \<Longrightarrow>
    Signer_Sign clib lib range_ekus rand_Int wall s cr spec = (r, s') \<Longrightarrow>
    signer_state clib lib range_ekus s'"

lemma Signer_Sign_inv:
  assumes "caProvider_inv clib (sg_caProvider s)"
  shows "\<exists>r s'. Signer_Sign clib lib range_ekus rand_Int wall s cr spec = (Returned r, s') \<and>
    caProvider_inv clib (sg_caProvider s') \<and> certTTL s' = certTTL s"
proof -
  obtain ca e p' where "currentCA clib (sg_caProvider s) = (Returned (ca, e), p')"
    "caProvider_inv clib p'"
    using currentCA_inv [OF assms] by blast
  then show ?thesis
    by (cases e) (auto simp: Signer_Sign_def split: sum.splits)
qed

lemma signer_state_inv:
  "signer_state clib lib range_ekus s \<Longrightarrow> caProvider_inv clib (sg_caProvider s)"
proof (induction rule: signer_state.induct)
  case (new f g d s)
  then show ?case by (blast dest: NewSigner_inv)
next
  case (sign s rand_Int wall cr spec r s')
  from Signer_Sign_inv [OF sign.IH, of lib range_ekus rand_Int wall cr spec] sign.hyps(2)
  show ?case by auto
qed

text \<open>
  Claim C23. In every state of a signer, \<open>currentCA\<close> never panics; without an error it returns
  the pair that the loader delivered at the latest read, parsed and now stored; with an error
  the stored CA is the old one. So a half-written or unreadable CA file never replaces a CA
  that works.
\<close>

theorem currentCA_fresh_or_kept:
  assumes "signer_state clib lib range_ekus s"
  shows "\<exists>ca e p'. currentCA clib (sg_caProvider s) = (Returned (ca, e), p') \<and>
    (e = None \<longrightarrow> caValue p' = Some ca \<and> loaded_CA clib p' (reads p' - 1) ca) \<and>
    (e \<noteq> None \<longrightarrow> caValue p' = caValue (sg_caProvider s) \<and> caValue (sg_caProvider s) = Some ca)"
  using currentCA_inv [OF signer_state_inv [OF assms]] by blast

theorem currentCA_fresh_or_kept_witness:
  "\<exists>ca e p'. currentCA sample_calib (sg_caProvider sample_signer) = (Returned (ca, e), p') \<and>
    RawKey ca = ''k1'' \<and> e = None \<and> loaded_CA sample_calib p' (reads p' - 1) ca"
proof -
  have "signer_state sample_calib sample_lib rev sample_signer"
    using sample_signer_new by (rule signer_state.new)
  from currentCA_fresh_or_kept [OF this] obtain ca e p' where
    cur: "currentCA sample_calib (sg_caProvider sample_signer) = (Returned (ca, e), p')"
    and e: "e = None \<longrightarrow> caValue p' = Some ca \<and> loaded_CA sample_calib p' (reads p' - 1) ca"
    by blast
  have "e = None \<and> RawKey ca = ''k1''"
    using cur by (auto simp: currentCA_def setCA_def sample_signer_def sample_calib_def sample_CA_def
        split: if_splits)
  with cur e show ?thesis by blast
qed

text \<open>Signing never panics in any state of a signer.\<close>

lemma Signer_Sign_returns:
  assumes "signer_state clib lib range_ekus s"
  shows "\<exists>r s'. Signer_Sign clib lib range_ekus rand_Int wall s cr spec = (Returned r, s') \<and>
    signer_state clib lib range_ekus s'"
  using Signer_Sign_inv [OF signer_state_inv [OF assms]] signer_state.sign [OF assms] by blast

subsection \<open>Durations\<close>

text \<open>
  What the code relies on of \<open>csr.ExpirationSecondsToDuration\<close>: it turns seconds into a
  \<open>Duration\<close>. An \<open>int32\<close> number of seconds always fits.
\<close>

definition expiration_in_seconds :: "ca_lib \<Rightarrow> bool" where
  "expiration_in_seconds clib \<longleftrightarrow>
     (\<forall>n. ExpirationSecondsToDuration clib n = word_of_int (sint n) * time_Second)"

lemma expiration_in_seconds_sint:
  assumes "expiration_in_seconds clib"
  shows "sint (ExpirationSecondsToDuration clib n) = sint n * 1000000000"
proof -
  have "- (2 ^ 31) \<le> sint n" "sint n < 2 ^ 31"
    using sint_ge [of n] sint_lt [of n] by simp_all
  then have "sint (word_of_int (sint n * 1000000000) :: 64 word) = sint n * 1000000000"
    by (intro sint64_of_int) simp_all
  moreover have "ExpirationSecondsToDuration clib n = word_of_int (sint n * 1000000000)"
    using assms by (simp add: expiration_in_seconds_def time_Second_def)
  ultimately show ?thesis by simp
qed

lemma sample_calib_seconds: "expiration_in_seconds sample_calib"
  by (simp add: expiration_in_seconds_def sample_calib_def time_Second_def)

lemma sint_ten_minutes: "sint (10 * time_Minute) = 600 * 1000000000"
  by (simp add: time_Minute_def time_Second_def)

text \<open>
  Claim C26. The lifetime of a certificate: without a request the configured one; a request
  above it is cut to it, one below ten minutes is raised to ten minutes, any other is honoured
  to the second. With a configured lifetime of at least ten minutes the result is always
  between ten minutes and the configured lifetime.
\<close>

theorem Signer_duration_bounds:
  assumes "expiration_in_seconds clib" and "duration_le (10 * time_Minute) (certTTL s)"
  shows "sint (Signer_duration clib s e) =
      (case e of None \<Rightarrow> sint (certTTL s)
       | Some n \<Rightarrow> min (sint (certTTL s)) (max (600 * 1000000000) (sint n * 1000000000))) \<and>
    duration_le (10 * time_Minute) (Signer_duration clib s e) \<and>
    duration_le (Signer_duration clib s e) (certTTL s)"
proof -
  have "sint (Signer_duration clib s e) =
      (case e of None \<Rightarrow> sint (certTTL s)
       | Some n \<Rightarrow> min (sint (certTTL s)) (max (600 * 1000000000) (sint n * 1000000000)))"
    using assms(2)
    by (cases e) (auto simp: Signer_duration_def Let_def sint_ten_minutes
        expiration_in_seconds_sint [OF assms(1)])
  with assms(2) show ?thesis by (cases e) (simp_all add: sint_ten_minutes)
qed

theorem Signer_duration_bounds_witness:
  "sint (Signer_duration sample_calib sample_signer (Some 1200)) = 1200 * 1000000000 \<and>
   sint (Signer_duration sample_calib sample_signer (Some 86400)) = 3600 * 1000000000 \<and>
   sint (Signer_duration sample_calib sample_signer (Some (-1))) = 600 * 1000000000"
proof -
  have "duration_le (10 * time_Minute) (certTTL sample_signer)"
    by (simp add: sample_signer_def sint_ten_minutes)
  note b = Signer_duration_bounds [OF sample_calib_seconds this, THEN conjunct1]
  show ?thesis by (simp add: b) (simp add: sample_signer_def)
qed

lemma sint_five_minutes: "sint (5 * time_Minute) = 300 * 1000000000"
  by (simp add: time_Minute_def time_Second_def)

lemma Add_backdate: "Add t (- (5 * time_Minute)) = t - 300 * 1000000000"
  using sint_uminus_duration [of "5 * time_Minute"] by (simp add: Add_def sint_five_minutes)

lemma Signer_duration_above_five_minutes:
  assumes "duration_less (5 * time_Minute) (certTTL s)"
  shows "duration_less (5 * time_Minute) (Signer_duration clib s e)"
  using assms
  by (cases e) (auto simp: Signer_duration_def Let_def sint_ten_minutes sint_five_minutes)

lemma Signer_duration_below:
  "sint (Signer_duration clib s e) \<le> max (sint (certTTL s)) (600 * 1000000000)"
  by (cases e) (auto simp: Signer_duration_def Let_def sint_ten_minutes)

text \<open>A certificate that is returned was made by the CA that is stored afterwards.\<close>

lemma Signer_Sign_Inr:
  assumes "caProvider_inv clib (sg_caProvider s)"
    and "Signer_Sign clib lib range_ekus rand_Int wall s cr spec = (Returned (Inr pem), s')"
  obtains ca der where
    "caValue (sg_caProvider s') = Some ca"
    and "loaded_CA clib (sg_caProvider s') (reads (sg_caProvider s') - 1) ca"
    and "CertificateAuthority_Sign lib rand_Int wall ca (cr_Raw cr)
          (PermissiveSigningPolicy_apply range_ekus
             \<lparr>TTL = Signer_duration clib s (spec_ExpirationSeconds spec),
              Usages = spec_Usages spec\<rparr>) = Inr der"
    and "pem = pem_EncodeToMemory lib ''CERTIFICATE'' der"
proof -
  obtain ca e p' where cur: "currentCA clib (sg_caProvider s) = (Returned (ca, e), p')"
    and e: "e = None \<longrightarrow> caValue p' = Some ca \<and> loaded_CA clib p' (reads p' - 1) ca"
    using currentCA_inv [OF assms(1)] by blast
  show thesis
    using assms(2) cur e that
    by (cases e) (auto simp: Signer_Sign_def split: sum.splits)
qed

text \<open>What a certificate that is returned was made from, with the five minutes of backdating put in.\<close>

lemma Signer_Sign_issued:
  assumes "signer_state clib lib range_ekus s"
    and "Signer_Sign clib lib range_ekus rand_Int wall s cr spec = (Returned (Inr pem), s')"
  obtains ca tmpl cr' der where
    "caValue (sg_caProvider s') = Some ca" and "pem = pem_EncodeToMemory lib ''CERTIFICATE'' der"
    and "ParseCertificateRequest lib (cr_Raw cr) = Inr cr'" and "CheckSignature lib cr' = None"
    and "CreateCertificate lib tmpl (Certificate ca) (cr_PublicKey cr') (PrivateKey ca) = Inr der"
    and "identity_of tmpl = identity_of (request_template (crt_SerialNumber tmpl) (wall - 300 * 1000000000) cr')"
    and "crt_NotAfter tmpl = min (wall - 300 * 1000000000 + sint (Signer_duration clib s (spec_ExpirationSeconds spec)))
           (crt_NotAfter (Certificate ca))"
    and "wall < crt_NotAfter (Certificate ca)"
    and "keyUsagesFromStrings range_ekus (spec_Usages spec) = Inr (crt_KeyUsage tmpl, crt_ExtKeyUsage tmpl)"
    and "\<not> crt_IsCA tmpl"
proof -
  obtain ca der where ca: "caValue (sg_caProvider s') = Some ca"
    and loaded: "loaded_CA clib (sg_caProvider s') (reads (sg_caProvider s') - 1) ca"
    and sign: "CertificateAuthority_Sign lib rand_Int wall ca (cr_Raw cr)
          (PermissiveSigningPolicy_apply range_ekus
             \<lparr>TTL = Signer_duration clib s (spec_ExpirationSeconds spec),
              Usages = spec_Usages spec\<rparr>) = Inr der"
    and pem: "pem = pem_EncodeToMemory lib ''CERTIFICATE'' der"
    using signer_state_inv [OF assms(1)] assms(2) by (rule Signer_Sign_Inr)
  have now: "Sign_now wall ca = wall" "Add wall (- Backdate ca) = wall - 300 * 1000000000"
    using loaded by (simp_all add: loaded_CA_def Sign_now_def Add_backdate)
  obtain tmpl cr' where "ParseCertificateRequest lib (cr_Raw cr) = Inr cr'" "CheckSignature lib cr' = None"
      "CreateCertificate lib tmpl (Certificate ca) (cr_PublicKey cr') (PrivateKey ca) = Inr der"
      "identity_of tmpl = identity_of (request_template (crt_SerialNumber tmpl) (wall - 300 * 1000000000) cr')"
      "crt_NotAfter tmpl = min (Add (wall - 300 * 1000000000) (Signer_duration clib s (spec_ExpirationSeconds spec)))
         (crt_NotAfter (Certificate ca))" "wall < crt_NotAfter (Certificate ca)"
      "keyUsagesFromStrings range_ekus (spec_Usages spec) = Inr (crt_KeyUsage tmpl, crt_ExtKeyUsage tmpl)"
      "crt_BasicConstraintsValid tmpl \<and> \<not> crt_IsCA tmpl"
    using sign by (rule CertificateAuthority_Sign_issued) (simp add: now)
  then show thesis using that [OF ca pem] by (simp add: Add_def)
qed

text \<open>
  Every certificate the signer issues is valid at the moment it is issued and within the lifetime of the CA
  that is stored then: with a configured lifetime above the five minutes of backdating, its validity starts
  five minutes before now, ends after now, not after the CA and at most the configured lifetime (or ten minutes)
  after its start.
\<close>

lemma Signer_Sign_valid:
  assumes "signer_state clib lib range_ekus s"
    and "duration_less (5 * time_Minute) (certTTL s)"
    and "Signer_Sign clib lib range_ekus rand_Int wall s cr spec = (Returned (Inr pem), s')"
  obtains ca tmpl cr' der where "caValue (sg_caProvider s') = Some ca"
    and "pem = pem_EncodeToMemory lib ''CERTIFICATE'' der"
    and "ParseCertificateRequest lib (cr_Raw cr) = Inr cr'" and "CheckSignature lib cr' = None"
    and "CreateCertificate lib tmpl (Certificate ca) (cr_PublicKey cr') (PrivateKey ca) = Inr der"
    and "crt_PublicKey tmpl = cr_PublicKey cr'" and "\<not> crt_IsCA tmpl"
    and "crt_NotBefore tmpl = wall - 300 * 1000000000" and "wall < crt_NotAfter tmpl"
    and "crt_NotAfter tmpl \<le> crt_NotAfter (Certificate ca)"
    and "crt_NotAfter tmpl \<le> crt_NotBefore tmpl + max (sint (certTTL s)) (600 * 1000000000)"
proof -
  obtain ca tmpl cr' der where made: "caValue (sg_caProvider s') = Some ca" "pem = pem_EncodeToMemory lib ''CERTIFICATE'' der"
      "ParseCertificateRequest lib (cr_Raw cr) = Inr cr'" "CheckSignature lib cr' = None"
      "CreateCertificate lib tmpl (Certificate ca) (cr_PublicKey cr') (PrivateKey ca) = Inr der"
    and id: "identity_of tmpl = identity_of (request_template (crt_SerialNumber tmpl) (wall - 300 * 1000000000) cr')"
    and na: "crt_NotAfter tmpl = min (wall - 300 * 1000000000 + sint (Signer_duration clib s (spec_ExpirationSeconds spec)))
           (crt_NotAfter (Certificate ca))" "wall < crt_NotAfter (Certificate ca)"
    and no_ca: "\<not> crt_IsCA tmpl"
    using assms(1,3) by (rule Signer_Sign_issued)
  have id: "crt_NotBefore tmpl = wall - 300 * 1000000000" "crt_PublicKey tmpl = cr_PublicKey cr'"
    using id by (simp_all add: identity_of_def request_template_def)
  have "300 * 1000000000 < sint (Signer_duration clib s (spec_ExpirationSeconds spec))"
    using Signer_duration_above_five_minutes [OF assms(2)] by (simp add: sint_five_minutes)
  then show thesis
    using that [OF made id(2) no_ca id(1)] Signer_duration_below [of clib s "spec_ExpirationSeconds spec"] na
    by (simp add: id(1))
qed

definition sample_spec :: CertificateSigningRequestSpec where
  "sample_spec = \<lparr>spec_Request = ''req'', spec_ExpirationSeconds = Some 1200,
     spec_Usages = [UsageKeyEncipherment, UsageDigitalSignature, UsageServerAuth],
     spec_Username = ''system:node:a'', spec_UID = ''1'', spec_Groups = [''system:nodes''],
     spec_Extra = []\<rparr>"

text \<open>
  Claim C39. The lifetime configured for the signer is not checked against the backdating: with
  a configured lifetime of five minutes or less, a certificate issued without a requested
  lifetime has expired when it is issued, although \<open>Sign\<close> means to refuse to sign a
  certificate that expired in the past.
\<close>

theorem short_lifetime_issues_expired:
  assumes "signer_state clib lib range_ekus s"
    and "duration_le (certTTL s) (5 * time_Minute)" and "spec_ExpirationSeconds spec = None"
    and "Signer_Sign clib lib range_ekus rand_Int wall s cr spec = (Returned (Inr pem), s')"
  shows "\<exists>ca tmpl cr' der. pem = pem_EncodeToMemory lib ''CERTIFICATE'' der \<and>
    caValue (sg_caProvider s') = Some ca \<and> ParseCertificateRequest lib (cr_Raw cr) = Inr cr' \<and>
    CreateCertificate lib tmpl (Certificate ca) (cr_PublicKey cr') (PrivateKey ca) = Inr der \<and>
    crt_NotAfter tmpl \<le> wall"
proof -
  obtain ca tmpl cr' der where made: "caValue (sg_caProvider s') = Some ca"
      "pem = pem_EncodeToMemory lib ''CERTIFICATE'' der" "ParseCertificateRequest lib (cr_Raw cr) = Inr cr'"
      "CreateCertificate lib tmpl (Certificate ca) (cr_PublicKey cr') (PrivateKey ca) = Inr der"
    and na: "crt_NotAfter tmpl = min (wall - 300 * 1000000000 + sint (Signer_duration clib s (spec_ExpirationSeconds spec)))
           (crt_NotAfter (Certificate ca))"
    using assms(1,4) by (rule Signer_Sign_issued)
  have "crt_NotAfter tmpl \<le> wall" using assms(2,3) by (simp add: na Signer_duration_def sint_five_minutes)
  with made show ?thesis by blast
qed

theorem short_lifetime_issues_expired_witness:
  "\<exists>(tmpl :: x509_Certificate) der. ''CERTIFICATEder'' = pem_EncodeToMemory sample_lib ''CERTIFICATE'' der \<and>
     crt_NotAfter tmpl \<le> 0"
proof -
  let ?s = "sample_signer\<lparr>certTTL := time_Minute\<rparr>"
  let ?spec = "sample_spec\<lparr>spec_ExpirationSeconds := None\<rparr>"
  have "NewSigner sample_calib ''c'' ''k'' time_Minute = Inr ?s"
    by (simp add: NewSigner_def newCAProvider_def setCA_def sample_calib_def sample_signer_def
        sample_CA_def)
  then have st: "signer_state sample_calib sample_lib rev ?s" by (rule signer_state.new)
  have ttl: "duration_le (certTTL ?s) (5 * time_Minute)" by (simp add: sint_five_minutes)
  have "fst (Signer_Sign sample_calib sample_lib rev (\<lambda>_. Inr 7) 0 ?s sample_request ?spec) =
      Returned (Inr ''CERTIFICATEder'')"
    by code_simp
  then obtain s' where "Signer_Sign sample_calib sample_lib rev (\<lambda>_. Inr 7) 0 ?s sample_request ?spec =
      (Returned (Inr ''CERTIFICATEder''), s')"
    by (metis prod.collapse)
  from short_lifetime_issues_expired [OF st ttl _ this] show ?thesis by auto
qed

end
