(* ===== verification/CSR_Controller.thy ===== *)
theory CSR_Controller
  imports CSR_Helper Signer
begin

text \<open>
  \<open>controllers/certificatesigningrequest_controller.go\<close>: the reconciler that signs and approves
  kubelet serving certificates.

  The API server is a parameter: each call is a function of the calls made before it (the log)
  and of its arguments, so it may answer differently every time. The log records each call
  with its arguments and its answer, in order; it is what the safety theorems speak about.
  A \<open>Get\<close> of an object that does not exist leaves the local variable at its zero value and
  \<open>client.IgnoreNotFound\<close> drops that error. A successful status patch overwrites the local
  object with the server's answer. Log messages of \<open>logrus\<close> are not modelled.
\<close>

record ResourceAttributes =
  ra_Group :: string
  ra_Resource :: string
  ra_Verb :: string

record SubjectAccessReview =
  sar_User :: string
  sar_UID :: string
  sar_Groups :: "string list"
  sar_Extra :: "(string \<times> string list) list"
  sar_ResourceAttributes :: ResourceAttributes

datatype get_result = Got CertificateSigningRequest | NotFound | GetError go_error

datatype event_type = EventTypeNormal | EventTypeWarning

datatype api_event =
    ApiGet string get_result
  | ApiSubjectAccessReview SubjectAccessReview "go_error + bool"
  | ApiStatusPatch CertificateSigningRequest CertificateSigningRequest
      "go_error + CertificateSigningRequest"
  | ApiUpdateApproval string CertificateSigningRequest "go_error option"
  | ApiEvent CertificateSigningRequest event_type string string

record csr_env =
  kube_Get :: "api_event list \<Rightarrow> string \<Rightarrow> get_result"
  kube_CreateSubjectAccessReview :: "api_event list \<Rightarrow> SubjectAccessReview \<Rightarrow> go_error + bool"
  kube_StatusPatch :: "api_event list \<Rightarrow> CertificateSigningRequest \<Rightarrow>
    CertificateSigningRequest \<Rightarrow> go_error + CertificateSigningRequest"
  kube_UpdateApproval :: "api_event list \<Rightarrow> string \<Rightarrow> CertificateSigningRequest \<Rightarrow> go_error option"
  env_calib :: ca_lib
  env_x509 :: x509_lib
  env_range :: "x509_ExtKeyUsage list \<Rightarrow> x509_ExtKeyUsage list"
  env_rand :: "api_event list \<Rightarrow> int \<Rightarrow> go_error + int"
  env_now :: "api_event list \<Rightarrow> time"

record CertificateSigningRequestSigningReconciler =
  r_Signer :: Signer
  r_log :: "api_event list"

type_synonym reconciler = CertificateSigningRequestSigningReconciler

definition api_emit :: "api_event \<Rightarrow> reconciler \<Rightarrow> reconciler" where
  "api_emit e r = r\<lparr>r_log := r_log r @ [e]\<rparr>"

record csrRecognizer =
  recognize :: "CertificateSigningRequest \<Rightarrow> x509_CertificateRequest \<Rightarrow> bool"
  permission :: ResourceAttributes
  successMessage :: string

definition recognizers :: "csrRecognizer list" where
  "recognizers =
     [\<lparr>recognize = isNodeServingCert,
       permission = \<lparr>ra_Group = ''certificates.k8s.io'',
                     ra_Resource = ''certificatesigningrequests'', ra_Verb = ''create''\<rparr>,
       successMessage = ''Auto approving kubelet serving certificate after SubjectAccessReview.''\<rparr>]"

definition zero_CSR :: CertificateSigningRequest where
  "zero_CSR = \<lparr>csr_Name = '''', csr_DeletionTimestamp = None,
     csr_Spec = \<lparr>spec_Request = [], spec_ExpirationSeconds = None, spec_Usages = [],
       spec_Username = '''', spec_UID = '''', spec_Groups = [], spec_Extra = []\<rparr>,
     csr_Status = \<lparr>status_Conditions = [], status_Certificate = None\<rparr>\<rparr>"

definition access_review :: "CertificateSigningRequest \<Rightarrow> ResourceAttributes \<Rightarrow> SubjectAccessReview" where
  "access_review csr rattrs =
     \<lparr>sar_User = spec_Username (csr_Spec csr), sar_UID = spec_UID (csr_Spec csr),
      sar_Groups = spec_Groups (csr_Spec csr),
      sar_Extra = foldl (\<lambda>extra (k, v). map_put k v extra) [] (spec_Extra (csr_Spec csr)),
      sar_ResourceAttributes = rattrs\<rparr>"

definition authorize :: "csr_env \<Rightarrow> CertificateSigningRequest \<Rightarrow> ResourceAttributes \<Rightarrow>
    reconciler \<Rightarrow> (go_error + bool) \<times> reconciler" where
  "authorize env csr rattrs r =
     (let sar = access_review csr rattrs;
          res = kube_CreateSubjectAccessReview env (r_log r) sar
      in (res, api_emit (ApiSubjectAccessReview sar res) r))"

definition appendApprovalCondition ::
  "time \<Rightarrow> CertificateSigningRequest \<Rightarrow> string \<Rightarrow> CertificateSigningRequest" where
  "appendApprovalCondition now csr message =
     csr\<lparr>csr_Status := (csr_Status csr)\<lparr>status_Conditions := status_Conditions (csr_Status csr) @
       [\<lparr>cond_Type = CertificateApproved, cond_Status = True,
         cond_Reason = ''AutoApproved by kucero'', cond_Message = message,
         cond_LastUpdateTime = now\<rparr>]\<rparr>\<rparr>"

definition set_certificate :: "bytes \<Rightarrow> CertificateSigningRequest \<Rightarrow> CertificateSigningRequest" where
  "set_certificate crt csr = csr\<lparr>csr_Status := (csr_Status csr)\<lparr>status_Certificate := Some crt\<rparr>\<rparr>"

text \<open>
  Signing and approving one recognised, authorised request: sign, patch the status, approve,
  record the event. The result carries the object as it is afterwards.
\<close>

definition sign_and_approve ::
  "csr_env \<Rightarrow> csrRecognizer \<Rightarrow> CertificateSigningRequest \<Rightarrow> x509_CertificateRequest \<Rightarrow> reconciler \<Rightarrow>
   (go_error + CertificateSigningRequest) outcome \<times> reconciler" where
  "sign_and_approve env recognizer csr x509cr r =
     (case Signer_Sign (env_calib env) (env_x509 env) (env_range env) (env_rand env (r_log r))
             (env_now env (r_log r)) (r_Signer r) x509cr (csr_Spec csr) of
        (Panicked msg, sg) \<Rightarrow> (Panicked msg, r\<lparr>r_Signer := sg\<rparr>)
      | (Returned (Inl err), sg) \<Rightarrow>
          (Returned (Inl (Errorf ''error auto signing csr'' err)), r\<lparr>r_Signer := sg\<rparr>)
      | (Returned (Inr crt), sg) \<Rightarrow>
          (let r = r\<lparr>r_Signer := sg\<rparr>; csr' = set_certificate crt csr;
               patched = kube_StatusPatch env (r_log r) csr csr';
               r = api_emit (ApiStatusPatch csr csr' patched) r
           in case patched of
                Inl err \<Rightarrow> (Returned (Inl (Errorf ''error patching CSR'' err)), r)
              | Inr csr \<Rightarrow>
                  (let csr = appendApprovalCondition (env_now env (r_log r)) csr (successMessage recognizer);
                       updated = kube_UpdateApproval env (r_log r) (csr_Name csr) csr;
                       r = api_emit (ApiUpdateApproval (csr_Name csr) csr updated) r
                   in case updated of
                        Some err \<Rightarrow> (Returned (Inl (Errorf ''error updating approval for csr'' err)), r)
                      | None \<Rightarrow>
                          (Returned (Inr csr),
                           api_emit (ApiEvent csr EventTypeNormal ''Signed'' ''The CSR has been signed'') r))))"

text \<open>The loop over the recognizers, from the first on; \<open>Returned None\<close> is the nil error.\<close>

fun try_recognizers ::
  "csr_env \<Rightarrow> csrRecognizer list \<Rightarrow> CertificateSigningRequest \<Rightarrow> x509_CertificateRequest \<Rightarrow> reconciler \<Rightarrow>
   go_error option outcome \<times> reconciler" where
  "try_recognizers env [] csr x509cr r = (Returned None, r)"
| "try_recognizers env (recognizer # rest) csr x509cr r =
     (if \<not> recognize recognizer csr x509cr then try_recognizers env rest csr x509cr r
      else (case authorize env csr (permission recognizer) r of
              (Inl err, r) \<Rightarrow> (Returned (Some (Errorf ''error SubjectAccessReview'' err)), r)
            | (Inr False, r) \<Rightarrow> (Returned (Some (Error ''SubjectAccessReview failed'')), r)
            | (Inr True, r) \<Rightarrow>
                (case sign_and_approve env recognizer csr x509cr r of
                   (Panicked msg, r) \<Rightarrow> (Panicked msg, r)
                 | (Returned (Inl err), r) \<Rightarrow> (Returned (Some err), r)
                 | (Returned (Inr csr), r) \<Rightarrow> try_recognizers env rest csr x509cr r)))"

definition Reconcile :: "csr_env \<Rightarrow> string \<Rightarrow> reconciler \<Rightarrow> go_error option outcome \<times> reconciler" where
  "Reconcile env name r =
     (let got = kube_Get env (r_log r) name; r = api_emit (ApiGet name got) r
      in case got of
           GetError err \<Rightarrow> (Returned (Some (Errorf ''error getting CSR'' err)), r)
         | _ \<Rightarrow>
             (let csr = (case got of Got csr \<Rightarrow> csr | _ \<Rightarrow> zero_CSR)
              in if csr_DeletionTimestamp csr \<noteq> None then (Returned None, r)
                 else if status_Certificate (csr_Status csr) \<noteq> None then (Returned None, r)
                 else (case ParseCSR (env_x509 env) (spec_Request (csr_Spec csr)) of
                         Inl err \<Rightarrow>
                           (Returned None,
                            api_emit (ApiEvent csr EventTypeWarning ''SigningFailed''
                              ''Unable to parse the CSR request'') r)
                       | Inr x509cr \<Rightarrow> try_recognizers env recognizers csr x509cr r)))"

text \<open>
  \<open>SetupWithManager\<close>: the discovery helper, the preferred version of the resource and the
  registration with the manager are calls of libraries.
\<close>

datatype csr_version = CSRv1beta1 | CSRv1

definition SetupWithManager ::
  "go_error option \<Rightarrow> (string \<Rightarrow> string \<Rightarrow> go_error + string) \<Rightarrow> (csr_version \<Rightarrow> go_error option) \<Rightarrow>
   go_error option" where
  "SetupWithManager newHelper resourceFor complete =
     (case newHelper of
        Some err \<Rightarrow> Some err
      | None \<Rightarrow>
          (case resourceFor ''certificates.k8s.io'' ''CertificateSigningRequest'' of
             Inl err \<Rightarrow> Some err
           | Inr version \<Rightarrow>
               if version = ''v1beta1'' then complete CSRv1beta1
               else if version = ''v1'' then complete CSRv1
               else Some (Error ''unsupported certificates.k8s.io'')))"

subsection \<open>What one reconciliation may do to the API server\<close>

text \<open>A pending request that decodes and is recognised as a kubelet serving certificate.\<close>

definition serving_request ::
  "csr_env \<Rightarrow> get_result \<Rightarrow> CertificateSigningRequest \<Rightarrow> x509_CertificateRequest \<Rightarrow> bool" where
  "serving_request env got csr cr \<longleftrightarrow>
     got = Got csr \<and> csr_DeletionTimestamp csr = None \<and> status_Certificate (csr_Status csr) = None \<and>
     ParseCSR (env_x509 env) (spec_Request (csr_Spec csr)) = Inr cr \<and> isNodeServingCert csr cr"

definition create_csr_review :: "CertificateSigningRequest \<Rightarrow> SubjectAccessReview" where
  "create_csr_review csr = access_review csr
     \<lparr>ra_Group = ''certificates.k8s.io'', ra_Resource = ''certificatesigningrequests'', ra_Verb = ''create''\<rparr>"

abbreviation allowed_review :: "CertificateSigningRequest \<Rightarrow> api_event" where
  "allowed_review csr \<equiv> ApiSubjectAccessReview (create_csr_review csr) (Inr True)"

text \<open>The certificate that the signer makes at this point of the run, with its clock and random numbers.\<close>

definition signed_with ::
  "csr_env \<Rightarrow> reconciler \<Rightarrow> CertificateSigningRequest \<Rightarrow> x509_CertificateRequest \<Rightarrow> bytes \<Rightarrow> bool" where
  "signed_with env r csr cr crt \<longleftrightarrow>
     (\<exists>sg'. Signer_Sign (env_calib env) (env_x509 env) (env_range env) (env_rand env (r_log r))
        (env_now env (r_log r)) (r_Signer r) cr (csr_Spec csr) = (Returned (Inr crt), sg'))"

text \<open>The object sent for approval: the server's answer to the patch with one more condition.\<close>

definition approved_object :: "csr_env \<Rightarrow> api_event list \<Rightarrow> CertificateSigningRequest \<Rightarrow> CertificateSigningRequest" where
  "approved_object env log csr =
     appendApprovalCondition (env_now env log) csr
       ''Auto approving kubelet serving certificate after SubjectAccessReview.''"

definition pending :: "get_result \<Rightarrow> CertificateSigningRequest \<Rightarrow> bool" where
  "pending got csr \<longleftrightarrow> (case got of Got c \<Rightarrow> csr = c | NotFound \<Rightarrow> csr = zero_CSR | GetError _ \<Rightarrow> False) \<and>
     csr_DeletionTimestamp csr = None \<and> status_Certificate (csr_Status csr) = None"

text \<open>
  The abstract specification: the API calls after the \<open>Get\<close>, as a trace from the state \<open>r\<close> right
  after it. The certificate goes into the status before the approval, and both only follow an access
  review that allowed.
\<close>

inductive reconcile_trace :: "csr_env \<Rightarrow> reconciler \<Rightarrow> get_result \<Rightarrow> api_event list \<Rightarrow> bool"
  for env r got where
  ignored: "(\<And>csr. pending got csr \<Longrightarrow> \<exists>cr.
      ParseCSR (env_x509 env) (spec_Request (csr_Spec csr)) = Inr cr \<and> \<not> isNodeServingCert csr cr) \<Longrightarrow>
    reconcile_trace env r got []"
| unreadable: "pending got csr \<Longrightarrow> ParseCSR (env_x509 env) (spec_Request (csr_Spec csr)) = Inl err \<Longrightarrow>
    reconcile_trace env r got
      [ApiEvent csr EventTypeWarning ''SigningFailed'' ''Unable to parse the CSR request'']"
| refused: "serving_request env got csr cr \<Longrightarrow> ans \<noteq> Inr True \<Longrightarrow>
    reconcile_trace env r got [ApiSubjectAccessReview (create_csr_review csr) ans]"
| unsigned: "serving_request env got csr cr \<Longrightarrow>
    (\<nexists>crt. signed_with env (api_emit (allowed_review csr) r) csr cr crt) \<Longrightarrow>
    reconcile_trace env r got [allowed_review csr]"
| unpatched: "serving_request env got csr cr \<Longrightarrow>
    signed_with env (api_emit (allowed_review csr) r) csr cr crt \<Longrightarrow>
    reconcile_trace env r got [allowed_review csr, ApiStatusPatch csr (set_certificate crt csr) (Inl err)]"
| unapproved: "serving_request env got csr cr \<Longrightarrow>
    signed_with env (api_emit (allowed_review csr) r) csr cr crt \<Longrightarrow>
    patch = ApiStatusPatch csr (set_certificate crt csr) (Inr csr') \<Longrightarrow>
    c = approved_object env (r_log r @ [allowed_review csr, patch]) csr' \<Longrightarrow>
    reconcile_trace env r got [allowed_review csr, patch, ApiUpdateApproval (csr_Name csr') c (Some err)]"
| approved: "serving_request env got csr cr \<Longrightarrow>
    signed_with env (api_emit (allowed_review csr) r) csr cr crt \<Longrightarrow>
    patch = ApiStatusPatch csr (set_certificate crt csr) (Inr csr') \<Longrightarrow>
    c = approved_object env (r_log r @ [allowed_review csr, patch]) csr' \<Longrightarrow>
    reconcile_trace env r got
      [allowed_review csr, patch, ApiUpdateApproval (csr_Name csr') c None,
       ApiEvent c EventTypeNormal ''Signed'' ''The CSR has been signed'']"

lemma r_log_api_emit [simp]:
  "r_log (api_emit e r) = r_log r @ [e]" "r_Signer (api_emit e r) = r_Signer r"
  by (simp_all add: api_emit_def)

lemma csr_Name_append [simp]:
  "csr_Name (appendApprovalCondition now csr msg) = csr_Name csr"
  "csr_Name (approved_object env log csr) = csr_Name csr"
  by (simp_all add: appendApprovalCondition_def approved_object_def)

lemma approved_object_recognizer:
  "appendApprovalCondition (env_now env log) csr (successMessage (hd recognizers)) = approved_object env log csr"
  by (simp add: approved_object_def recognizers_def)

lemma sign_and_approve_cases:
  assumes "sign_and_approve env (hd recognizers) csr cr r = (res, r')"
  obtains (unsigned) "\<nexists>crt. signed_with env r csr cr crt" and "r_log r' = r_log r" and "\<And>c. res \<noteq> Returned (Inr c)"
  | (unpatched) crt err where "signed_with env r csr cr crt"
      and "r_log r' = r_log r @ [ApiStatusPatch csr (set_certificate crt csr) (Inl err)]"
      and "\<And>c. res \<noteq> Returned (Inr c)"
  | (unapproved) crt patch csr' c err where "signed_with env r csr cr crt"
      and "patch = ApiStatusPatch csr (set_certificate crt csr) (Inr csr')"
      and "c = approved_object env (r_log r @ [patch]) csr'"
      and "r_log r' = r_log r @ [patch, ApiUpdateApproval (csr_Name csr') c (Some err)]"
      and "\<And>c. res \<noteq> Returned (Inr c)"
  | (approved) crt patch csr' c where "signed_with env r csr cr crt"
      and "patch = ApiStatusPatch csr (set_certificate crt csr) (Inr csr')"
      and "c = approved_object env (r_log r @ [patch]) csr'"
      and "r_log r' = r_log r @ [patch, ApiUpdateApproval (csr_Name csr') c None,
        ApiEvent c EventTypeNormal ''Signed'' ''The CSR has been signed'']"
      and "res = Returned (Inr c)"
proof -
  obtain out sg where sign: "Signer_Sign (env_calib env) (env_x509 env) (env_range env)
      (env_rand env (r_log r)) (env_now env (r_log r)) (r_Signer r) cr (csr_Spec csr) = (out, sg)"
    by force
  show thesis
  proof (cases "\<exists>crt. out = Returned (Inr crt)")
    case False
    then have "\<nexists>crt. signed_with env r csr cr crt" using sign by (simp add: signed_with_def)
    then show thesis
      using assms sign False
      by (intro unsigned; cases out rule: outcome.exhaust)
        (auto simp: sign_and_approve_def split: sum.splits)
  next
    case True
    then obtain crt where crt: "out = Returned (Inr crt)" by blast
    with sign have "signed_with env r csr cr crt" unfolding signed_with_def by blast
    note cases = unpatched [OF this] unapproved [OF this refl refl] approved [OF this refl refl]
    show thesis
      using assms sign crt
      by (auto simp: sign_and_approve_def approved_object_recognizer Let_def
          split: sum.splits option.splits intro: cases)
  qed
qed

lemma recognizers_single:
  "try_recognizers env recognizers csr cr r =
     (if \<not> isNodeServingCert csr cr then (Returned None, r)
      else (case authorize env csr (permission (hd recognizers)) r of
              (Inl err, r) \<Rightarrow> (Returned (Some (Errorf ''error SubjectAccessReview'' err)), r)
            | (Inr False, r) \<Rightarrow> (Returned (Some (Error ''SubjectAccessReview failed'')), r)
            | (Inr True, r) \<Rightarrow>
                (case sign_and_approve env (hd recognizers) csr cr r of
                   (Panicked msg, r) \<Rightarrow> (Panicked msg, r)
                 | (Returned (Inl err), r) \<Rightarrow> (Returned (Some err), r)
                 | (Returned (Inr csr), r) \<Rightarrow> (Returned None, r))))"
  by (simp add: recognizers_def split: prod.splits sum.splits outcome.splits bool.splits)

lemma authorize_eq:
  "authorize env csr (permission (hd recognizers)) r =
     (kube_CreateSubjectAccessReview env (r_log r) (create_csr_review csr),
      api_emit (ApiSubjectAccessReview (create_csr_review csr)
        (kube_CreateSubjectAccessReview env (r_log r) (create_csr_review csr))) r)"
  by (simp add: authorize_def create_csr_review_def recognizers_def Let_def)

text \<open>A recognised request: the trace from the access review on.\<close>

lemma try_recognizers_serving:
  assumes req: "serving_request env got csr cr"
    and run: "try_recognizers env recognizers csr cr r = (res, r')"
  shows "\<exists>es. r_log r' = r_log r @ es \<and> reconcile_trace env r got es"
proof -
  let ?rv = "create_csr_review csr"
  define ans where "ans = kube_CreateSubjectAccessReview env (r_log r) ?rv"
  define r1 where "r1 = api_emit (ApiSubjectAccessReview ?rv ans) r"
  have serving: "isNodeServingCert csr cr" using req by (simp add: serving_request_def)
  show ?thesis
  proof (cases "ans = Inr True")
    case False
    then have "r' = r1"
      using run serving
      by (cases ans) (auto simp: recognizers_single authorize_eq ans_def [symmetric] r1_def)
    with reconcile_trace.refused [OF req False] show ?thesis by (auto simp: r1_def)
  next
    case True
    obtain out r2 where sa: "sign_and_approve env (hd recognizers) csr cr r1 = (out, r2)" by force
    have "r' = r2"
      using run serving sa True
      by (auto simp: recognizers_single authorize_eq ans_def [symmetric] r1_def
          split: outcome.splits sum.splits)
    moreover from sa have "\<exists>es. r_log r2 = r_log r1 @ es \<and>
        reconcile_trace env r got (ApiSubjectAccessReview ?rv (Inr True) # es)"
    proof (cases rule: sign_and_approve_cases)
      case unsigned
      with reconcile_trace.unsigned [OF req] show ?thesis by (auto simp: r1_def True)
    next
      case (unpatched crt err)
      with reconcile_trace.unpatched [OF req] show ?thesis by (auto simp: r1_def True)
    next
      case (unapproved crt patch csr' c err)
      with reconcile_trace.unapproved [OF req] show ?thesis by (auto simp: r1_def True)
    next
      case (approved crt patch csr' c)
      with reconcile_trace.approved [OF req] show ?thesis by (auto simp: r1_def True)
    qed
    ultimately show ?thesis using True by (auto simp: r1_def)
  qed
qed

lemma zero_CSR_not_serving: "\<not> isNodeServingCert zero_CSR cr"
  by (simp add: isNodeServingCert_def zero_CSR_def hasExactUsages_def kubeletServerUsages_def)

lemma Reconcile_pending:
  assumes "pending (kube_Get env (r_log r) name) csr"
  shows "Reconcile env name r =
    (let r = api_emit (ApiGet name (kube_Get env (r_log r) name)) r
     in case ParseCSR (env_x509 env) (spec_Request (csr_Spec csr)) of
       Inl err \<Rightarrow> (Returned None, api_emit (ApiEvent csr EventTypeWarning ''SigningFailed''
                     ''Unable to parse the CSR request'') r)
     | Inr x509cr \<Rightarrow> try_recognizers env recognizers csr x509cr r)"
  using assms by (auto simp: Reconcile_def pending_def Let_def split: get_result.splits)

lemma Reconcile_not_pending:
  assumes "\<And>csr. \<not> pending (kube_Get env (r_log r) name) csr"
  shows "snd (Reconcile env name r) = api_emit (ApiGet name (kube_Get env (r_log r) name)) r"
proof (cases "kube_Get env (r_log r) name")
  case (Got c)
  with assms [of c] show ?thesis by (auto simp: Reconcile_def pending_def Let_def)
next
  case NotFound
  with assms [of zero_CSR] show ?thesis by (simp add: pending_def zero_CSR_def)
qed (simp add: Reconcile_def)

lemma Reconcile_trace_lemma:
  assumes "Reconcile env name r = (res, r')"
  shows "\<exists>es. r_log r' = r_log r @ ApiGet name (kube_Get env (r_log r) name) # es \<and>
    reconcile_trace env (api_emit (ApiGet name (kube_Get env (r_log r) name)) r) (kube_Get env (r_log r) name) es"
proof (cases "\<exists>csr. pending (kube_Get env (r_log r) name) csr")
  case False
  then have "r' = api_emit (ApiGet name (kube_Get env (r_log r) name)) r"
    using assms Reconcile_not_pending [of env r name] by (metis snd_conv)
  moreover have "reconcile_trace env (api_emit (ApiGet name (kube_Get env (r_log r) name)) r)
      (kube_Get env (r_log r) name) []"
    using False by (intro reconcile_trace.ignored) blast
  ultimately show ?thesis by auto
next
  case True
  then obtain csr where csr: "pending (kube_Get env (r_log r) name) csr" ..
  define r1 where "r1 = api_emit (ApiGet name (kube_Get env (r_log r) name)) r"
  show ?thesis
  proof (cases "ParseCSR (env_x509 env) (spec_Request (csr_Spec csr))")
    case (Inl err)
    with assms csr reconcile_trace.unreadable [OF csr Inl] show ?thesis
      by (auto simp: Reconcile_pending [OF csr])
  next
    case (Inr cr)
    have run: "try_recognizers env recognizers csr cr r1 = (res, r')"
      using assms Inr by (simp add: Reconcile_pending [OF csr] r1_def)
    show ?thesis
    proof (cases "isNodeServingCert csr cr")
      case False
      then have "r' = r1" using run by (simp add: recognizers_single)
      moreover have "reconcile_trace env r1 (kube_Get env (r_log r) name) []"
      proof (rule reconcile_trace.ignored)
        fix c assume "pending (kube_Get env (r_log r) name) c"
        with csr have "c = csr" by (auto simp: pending_def split: get_result.splits)
        with Inr False show "\<exists>cr. ParseCSR (env_x509 env) (spec_Request (csr_Spec c)) = Inr cr \<and>
            \<not> isNodeServingCert c cr" by blast
      qed
      ultimately show ?thesis by (auto simp: r1_def)
    next
      case True
      then have "serving_request env (kube_Get env (r_log r) name) csr cr"
        using csr Inr zero_CSR_not_serving
        by (auto simp: serving_request_def pending_def split: get_result.splits)
      from try_recognizers_serving [OF this run] obtain es where
        "r_log r' = r_log r1 @ es" "reconcile_trace env r1 (kube_Get env (r_log r) name) es" by blast
      then show ?thesis by (auto simp: r1_def)
    qed
  qed
qed

text \<open>
  Claim C12. Every run of \<open>Reconcile\<close> follows the abstract trace specification: after one
  \<open>Get\<close> it does nothing to an object that is deleted, already signed or not recognised,
  reports an undecodable one, and otherwise asks for an access review, patches the certificate
  into the status and approves, strictly in this order and stopping at the first failure.
\<close>

theorem Reconcile_refines_trace:
  "\<exists>es. r_log (snd (Reconcile env name r)) =
      r_log r @ ApiGet name (kube_Get env (r_log r) name) # es \<and>
    reconcile_trace env (api_emit (ApiGet name (kube_Get env (r_log r) name)) r) (kube_Get env (r_log r) name) es"
  by (rule Reconcile_trace_lemma) (rule prod.collapse [symmetric])

subsection \<open>What is signed\<close>

text \<open>
  What the code relies on of \<open>x509.ParseCertificateRequest\<close>: the field \<open>Raw\<close> holds the complete
  DER content it was given, so parsing \<open>Raw\<close> again, as the signer does, gives the same request.
\<close>

definition raw_is_input :: "x509_lib \<Rightarrow> bool" where
  "raw_is_input lib \<longleftrightarrow> (\<forall>b cr. ParseCertificateRequest lib b = Inr cr \<longrightarrow> cr_Raw cr = b)"

lemma raw_is_input_ParseCSR:
  "raw_is_input lib \<Longrightarrow> ParseCSR lib b = Inr cr \<Longrightarrow> ParseCertificateRequest lib (cr_Raw cr) = Inr cr"
  by (auto simp: raw_is_input_def ParseCSR_def split: option.splits sum.splits if_splits)

lemma raw_is_input_sample: "raw_is_input sample_lib"
  by (auto simp: raw_is_input_def sample_lib_def)

lemma bit_four: "bit (4 :: 64 word) n \<longleftrightarrow> n = 2"
proof -
  have "bit (4 :: 64 word) n = bit (push_bit 2 (1 :: 64 word)) n" by simp
  also have "\<dots> \<longleftrightarrow> n = 2" by (subst bit_push_bit_iff) (auto simp: bit_1_iff)
  finally show ?thesis .
qed

text \<open>The three kubelet server usages, or some of them, translate to at most these bits.\<close>

lemma serving_usages:
  assumes "\<And>xs. mset (range_ekus xs) = mset xs"
    and "keyUsagesFromStrings range_ekus us = Inr (ku, ekus)"
    and "set us \<subseteq> set kubeletServerUsages"
  shows "bit ku n \<Longrightarrow> n = 0 \<or> n = 2" and "set ekus \<subseteq> {ExtKeyUsageServerAuth}"
proof -
  have ku: "ku = fst (foldl usage_step (0, [], []) us)"
    and ekus: "ekus = sorted_list_of_set (ext_usages_of us)"
    using assms(2) by (auto simp: keyUsagesFromStrings_eq [OF assms(1)] split: if_splits)
  show "n = 0 \<or> n = 2" if "bit ku n"
  proof -
    from that obtain u v where u: "u \<in> set us" "keyUsageDict u = Some v" "bit v n"
      by (auto simp: ku usage_bits)
    with assms(3) have "v = 4 \<or> v = 1"
      by (auto simp: kubeletServerUsages_def keyUsageDict_def key_usage_bits)
    with u(3) bit_four [of n] bit_1_iff [of n] show ?thesis by blast
  qed
  have "v = ExtKeyUsageServerAuth" if "u \<in> set kubeletServerUsages" "extKeyUsageDict u = Some v" for u v
    using that by (auto simp: kubeletServerUsages_def extKeyUsageDict_def)
  then have "ext_usages_of us \<subseteq> {ExtKeyUsageServerAuth}"
    using assms(3) unfolding ext_usages_of_def by blast
  then show "set ekus \<subseteq> {ExtKeyUsageServerAuth}" by (simp add: ekus)
qed

lemma trace_status_patch:
  assumes "reconcile_trace env r got es" and "es = pre @ ApiStatusPatch csr csr' ans # post"
  obtains cr crt where "serving_request env got csr cr"
    and "signed_with env (api_emit (allowed_review csr) r) csr cr crt"
    and "csr' = set_certificate crt csr" and "pre = [allowed_review csr]"
  using assms by (cases rule: reconcile_trace.cases) (auto simp: Cons_eq_append_conv)

lemma trace_approval:
  assumes "reconcile_trace env r got es" and "ApiUpdateApproval n c u \<in> set es"
  obtains csr cr crt patch c' post where "serving_request env got csr cr"
    and "signed_with env (api_emit (allowed_review csr) r) csr cr crt"
    and "patch = ApiStatusPatch csr (set_certificate crt csr) (Inr c')"
    and "es = [allowed_review csr, patch] @ ApiUpdateApproval n c u # post"
    and "c = approved_object env (r_log r @ [allowed_review csr, patch]) c'" and "n = csr_Name c'"
    and "\<forall>e \<in> set post. \<nexists>n c u. e = ApiUpdateApproval n c u"
  using assms by (cases rule: reconcile_trace.cases) fastforce+

text \<open>The API calls of one reconciliation.\<close>

definition reconcile_calls :: "csr_env \<Rightarrow> string \<Rightarrow> reconciler \<Rightarrow> api_event list" where
  "reconcile_calls env name r =
     drop (length (r_log r)) (r_log (snd (Reconcile env name r)))"

lemma reconcile_calls_trace:
  obtains es where "reconcile_calls env name r = ApiGet name (kube_Get env (r_log r) name) # es"
    and "reconcile_trace env (api_emit (ApiGet name (kube_Get env (r_log r) name)) r) (kube_Get env (r_log r) name) es"
proof -
  obtain es where "r_log (snd (Reconcile env name r)) =
      r_log r @ ApiGet name (kube_Get env (r_log r) name) # es"
    "reconcile_trace env (api_emit (ApiGet name (kube_Get env (r_log r) name)) r) (kube_Get env (r_log r) name) es"
    using Reconcile_trace_lemma by (metis prod.collapse)
  then show thesis by (intro that) (simp_all add: reconcile_calls_def)
qed

text \<open>A status patch: what was done before it, and the signature it carries.\<close>

lemma reconcile_status_patch:
  assumes "reconcile_calls env name r = pre @ ApiStatusPatch csr csr' ans # post"
  obtains cr crt sg' where "serving_request env (Got csr) csr cr" and "pre = [ApiGet name (Got csr), allowed_review csr]"
    and "csr' = set_certificate crt csr"
    and "Signer_Sign (env_calib env) (env_x509 env) (env_range env) (env_rand env (r_log r @ pre))
           (env_now env (r_log r @ pre)) (r_Signer r) cr (csr_Spec csr) = (Returned (Inr crt), sg')"
proof -
  let ?got = "kube_Get env (r_log r) name"
  obtain es where calls: "reconcile_calls env name r = ApiGet name ?got # es"
    and trace: "reconcile_trace env (api_emit (ApiGet name ?got) r) ?got es"
    by (rule reconcile_calls_trace)
  obtain pre' where pre: "pre = ApiGet name ?got # pre'" and es: "es = pre' @ ApiStatusPatch csr csr' ans # post"
    using assms calls by (cases pre) auto
  obtain cr crt where req: "serving_request env ?got csr cr"
    and signed: "signed_with env (api_emit (allowed_review csr) (api_emit (ApiGet name ?got) r)) csr cr crt"
    and csr': "csr' = set_certificate crt csr" and pre': "pre' = [allowed_review csr]"
    using trace es by (rule trace_status_patch)
  have got: "?got = Got csr" using req by (simp add: serving_request_def)
  with req signed pre pre' show thesis
    using that [OF _ _ csr'] by (auto simp: signed_with_def)
qed

text \<open>An approval: the access review and the accepted patch come right before it.\<close>

lemma reconcile_approval:
  assumes "reconcile_calls env name r = pre @ ApiUpdateApproval n c u # post"
  obtains csr csr' c' where "pre = [ApiGet name (Got csr), allowed_review csr, ApiStatusPatch csr csr' (Inr c')]"
    and "n = csr_Name c'" and "c = approved_object env (r_log r @ pre) c'"
proof -
  let ?got = "kube_Get env (r_log r) name"
  obtain es where calls: "reconcile_calls env name r = ApiGet name ?got # es"
    and trace: "reconcile_trace env (api_emit (ApiGet name ?got) r) ?got es"
    by (rule reconcile_calls_trace)
  obtain pre' where pre: "pre = ApiGet name ?got # pre'" and es: "es = pre' @ ApiUpdateApproval n c u # post"
    using assms calls by (cases pre) auto
  have "ApiUpdateApproval n c u \<in> set es" by (simp add: es)
  with trace show thesis
  proof (rule trace_approval)
    fix csr cr crt patch c' post'
    assume req: "serving_request env ?got csr cr" and patch: "patch = ApiStatusPatch csr (set_certificate crt csr) (Inr c')"
      and split: "es = [allowed_review csr, patch] @ ApiUpdateApproval n c u # post'"
      and c: "c = approved_object env (r_log (api_emit (ApiGet name ?got) r) @ [allowed_review csr, patch]) c'"
      and n: "n = csr_Name c'" and last: "\<forall>e \<in> set post'. \<nexists>n c u. e = ApiUpdateApproval n c u"
    have "pre' = [allowed_review csr, patch]"
      using es split last patch by (fastforce simp: Cons_eq_append_conv append_eq_Cons_conv)
    moreover have "?got = Got csr" using req by (simp add: serving_request_def)
    ultimately show thesis using that n c by (simp add: pre patch)
  qed
qed

text \<open>The certificate of a serving request that the signer returned.\<close>

lemma serving_certificate:
  assumes "signer_state (env_calib env) (env_x509 env) (env_range env) sg"
    and "\<And>xs. mset (env_range env xs) = mset xs" and "raw_is_input (env_x509 env)"
    and req: "serving_request env got csr cr"
    and sign: "Signer_Sign (env_calib env) (env_x509 env) (env_range env) rand_Int wall sg cr (csr_Spec csr) =
      (Returned (Inr crt), sg')"
  shows "\<exists>tmpl der ca. crt = pem_EncodeToMemory (env_x509 env) ''CERTIFICATE'' der \<and>
    caValue (sg_caProvider sg') = Some ca \<and>
    CreateCertificate (env_x509 env) tmpl (Certificate ca) (cr_PublicKey cr) (PrivateKey ca) = Inr der \<and>
    crt_PublicKey tmpl = cr_PublicKey cr \<and> crt_Subject tmpl = cr_Subject cr \<and>
    Organization (crt_Subject tmpl) = [''system:nodes''] \<and>
    CommonName (crt_Subject tmpl) = spec_Username (csr_Spec csr) \<and>
    HasPrefix (CommonName (crt_Subject tmpl)) ''system:node:'' \<and>
    (\<forall>n. bit (crt_KeyUsage tmpl) n \<longrightarrow> n = 0 \<or> n = 2) \<and>
    set (crt_ExtKeyUsage tmpl) \<subseteq> {ExtKeyUsageServerAuth} \<and> \<not> crt_IsCA tmpl"
proof -
  have parse: "ParseCSR (env_x509 env) (spec_Request (csr_Spec csr)) = Inr cr"
    and serving: "isNodeServingCert csr cr"
    using req by (simp_all add: serving_request_def)
  obtain ca tmpl cr2 der where made: "caValue (sg_caProvider sg') = Some ca"
      "crt = pem_EncodeToMemory (env_x509 env) ''CERTIFICATE'' der"
    and cr2: "ParseCertificateRequest (env_x509 env) (cr_Raw cr) = Inr cr2"
    and create: "CreateCertificate (env_x509 env) tmpl (Certificate ca) (cr_PublicKey cr2) (PrivateKey ca) = Inr der"
    and id: "identity_of tmpl = identity_of (request_template (crt_SerialNumber tmpl) (wall - 300 * 1000000000) cr2)"
    and ku: "keyUsagesFromStrings (env_range env) (spec_Usages (csr_Spec csr)) =
       Inr (crt_KeyUsage tmpl, crt_ExtKeyUsage tmpl)"
    and no_ca: "\<not> crt_IsCA tmpl"
    using assms(1) sign by (rule Signer_Sign_issued)
  have "cr2 = cr" using cr2 raw_is_input_ParseCSR [OF assms(3) parse] by simp
  have subset: "set (spec_Usages (csr_Spec csr)) \<subseteq> set kubeletServerUsages"
    using serving by (simp add: isNodeServingCert_iff hasExactUsages_iff)
  note usages = serving_usages [where range_ekus = "env_range env", OF assms(2) ku subset]
  have "crt_Subject tmpl = cr_Subject cr" "crt_PublicKey tmpl = cr_PublicKey cr"
    using id by (simp_all add: identity_of_def request_template_def \<open>cr2 = cr\<close>)
  moreover have "Organization (cr_Subject cr) = [''system:nodes'']"
    "CommonName (cr_Subject cr) = spec_Username (csr_Spec csr)"
    "HasPrefix (CommonName (cr_Subject cr)) ''system:node:''"
    using serving by (simp_all add: isNodeServingCert_def split: if_splits)
  ultimately show ?thesis
    using made create usages no_ca unfolding \<open>cr2 = cr\<close>
    by (intro exI [of _ tmpl] exI [of _ der] exI [of _ ca] conjI) simp_all
qed

text \<open>
  Claim C6. Sign before approve: when one reconciliation sends an approval, the calls before it
  are exactly the read of a pending serving request, an access review that allowed its sender
  and a status patch with the certificate the signer made right after that review, which the server accepted; the
  approval adds one condition to the object the server returned, and there is no second approval.
\<close>

theorem Reconcile_signs_before_approving:
  assumes "ApiUpdateApproval n c u \<in> set (reconcile_calls env name r)"
  shows "\<exists>csr cr crt c' before post.
    before = [ApiGet name (Got csr), ApiSubjectAccessReview (create_csr_review csr) (Inr True)] \<and>
    serving_request env (kube_Get env (r_log r) name) csr cr \<and>
    signed_with env (r\<lparr>r_log := r_log r @ before\<rparr>) csr cr crt \<and>
    reconcile_calls env name r =
      before @ [ApiStatusPatch csr (set_certificate crt csr) (Inr c')] @ ApiUpdateApproval n c u # post \<and>
    c = approved_object env (r_log r @ before @ [ApiStatusPatch csr (set_certificate crt csr) (Inr c')]) c' \<and>
    n = csr_Name c' \<and> (\<forall>e \<in> set post. \<nexists>n c u. e = ApiUpdateApproval n c u)"
proof -
  let ?got = "kube_Get env (r_log r) name"
  obtain es where calls: "reconcile_calls env name r = ApiGet name ?got # es"
    and trace: "reconcile_trace env (api_emit (ApiGet name ?got) r) ?got es"
    by (rule reconcile_calls_trace)
  from assms have "ApiUpdateApproval n c u \<in> set es" by (simp add: calls)
  with trace show ?thesis
  proof (rule trace_approval)
    fix csr cr crt patch c' post
    assume req: "serving_request env ?got csr cr"
      and signed: "signed_with env (api_emit (allowed_review csr) (api_emit (ApiGet name ?got) r)) csr cr crt"
      and rest: "patch = ApiStatusPatch csr (set_certificate crt csr) (Inr c')"
        "es = [allowed_review csr, patch] @ ApiUpdateApproval n c u # post"
        "c = approved_object env (r_log (api_emit (ApiGet name ?got) r) @ [allowed_review csr, patch]) c'"
        "n = csr_Name c'" "\<forall>e \<in> set post. \<nexists>n c u. e = ApiUpdateApproval n c u"
    have got: "?got = Got csr" using req by (simp add: serving_request_def)
    show ?thesis
      using req signed rest unfolding calls got
      by (intro exI [of _ csr] exI [of _ cr] exI [of _ crt] exI [of _ c'] exI [of _ post]
          exI [of _ "[ApiGet name (Got csr), allowed_review csr]"] conjI) (simp_all add: api_emit_def)
  qed
qed

subsection \<open>Witnesses\<close>

definition sample_csr_env :: csr_env where
  "sample_csr_env = \<lparr>kube_Get = (\<lambda>_ _. Got (sample_csr kubeletServerUsages)),
     kube_CreateSubjectAccessReview = (\<lambda>_ _. Inr True),
     kube_StatusPatch = (\<lambda>_ _ c. Inr c), kube_UpdateApproval = (\<lambda>_ _ _. None),
     env_calib = sample_calib, env_x509 = sample_lib, env_range = rev,
     env_rand = (\<lambda>_ _. Inr 7), env_now = (\<lambda>_. 0)\<rparr>"

definition sample_reconciler :: reconciler where
  "sample_reconciler = \<lparr>r_Signer = sample_signer, r_log = []\<rparr>"

definition sample_approved :: CertificateSigningRequest where
  "sample_approved = appendApprovalCondition 0
     (set_certificate ''CERTIFICATEder'' (sample_csr kubeletServerUsages))
     ''Auto approving kubelet serving certificate after SubjectAccessReview.''"

lemma sample_calls:
  "reconcile_calls sample_csr_env ''csr-1'' sample_reconciler =
     [ApiGet ''csr-1'' (Got (sample_csr kubeletServerUsages)),
      ApiSubjectAccessReview (create_csr_review (sample_csr kubeletServerUsages)) (Inr True),
      ApiStatusPatch (sample_csr kubeletServerUsages)
        (set_certificate ''CERTIFICATEder'' (sample_csr kubeletServerUsages))
        (Inr (set_certificate ''CERTIFICATEder'' (sample_csr kubeletServerUsages))),
      ApiUpdateApproval ''csr-1'' sample_approved None,
      ApiEvent sample_approved EventTypeNormal ''Signed'' ''The CSR has been signed'']"
  by code_simp

lemma sample_reconciler_state:
  "signer_state (env_calib sample_csr_env) (env_x509 sample_csr_env) (env_range sample_csr_env)
     (r_Signer sample_reconciler)"
  using signer_state.new [OF sample_signer_new]
  by (simp add: sample_csr_env_def sample_reconciler_def)

theorem Reconcile_signs_before_approving_witness:
  "ApiUpdateApproval ''csr-1'' sample_approved None
     \<in> set (reconcile_calls sample_csr_env ''csr-1'' sample_reconciler) \<and>
   (\<exists>csr crt c' post. reconcile_calls sample_csr_env ''csr-1'' sample_reconciler =
      [ApiGet ''csr-1'' (Got csr), ApiSubjectAccessReview (create_csr_review csr) (Inr True),
       ApiStatusPatch csr (set_certificate crt csr) (Inr c')] @
      ApiUpdateApproval ''csr-1'' sample_approved None # post)"
proof -
  have call: "ApiUpdateApproval ''csr-1'' sample_approved None
     \<in> set (reconcile_calls sample_csr_env ''csr-1'' sample_reconciler)"
    by (simp add: sample_calls)
  from Reconcile_signs_before_approving [OF call] call show ?thesis by force
qed

text \<open>A serving request goes through the access review to \<open>sign_and_approve\<close>.\<close>

lemma Reconcile_serving:
  assumes "serving_request env (kube_Get env (r_log r) name) csr cr"
  defines "r0 \<equiv> api_emit (ApiGet name (Got csr)) r"
  defines "ans \<equiv> kube_CreateSubjectAccessReview env (r_log r0) (create_csr_review csr)"
  defines "r1 \<equiv> api_emit (ApiSubjectAccessReview (create_csr_review csr) ans) r0"
  shows "Reconcile env name r =
    (case ans of
       Inl err \<Rightarrow> (Returned (Some (Errorf ''error SubjectAccessReview'' err)), r1)
     | Inr False \<Rightarrow> (Returned (Some (Error ''SubjectAccessReview failed'')), r1)
     | Inr True \<Rightarrow>
         (case sign_and_approve env (hd recognizers) csr cr r1 of
            (Panicked msg, r) \<Rightarrow> (Panicked msg, r)
          | (Returned (Inl err), r) \<Rightarrow> (Returned (Some err), r)
          | (Returned (Inr csr), r) \<Rightarrow> (Returned None, r)))"
proof -
  have got: "kube_Get env (r_log r) name = Got csr"
    and parse: "ParseCSR (env_x509 env) (spec_Request (csr_Spec csr)) = Inr cr"
    and serving: "isNodeServingCert csr cr" and pend: "pending (kube_Get env (r_log r) name) csr"
    using assms(1) by (simp_all add: serving_request_def pending_def)
  then show ?thesis
    unfolding r1_def ans_def r0_def
    by (simp add: Reconcile_pending [OF pend] recognizers_single authorize_eq split: sum.splits bool.splits)
qed

subsection \<open>Outcomes\<close>

text \<open>
  Claim C17. The controller does its work: a serving request whose sender is allowed, that can
  be signed and whose writes the server accepts is signed, approved and reported in one
  reconciliation, which returns no error.
\<close>

theorem Reconcile_approves:
  assumes "serving_request env (kube_Get env (r_log r) name) csr cr"
    and "\<And>log. kube_CreateSubjectAccessReview env log (create_csr_review csr) = Inr True"
    and "\<And>log. \<exists>crt sg. Signer_Sign (env_calib env) (env_x509 env) (env_range env) (env_rand env log)
           (env_now env log) (r_Signer r) cr (csr_Spec csr) = (Returned (Inr crt), sg)"
    and "\<And>log c. \<exists>c'. kube_StatusPatch env log csr c = Inr c'"
    and "\<And>log n c. kube_UpdateApproval env log n c = None"
  shows "fst (Reconcile env name r) = Returned None \<and>
    (\<exists>crt c' patch c. signed_with env (r\<lparr>r_log := r_log r @ [ApiGet name (Got csr), allowed_review csr]\<rparr>) csr cr crt \<and>
      patch = ApiStatusPatch csr (set_certificate crt csr) (Inr c') \<and>
      c = approved_object env (r_log r @ [ApiGet name (Got csr), allowed_review csr, patch]) c' \<and>
      reconcile_calls env name r =
        [ApiGet name (Got csr), allowed_review csr, patch, ApiUpdateApproval (csr_Name c') c None,
         ApiEvent c EventTypeNormal ''Signed'' ''The CSR has been signed''])"
proof -
  define r1 where "r1 = api_emit (ApiSubjectAccessReview (create_csr_review csr) (Inr True))
      (api_emit (ApiGet name (Got csr)) r)"
  obtain out r2 where sa: "sign_and_approve env (hd recognizers) csr cr r1 = (out, r2)" by force
  then have rec: "Reconcile env name r = (case (out, r2) of
       (Panicked msg, r) \<Rightarrow> (Panicked msg, r)
     | (Returned (Inl err), r) \<Rightarrow> (Returned (Some err), r)
     | (Returned (Inr csr), r) \<Rightarrow> (Returned None, r))"
    by (simp add: Reconcile_serving [OF assms(1)] assms(2) r1_def)
  obtain crt sg where sign: "Signer_Sign (env_calib env) (env_x509 env) (env_range env)
      (env_rand env (r_log r1)) (env_now env (r_log r1)) (r_Signer r1) cr (csr_Spec csr)
      = (Returned (Inr crt), sg)"
    using assms(3) [of "r_log r1"] by (auto simp: r1_def)
  obtain c' where c': "kube_StatusPatch env (r_log r1) csr (set_certificate crt csr) = Inr c'"
    using assms(4) by blast
  define patch where "patch = ApiStatusPatch csr (set_certificate crt csr) (Inr c')"
  define c where "c = approved_object env (r_log r1 @ [patch]) c'"
  from sa have out: "out = Returned (Inr c)"
    and log: "r_log r2 = r_log r1 @ [patch, ApiUpdateApproval (csr_Name c') c None,
         ApiEvent c EventTypeNormal ''Signed'' ''The CSR has been signed'']"
    unfolding sign_and_approve_def sign
    by (auto simp: c' assms(5) Let_def approved_object_recognizer patch_def c_def)
  have "signed_with env r1 csr cr crt" using sign by (auto simp: signed_with_def)
  moreover have "r1 = r\<lparr>r_log := r_log r @ [ApiGet name (Got csr), allowed_review csr]\<rparr>"
    by (simp add: r1_def api_emit_def)
  ultimately show ?thesis
    using log c_def by (auto simp: rec out reconcile_calls_def patch_def)
qed

theorem Reconcile_approves_witness:
  "fst (Reconcile sample_csr_env ''csr-1'' sample_reconciler) = Returned None"
proof -
  let ?csr = "sample_csr kubeletServerUsages"
  let ?cr = "sample_request\<lparr>cr_Raw := ''req''\<rparr>"
  have req: "serving_request sample_csr_env (kube_Get sample_csr_env (r_log sample_reconciler) ''csr-1'') ?csr ?cr"
    by (simp add: serving_request_def sample_csr_env_def sample_csr_def ParseCSR_def sample_lib_def
        isNodeServingCert_def hasExactUsages_def kubeletServerUsages_def sample_request_def HasPrefix_def)
  have "fst (Signer_Sign sample_calib sample_lib rev (\<lambda>_. Inr 7) 0 sample_signer ?cr (csr_Spec ?csr)) =
      Returned (Inr ''CERTIFICATEder'')"
    by code_simp
  then have sign: "\<exists>crt sg. Signer_Sign (env_calib sample_csr_env) (env_x509 sample_csr_env)
      (env_range sample_csr_env) (env_rand sample_csr_env log) (env_now sample_csr_env log)
      (r_Signer sample_reconciler) ?cr (csr_Spec ?csr) = (Returned (Inr crt), sg)" for log
    by (simp add: sample_csr_env_def sample_reconciler_def) (metis prod.collapse)
  show ?thesis
    by (rule Reconcile_approves [OF req _ sign, THEN conjunct1]) (simp_all add: sample_csr_env_def)
qed

text \<open>A reconciler whose signer works and has the lifetime \<open>d\<close> configured; it stays one.\<close>

definition usable :: "csr_env \<Rightarrow> duration \<Rightarrow> reconciler \<Rightarrow> bool" where
  "usable env d r \<longleftrightarrow>
     signer_state (env_calib env) (env_x509 env) (env_range env) (r_Signer r) \<and> certTTL (r_Signer r) = d"

lemma usable_api_emit [simp]: "usable env d (api_emit e r) = usable env d r"
  by (simp add: usable_def)

lemma sign_and_approve_usable:
  assumes "usable env d r"
  shows "\<exists>v r'. sign_and_approve env rc csr cr r = (Returned v, r') \<and> usable env d r'"
proof -
  have st: "signer_state (env_calib env) (env_x509 env) (env_range env) (r_Signer r)" "certTTL (r_Signer r) = d"
    using assms by (simp_all add: usable_def)
  obtain v sg where sign: "Signer_Sign (env_calib env) (env_x509 env) (env_range env)
      (env_rand env (r_log r)) (env_now env (r_log r)) (r_Signer r) cr (csr_Spec csr) = (Returned v, sg)"
    and "certTTL sg = d"
    using Signer_Sign_inv [OF signer_state_inv [OF st(1)]] st(2) by metis
  with signer_state.sign [OF st(1) sign] have "usable env d (r\<lparr>r_Signer := sg\<rparr>)" by (simp add: usable_def)
  with sign show ?thesis
    by (cases v) (auto simp: sign_and_approve_def Let_def split: sum.splits option.splits)
qed

lemma Reconcile_usable:
  assumes "usable env d r"
  shows "\<exists>e r'. Reconcile env name r = (Returned e, r') \<and> usable env d r'"
proof -
  have loop: "\<exists>e r'. try_recognizers env recognizers csr cr r0 = (Returned e, r') \<and> usable env d r'"
    if u: "usable env d r0" for csr cr r0
  proof -
    let ?ans = "kube_CreateSubjectAccessReview env (r_log r0) (create_csr_review csr)"
    obtain v r' where "sign_and_approve env (hd recognizers) csr cr
        (api_emit (ApiSubjectAccessReview (create_csr_review csr) ?ans) r0) = (Returned v, r')" "usable env d r'"
      using sign_and_approve_usable [of env d "api_emit (ApiSubjectAccessReview (create_csr_review csr) ?ans) r0"] u
      by fastforce
    with u show ?thesis
      by (auto simp: recognizers_single authorize_eq split: sum.splits bool.splits)
  qed
  show ?thesis
    using loop assms by (auto simp: Reconcile_def Let_def split: get_result.splits sum.splits)
qed

text \<open>
  A CSR that no longer exists is not ignored: \<open>IgnoreNotFound\<close> drops the error, and the reconciler goes on with an
  empty object, for which (its request is empty, in which \<open>pem.Decode\<close> finds no block) it records a warning event.
\<close>

lemma Reconcile_not_found:
  assumes "kube_Get env (r_log r) name = NotFound" and "pem_Decode (env_x509 env) [] = None"
  shows "fst (Reconcile env name r) = Returned None \<and>
    reconcile_calls env name r = [ApiGet name NotFound,
      ApiEvent zero_CSR EventTypeWarning ''SigningFailed'' ''Unable to parse the CSR request'']"
  using assms
  by (simp add: reconcile_calls_def Reconcile_def ParseCSR_def Let_def) (simp add: zero_CSR_def)

subsection \<open>A failed approval\<close>

lemma sign_and_approve_failed:
  assumes "sign_and_approve env rc csr cr r = (out, r')"
  shows "\<exists>es. r_log r' = r_log r @ es \<and>
    (ApiUpdateApproval n c (Some e) \<in> set es \<longrightarrow> (\<exists>err. out = Returned (Inl err)))"
  using assms unfolding sign_and_approve_def
  by (auto simp: Let_def split: prod.splits sum.splits option.splits outcome.splits)

lemma Reconcile_signed:
  assumes "kube_Get env (r_log r) name = Got csr" and "status_Certificate (csr_Status csr) \<noteq> None"
  shows "fst (Reconcile env name r) = Returned None \<and> reconcile_calls env name r = [ApiGet name (Got csr)]"
  using assms by (auto simp: Reconcile_def reconcile_calls_def Let_def)

text \<open>
  Claim C37. A failed approval is never made good: when the certificate was written into the
  status but the update of the approval failed, \<open>Reconcile\<close> returns an error so that it is
  called again; but then, the API server having kept the certificate, the request counts as
  already signed, and the second reconciliation returns without an error and without approving.
\<close>

theorem failed_approval_not_retried:
  assumes "ApiUpdateApproval n c (Some e) \<in> set (reconcile_calls env name r)"
    and "ApiStatusPatch csr csr' (Inr c') \<in> set (reconcile_calls env name r)"
    and "status_Certificate (csr_Status c') \<noteq> None"
    and "kube_Get env (r_log (snd (Reconcile env name r))) name = Got c'"
  shows "(\<exists>err. fst (Reconcile env name r) = Returned (Some err)) \<and>
    fst (Reconcile env name (snd (Reconcile env name r))) = Returned None \<and>
    reconcile_calls env name (snd (Reconcile env name r)) = [ApiGet name (Got c')]"
proof -
  obtain es where calls: "reconcile_calls env name r = ApiGet name (kube_Get env (r_log r) name) # es"
    and trace: "reconcile_trace env (api_emit (ApiGet name (kube_Get env (r_log r) name)) r) (kube_Get env (r_log r) name) es"
    by (rule reconcile_calls_trace)
  have "ApiUpdateApproval n c (Some e) \<in> set es" using assms(1) by (simp add: calls)
  with trace obtain csr0 cr where req: "serving_request env (kube_Get env (r_log r) name) csr0 cr"
    by (rule trace_approval)
  define r1 where "r1 = api_emit (ApiSubjectAccessReview (create_csr_review csr0) (Inr True))
      (api_emit (ApiGet name (Got csr0)) r)"
  obtain out r2 where sa: "sign_and_approve env (hd recognizers) csr0 cr r1 = (out, r2)" by force
  obtain es' where es': "r_log r2 = r_log r1 @ es'"
    "ApiUpdateApproval n c (Some e) \<in> set es' \<longrightarrow> (\<exists>err. out = Returned (Inl err))"
    using sign_and_approve_failed [OF sa] by blast
  have "\<exists>err. fst (Reconcile env name r) = Returned (Some err)"
    using assms(1) sa es' unfolding reconcile_calls_def Reconcile_serving [OF req]
    by (auto simp: r1_def split: sum.splits bool.splits prod.splits outcome.splits)
  with Reconcile_signed [OF assms(4,3)] show ?thesis by blast
qed

text \<open>A server that refuses every approval and keeps the patched object.\<close>

definition stubborn_csr_env :: csr_env where
  "stubborn_csr_env = sample_csr_env\<lparr>
     kube_Get := (\<lambda>log _. if log = [] then Got (sample_csr kubeletServerUsages)
                  else Got (set_certificate ''CERTIFICATEder'' (sample_csr kubeletServerUsages))),
     kube_UpdateApproval := (\<lambda>_ _ _. Some (Error ''conflict''))\<rparr>"

lemma stubborn_calls:
  "reconcile_calls stubborn_csr_env ''csr-1'' sample_reconciler =
     [ApiGet ''csr-1'' (Got (sample_csr kubeletServerUsages)),
      ApiSubjectAccessReview (create_csr_review (sample_csr kubeletServerUsages)) (Inr True),
      ApiStatusPatch (sample_csr kubeletServerUsages)
        (set_certificate ''CERTIFICATEder'' (sample_csr kubeletServerUsages))
        (Inr (set_certificate ''CERTIFICATEder'' (sample_csr kubeletServerUsages))),
      ApiUpdateApproval ''csr-1'' sample_approved (Some (Error ''conflict''))]"
  by code_simp

theorem failed_approval_not_retried_witness:
  "\<exists>err. fst (Reconcile stubborn_csr_env ''csr-1'' sample_reconciler) = Returned (Some err) \<and>
     fst (Reconcile stubborn_csr_env ''csr-1'' (snd (Reconcile stubborn_csr_env ''csr-1'' sample_reconciler))) = Returned None"
proof -
  let ?c = "set_certificate ''CERTIFICATEder'' (sample_csr kubeletServerUsages)"
  have calls: "ApiUpdateApproval ''csr-1'' sample_approved (Some (Error ''conflict''))
      \<in> set (reconcile_calls stubborn_csr_env ''csr-1'' sample_reconciler)"
    "ApiStatusPatch (sample_csr kubeletServerUsages) ?c (Inr ?c)
      \<in> set (reconcile_calls stubborn_csr_env ''csr-1'' sample_reconciler)"
    by (simp_all add: stubborn_calls)
  have kept: "status_Certificate (csr_Status ?c) \<noteq> None" by (simp add: set_certificate_def)
  have "r_log (snd (Reconcile stubborn_csr_env ''csr-1'' sample_reconciler)) \<noteq> []" by code_simp
  then have got: "kube_Get stubborn_csr_env (r_log (snd (Reconcile stubborn_csr_env ''csr-1'' sample_reconciler))) ''csr-1'' = Got ?c"
    by (simp add: stubborn_csr_env_def)
  from failed_approval_not_retried [OF calls kept got] show ?thesis by blast
qed

end
