(* ===== verification/CSR_Manager.thy ===== *)
theory CSR_Manager
  imports CSR_Controller Flags
begin

text \<open>
  The goroutine that \<open>rotateCertificateWhenNeeded\<close> (cmd/kucero/main.go) starts on a control-plane
  node: it makes a controller-runtime manager, the signer and the reconciler, registers the
  reconciler and runs the manager. The manager is a parameter: whether it can be made and
  registered, which requests it hands to \<open>Reconcile\<close>, one after another (a request whose
  reconciliation failed may come again), and how it ends.

  The goroutine shares no variable with the certificate loop: the loop works on the node and the lock,
  the goroutine on CSR objects and the signer.
\<close>

record ctrl_Options =
  MetricsBindAddress :: string
  LeaderElection :: bool
  LeaderElectionNamespace :: string
  LeaderElectionID :: string

record manager_env =
  GetConfigOrDie :: "go_error option"  \<comment> \<open>an error ends the process\<close>
  NewManager :: "ctrl_Options \<Rightarrow> go_error option"
  NewForConfigOrDie :: "go_error option"  \<comment> \<open>an error panics\<close>
  velero_NewHelper :: "go_error option"
  velero_ResourceFor :: "string \<Rightarrow> string \<Rightarrow> go_error + string"
  ctrl_Complete :: "csr_version \<Rightarrow> go_error option"
  mgr_requests :: "string list"
  mgr_Start :: "go_error option"

text \<open>
  The requests of the manager's queue, one reconciliation each; a panic ends the process. The manager
  knows its reconciler by the interface \<open>reconcile.Reconciler\<close> only.
\<close>

fun reconcile_all :: "(string \<Rightarrow> 's \<Rightarrow> 'e outcome \<times> 's) \<Rightarrow> string list \<Rightarrow> 's \<Rightarrow> unit outcome \<times> 's" where
  "reconcile_all reconcile [] r = (Returned (), r)"
| "reconcile_all reconcile (name # names) r =
     (case reconcile name r of
        (Panicked m, r) \<Rightarrow> (Panicked m, r)
      | (Returned err, r) \<Rightarrow> reconcile_all reconcile names r)"

text \<open>\<open>Returned (Some err)\<close> is \<open>logrus.Fatal(err)\<close>; the reconciler is there once it was made.\<close>

definition controller_goroutine ::
  "manager_env \<Rightarrow> csr_env \<Rightarrow> flags \<Rightarrow> go_error option outcome \<times> reconciler option" where
  "controller_goroutine menv env fl =
     (case GetConfigOrDie menv of Some err \<Rightarrow> (Returned (Some err), None) | None \<Rightarrow>
     (case NewManager menv \<lparr>MetricsBindAddress = metricsAddr fl, LeaderElection = True,
             LeaderElectionNamespace = dsNamespace fl, LeaderElectionID = leaderElectionID fl\<rparr> of
        Some err \<Rightarrow> (Returned (Some err), None)
      | None \<Rightarrow>
     (case NewSigner (env_calib env) (caCertPath fl) (caKeyPath fl) (flag_duration fl) of
        Inl err \<Rightarrow> (Returned (Some err), None)
      | Inr signer \<Rightarrow>
     (case NewForConfigOrDie menv of Some err \<Rightarrow> (Panicked ''NewForConfigOrDie'', None) | None \<Rightarrow>
     (let r = \<lparr>r_Signer = signer, r_log = []\<rparr>
      in case SetupWithManager (velero_NewHelper menv) (velero_ResourceFor menv) (ctrl_Complete menv) of
           Some err \<Rightarrow> (Returned (Some err), Some r)
         | None \<Rightarrow>
             (case reconcile_all (Reconcile env) (mgr_requests menv) r of
                (Panicked m, r) \<Rightarrow> (Panicked m, Some r)
              | (Returned _, r) \<Rightarrow> (Returned (mgr_Start menv), Some r)))))))"

text \<open>The goroutine is only started where the flag asks for it on a control-plane node.\<close>

definition start_controller ::
  "manager_env \<Rightarrow> csr_env \<Rightarrow> flags \<Rightarrow> bool \<Rightarrow> (go_error option outcome \<times> reconciler option) option" where
  "start_controller menv env fl isControlPlaneNode =
     (if enableKubeletCSRController fl \<and> isControlPlaneNode
      then Some (controller_goroutine menv env fl) else None)"

subsection \<open>A run of the queue\<close>

text \<open>
  What is promised of a reconciler: in a good state it returns, in a good state again, and its log of
  calls only grows. Then a run of any queue returns, and each call of the run was made at its place in
  the log by one reconciliation that started in a good state.
\<close>

locale reconciler_interface =
  fixes reconcile :: "string \<Rightarrow> 's \<Rightarrow> 'e outcome \<times> 's"
    and good :: "'s \<Rightarrow> bool"
    and log_of :: "'s \<Rightarrow> 'c list"
    and calls :: "string \<Rightarrow> 's \<Rightarrow> 'c list"
  assumes reconcile_returns: "good s \<Longrightarrow> \<exists>e s'. reconcile name s = (Returned e, s') \<and> good s'"
    and reconcile_log: "log_of (snd (reconcile name s)) = log_of s @ calls name s"
begin

lemma queue_returns:
  "good s \<Longrightarrow> \<exists>s'. reconcile_all reconcile names s = (Returned (), s') \<and> good s'"
proof (induction names arbitrary: s)
  case (Cons name names)
  then show ?case using reconcile_returns [of s name] by fastforce
qed simp

lemma queue_log:
  "good s \<Longrightarrow> reconcile_all reconcile names s = (Returned (), s') \<Longrightarrow> \<exists>es. log_of s' = log_of s @ es"
proof (induction names arbitrary: s)
  case (Cons name names)
  obtain e s1 where step: "reconcile name s = (Returned e, s1)" "good s1"
    using reconcile_returns [OF Cons.prems(1)] by blast
  with Cons reconcile_log [of name s] show ?case by fastforce
qed simp

lemma queue_turn:
  assumes "good s" and "reconcile_all reconcile names s = (Returned (), s')"
    and "log_of s' = pre @ c # post" and "length (log_of s) \<le> length pre"
  shows "\<exists>name s0 calls1 calls2. good s0 \<and> calls name s0 = calls1 @ c # calls2 \<and> pre = log_of s0 @ calls1"
  using assms
proof (induction names arbitrary: s)
  case Nil
  then show ?case by simp
next
  case (Cons name names)
  obtain e s1 where step: "reconcile name s = (Returned e, s1)" "good s1"
    using reconcile_returns [OF Cons.prems(1)] by blast
  have log1: "log_of s1 = log_of s @ calls name s" using reconcile_log [of name s] step(1) by simp
  have rest: "reconcile_all reconcile names s1 = (Returned (), s')" using Cons.prems(2) step(1) by simp
  show ?case
  proof (cases "length (log_of s1) \<le> length pre")
    case True
    from Cons.IH [OF step(2) rest Cons.prems(3) True] show ?thesis .
  next
    case False
    obtain es where "log_of s' = log_of s1 @ es" using queue_log [OF step(2) rest] by blast
    then have eq: "pre @ c # post = log_of s @ calls name s @ es" using Cons.prems(3) log1 by simp
    define k where "k = drop (length (log_of s)) pre"
    have pre: "pre = log_of s @ k"
      using arg_cong [OF eq, of "take (length (log_of s))"] Cons.prems(4)
      by (simp add: k_def) (metis append_take_drop_id)
    with eq have "k @ c # post = calls name s @ es" by simp
    moreover have "length k < length (calls name s)" using False pre log1 by simp
    ultimately obtain calls2 where "k @ c # calls2 = calls name s"
      by (auto simp: append_eq_append_conv2 Cons_eq_append_conv)
    with pre Cons.prems(1) show ?thesis by metis
  qed
qed

end

lemma Reconcile_log: "r_log (snd (Reconcile env name r)) = r_log r @ reconcile_calls env name r"
proof -
  obtain es where "r_log (snd (Reconcile env name r)) =
      r_log r @ ApiGet name (kube_Get env (r_log r) name) # es"
    using Reconcile_trace_lemma by (metis prod.collapse)
  then show ?thesis by (simp add: reconcile_calls_def)
qed

interpretation csr_reconciler: reconciler_interface "Reconcile env" "usable env d" r_log "reconcile_calls env"
  by unfold_locales (simp_all add: Reconcile_usable Reconcile_log)

text \<open>How the goroutine ends: before its reconciler is made, or with the run of a queue behind it.\<close>

lemma controller_run:
  assumes "NewForConfigOrDie menv = None"
  obtains (stopped) err where "controller_goroutine menv env fl = (Returned err, None)"
  | (ran) err r0 names r where "controller_goroutine menv env fl = (Returned err, Some r)"
      "usable env (flag_duration fl) r0" "r_log r0 = []" "reconcile_all (Reconcile env) names r0 = (Returned (), r)"
proof -
  show thesis
  proof (cases "\<exists>err. controller_goroutine menv env fl = (Returned err, None)")
    case True
    then show thesis using stopped by blast
  next
    case False
    then obtain sg where sg: "NewSigner (env_calib env) (caCertPath fl) (caKeyPath fl) (flag_duration fl) = Inr sg"
      by (auto simp: controller_goroutine_def split: option.splits sum.splits)
    define r0 where "r0 = \<lparr>r_Signer = sg, r_log = []\<rparr>"
    have u: "usable env (flag_duration fl) r0"
      using signer_state.new [OF sg] NewSigner_inv [OF sg] by (simp add: r0_def usable_def)
    obtain r' where run: "reconcile_all (Reconcile env) (mgr_requests menv) r0 = (Returned (), r')"
      using csr_reconciler.queue_returns [OF u] by blast
    consider err where "controller_goroutine menv env fl = (Returned err, Some r0)"
      | err where "controller_goroutine menv env fl = (Returned err, Some r')"
      using False sg assms run by (auto simp: controller_goroutine_def r0_def Let_def split: option.splits)
    then show thesis
      using ran [OF _ u, of _ r0 "[]"] ran [OF _ u _ run] by cases (simp_all add: r0_def)
  qed
qed

text \<open>A patch in the log of the controller: the reconciliation that made it.\<close>

lemma controller_patch:
  assumes "NewForConfigOrDie menv = None" and "controller_goroutine menv env fl = (res, Some r)"
    and "r_log r = pre @ ApiStatusPatch csr csr' ans # post"
  obtains name r0 cr crt sg' where "usable env (flag_duration fl) r0" and "serving_request env (Got csr) csr cr"
    and "pre = r_log r0 @ [ApiGet name (Got csr), allowed_review csr]"
    and "csr' = set_certificate crt csr"
    and "Signer_Sign (env_calib env) (env_x509 env) (env_range env) (env_rand env pre) (env_now env pre)
           (r_Signer r0) cr (csr_Spec csr) = (Returned (Inr crt), sg')"
  using assms(1)
proof (cases rule: controller_run [of menv env fl])
  case (stopped err)
  with assms(2) show thesis by simp
next
  case (ran err r00 names r')
  then have "r' = r" using assms(2) by simp
  obtain name r0 calls1 calls2 where turn: "usable env (flag_duration fl) r0"
    "reconcile_calls env name r0 = calls1 @ ApiStatusPatch csr csr' ans # calls2" "pre = r_log r0 @ calls1"
    using csr_reconciler.queue_turn [OF ran(2) ran(4) [unfolded \<open>r' = r\<close>] assms(3)] ran(3) by auto
  from turn(2) show thesis
    by (rule reconcile_status_patch) (use that turn in auto)
qed

text \<open>An approval in the log of the controller: the same, with the accepted patch before it.\<close>

lemma controller_approval:
  assumes "NewForConfigOrDie menv = None" and "controller_goroutine menv env fl = (res, Some r)"
    and "r_log r = pre @ ApiUpdateApproval n c u # post"
  obtains pre' name csr csr' c' where
    "pre = pre' @ [ApiGet name (Got csr), allowed_review csr, ApiStatusPatch csr csr' (Inr c')]"
    and "n = csr_Name c'" and "c = approved_object env pre c'"
  using assms(1)
proof (cases rule: controller_run [of menv env fl])
  case (stopped err)
  with assms(2) show thesis by simp
next
  case (ran err r00 names r')
  then have "r' = r" using assms(2) by simp
  obtain name r0 calls1 calls2 where turn: "reconcile_calls env name r0 = calls1 @ ApiUpdateApproval n c u # calls2"
    "pre = r_log r0 @ calls1"
    using csr_reconciler.queue_turn [OF ran(2) ran(4) [unfolded \<open>r' = r\<close>] assms(3)] ran(3) by auto
  from turn(1) show thesis
    by (rule reconcile_approval) (use that [of "r_log r0"] turn(2) in auto)
qed

text \<open>A controller that has a reconciler has a client.\<close>

lemma controller_client:
  "controller_goroutine menv env fl = (res, Some r) \<Longrightarrow> NewForConfigOrDie menv = None"
  by (auto simp: controller_goroutine_def split: option.splits sum.splits)

subsection \<open>Properties of the controller\<close>

definition sample_manager_env :: manager_env where
  "sample_manager_env = \<lparr>GetConfigOrDie = None, NewManager = (\<lambda>_. None), NewForConfigOrDie = None,
     velero_NewHelper = None, velero_ResourceFor = (\<lambda>_ _. Inr ''v1''), ctrl_Complete = (\<lambda>_. None),
     mgr_requests = [''csr-1''], mgr_Start = None\<rparr>"

definition controller_flags :: flags where
  "controller_flags = default_flags\<lparr>caCertPath := ''c'', caKeyPath := ''k'', flag_duration := time_Hour\<rparr>"

lemma sample_controller:
  "controller_goroutine sample_manager_env sample_csr_env controller_flags =
     (Returned None, Some (snd (Reconcile sample_csr_env ''csr-1'' sample_reconciler)))"
proof -
  have "NewSigner (env_calib sample_csr_env) (caCertPath controller_flags) (caKeyPath controller_flags)
      (flag_duration controller_flags) = Inr sample_signer"
    using sample_signer_new by (simp add: sample_csr_env_def controller_flags_def)
  moreover have "fst (Reconcile sample_csr_env ''csr-1'' sample_reconciler) = Returned None" by code_simp
  then obtain r' where "Reconcile sample_csr_env ''csr-1'' \<lparr>r_Signer = sample_signer, r_log = []\<rparr> = (Returned None, r')"
    unfolding sample_reconciler_def by (metis prod.collapse)
  ultimately show ?thesis
    by (simp add: controller_goroutine_def sample_manager_env_def SetupWithManager_def sample_reconciler_def)
qed

text \<open>
  Claim C18. The controller never crashes the process with a panic: once its client can be made, the
  goroutine ends with an error or without one, for every sequence of requests and whatever
  the API server and the CA files do, and its signer is in a good state at the end, with the lifetime the
  flag asks for.
\<close>

theorem controller_never_panics:
  assumes "NewForConfigOrDie menv = None"
  shows "\<exists>err ro. controller_goroutine menv env fl = (Returned err, ro) \<and>
    (\<forall>r. ro = Some r \<longrightarrow> signer_state (env_calib env) (env_x509 env) (env_range env) (r_Signer r) \<and>
       certTTL (r_Signer r) = flag_duration fl)"
  using assms
proof (cases rule: controller_run [of menv env fl])
  case (stopped err)
  then show ?thesis by simp
next
  case (ran err r0 names r)
  then have "usable env (flag_duration fl) r"
    using csr_reconciler.queue_returns [OF ran(2), of names] by simp
  with ran(1) show ?thesis by (simp add: usable_def)
qed

theorem controller_never_panics_witness:
  "\<exists>err ro. controller_goroutine sample_manager_env sample_csr_env controller_flags = (Returned err, ro)"
  using controller_never_panics [of sample_manager_env sample_csr_env controller_flags]
  by (auto simp: sample_manager_env_def)

text \<open>
  Claim C1. The controller only signs node serving certificates for the node that asked: in a whole run
  of the controller, right before a certificate is written into the status of a CSR, that CSR
  was read, pending, and an access review found its sender to be allowed to create CSRs;
  the certificate was made from a template whose subject is in \<open>system:nodes\<close> and named like
  the sender, whose key is that of the request, whose usages are among digital signature,
  key encipherment and server authentication, and which is no CA.
\<close>

theorem controller_signs_only_node_serving:
  assumes "NewForConfigOrDie menv = None"
    and "\<And>xs. mset (env_range env xs) = mset xs" and "raw_is_input (env_x509 env)"
    and "controller_goroutine menv env fl = (res, Some r)"
    and "r_log r = pre @ ApiStatusPatch csr csr' ans # post"
  shows "(\<exists>name pre'. pre = pre' @ [ApiGet name (Got csr), ApiSubjectAccessReview (create_csr_review csr) (Inr True)]) \<and>
    csr_DeletionTimestamp csr = None \<and> status_Certificate (csr_Status csr) = None \<and>
    (\<exists>cr tmpl der ca. ParseCSR (env_x509 env) (spec_Request (csr_Spec csr)) = Inr cr \<and>
       csr' = set_certificate (pem_EncodeToMemory (env_x509 env) ''CERTIFICATE'' der) csr \<and>
       CreateCertificate (env_x509 env) tmpl (Certificate (ca :: CertificateAuthority))
         (cr_PublicKey cr) (PrivateKey ca) = Inr der \<and>
       crt_PublicKey tmpl = cr_PublicKey cr \<and> crt_Subject tmpl = cr_Subject cr \<and>
       Organization (crt_Subject tmpl) = [''system:nodes''] \<and>
       CommonName (crt_Subject tmpl) = spec_Username (csr_Spec csr) \<and>
       HasPrefix (CommonName (crt_Subject tmpl)) ''system:node:'' \<and>
       (\<forall>n. bit (crt_KeyUsage tmpl) n \<longrightarrow> n = 0 \<or> n = 2) \<and>
       set (crt_ExtKeyUsage tmpl) \<subseteq> {ExtKeyUsageServerAuth} \<and> \<not> crt_IsCA tmpl)"
  using assms(1,4,5)
proof (rule controller_patch)
  fix name r0 cr crt sg'
  assume u: "usable env (flag_duration fl) r0" and req: "serving_request env (Got csr) csr cr"
    and pre: "pre = r_log r0 @ [ApiGet name (Got csr), allowed_review csr]" and csr': "csr' = set_certificate crt csr"
    and sign: "Signer_Sign (env_calib env) (env_x509 env) (env_range env) (env_rand env pre) (env_now env pre)
           (r_Signer r0) cr (csr_Spec csr) = (Returned (Inr crt), sg')"
  have st: "signer_state (env_calib env) (env_x509 env) (env_range env) (r_Signer r0)"
    using u by (simp add: usable_def)
  from serving_certificate [OF st assms(2,3) req sign] req pre csr' show ?thesis
    by (simp add: serving_request_def) blast
qed

lemma sample_patch_log:
  "r_log (snd (Reconcile sample_csr_env ''csr-1'' sample_reconciler)) =
     [ApiGet ''csr-1'' (Got (sample_csr kubeletServerUsages)), allowed_review (sample_csr kubeletServerUsages)] @
     ApiStatusPatch (sample_csr kubeletServerUsages)
        (set_certificate ''CERTIFICATEder'' (sample_csr kubeletServerUsages))
        (Inr (set_certificate ''CERTIFICATEder'' (sample_csr kubeletServerUsages))) #
     [ApiUpdateApproval ''csr-1'' sample_approved None,
      ApiEvent sample_approved EventTypeNormal ''Signed'' ''The CSR has been signed'']"
  by (simp add: Reconcile_log sample_calls) (simp add: sample_reconciler_def)

theorem controller_signs_only_node_serving_witness:
  "\<exists>cr tmpl der (ca :: CertificateAuthority).
     ParseCSR (env_x509 sample_csr_env) (spec_Request (csr_Spec (sample_csr kubeletServerUsages))) = Inr cr \<and>
     CreateCertificate (env_x509 sample_csr_env) tmpl (Certificate ca) (cr_PublicKey cr) (PrivateKey ca) = Inr der \<and>
     crt_Subject tmpl = cr_Subject cr \<and> Organization (crt_Subject tmpl) = [''system:nodes''] \<and> \<not> crt_IsCA tmpl"
proof -
  have client: "NewForConfigOrDie sample_manager_env = None" by (simp add: sample_manager_env_def)
  have rng: "\<And>xs. mset (env_range sample_csr_env xs) = mset xs" and raw: "raw_is_input (env_x509 sample_csr_env)"
    using raw_is_input_sample by (simp_all add: sample_csr_env_def)
  from controller_signs_only_node_serving [OF client rng raw sample_controller sample_patch_log]
  show ?thesis by blast
qed

text \<open>
  Claim C7. Every certificate the controller issues in a run is valid when it is issued: with \<open>--duration\<close> above
  the five minutes of backdating, a certificate that is written into the status of a CSR starts five
  minutes before the clock reading at that point of the run, ends after it, not after the CA that signed it,
  and at most the configured duration (or ten minutes) after its start.
\<close>

theorem controller_issues_valid:
  assumes "NewForConfigOrDie menv = None" and "duration_less (5 * time_Minute) (flag_duration fl)"
    and "controller_goroutine menv env fl = (res, Some r)"
    and "r_log r = pre @ ApiStatusPatch csr csr' ans # post"
  shows "\<exists>tmpl der ca pub. csr' = set_certificate (pem_EncodeToMemory (env_x509 env) ''CERTIFICATE'' der) csr \<and>
    CreateCertificate (env_x509 env) tmpl (Certificate (ca :: CertificateAuthority)) pub (PrivateKey ca) = Inr der \<and>
    crt_NotBefore tmpl = env_now env pre - 300 * 1000000000 \<and> env_now env pre < crt_NotAfter tmpl \<and>
    crt_NotAfter tmpl \<le> crt_NotAfter (Certificate ca) \<and>
    crt_NotAfter tmpl \<le> crt_NotBefore tmpl + max (sint (flag_duration fl)) (600 * 1000000000)"
  using assms(1,3,4)
proof (rule controller_patch)
  fix name r0 cr crt sg'
  assume u: "usable env (flag_duration fl) r0" and csr': "csr' = set_certificate crt csr"
    and sign: "Signer_Sign (env_calib env) (env_x509 env) (env_range env) (env_rand env pre) (env_now env pre)
           (r_Signer r0) cr (csr_Spec csr) = (Returned (Inr crt), sg')"
  have st: "signer_state (env_calib env) (env_x509 env) (env_range env) (r_Signer r0)"
    and ttl: "certTTL (r_Signer r0) = flag_duration fl"
    using u by (simp_all add: usable_def)
  from st assms(2) [folded ttl] sign show ?thesis
    by (rule Signer_Sign_valid) (unfold csr' ttl, blast)
qed

theorem controller_issues_valid_witness:
  "\<exists>tmpl der (ca :: CertificateAuthority) pub.
     CreateCertificate (env_x509 sample_csr_env) tmpl (Certificate ca) pub (PrivateKey ca) = Inr der \<and>
     crt_NotBefore tmpl = - 300 * 1000000000 \<and> 0 < crt_NotAfter tmpl \<and>
     crt_NotAfter tmpl \<le> crt_NotBefore tmpl + 3600 * 1000000000"
proof -
  have client: "NewForConfigOrDie sample_manager_env = None" by (simp add: sample_manager_env_def)
  have ttl: "sint (flag_duration controller_flags) = 3600 * 1000000000"
    by (simp add: controller_flags_def time_Hour_def time_Minute_def time_Second_def)
  then have "duration_less (5 * time_Minute) (flag_duration controller_flags)" by (simp add: sint_five_minutes)
  from controller_issues_valid [OF client this sample_controller sample_patch_log] show ?thesis
    unfolding ttl by (simp add: sample_csr_env_def) blast
qed

end
