(* ===== verification/Process.thy ===== *)
theory Process
  imports Daemon CSR_Manager
begin

text \<open>
  The kucero process: \<open>init\<close>, \<open>main\<close> and \<open>root\<close> of cmd/kucero/main.go. \<open>main\<close> declares the flags and lets
  cobra read the command line into them; \<open>root\<close> reads the node name, draws the polling period, asks the API server for the node and enters \<open>rotateCertificateWhenNeeded\<close>, and the two
  goroutines it then consists of, the certificate loop and the CSR controller. The goroutines share no
  state, but either can end the process: a panic, and \<open>logrus.Fatal\<close> in the goroutine of the
  controller, stop the certificate loop wherever it is.

  The command line library, the environment variable, the client library and the random draw are
  parameters (\<open>startup_env\<close>).
\<close>

record corev1_Node =
  node_name :: string
  node_labels :: "(string \<times> string) list"

record startup_env =
  AddToScheme :: "go_error option"
  cobra_Execute :: "string list \<Rightarrow> flags \<Rightarrow> go_error + flags option"
    \<comment> \<open>the flags a command line leaves from their defaults when it asks to run; \<open>None\<close> when it only asks for help\<close>
  os_Getenv :: "string \<Rightarrow> string"
  rand_draw :: nat
  BuildConfigFromFlags :: "string \<Rightarrow> string \<Rightarrow> go_error option"
  kubernetes_NewForConfig :: "go_error option"
  nodes_Get :: "string \<Rightarrow> go_error + corev1_Node"

datatype exit_status = Exited | Fatal go_error | Crashed string

text \<open>
  \<open>root\<close> up to its last call: the flags with the shifted period, the node and its role. \<open>Inl\<close> is
  \<open>logrus.Fatal\<close>.
\<close>

definition root_node :: "startup_env \<Rightarrow> flags \<Rightarrow> (go_error + flags \<times> corev1_Node \<times> bool) outcome" where
  "root_node senv fl =
     (let nodeName = os_Getenv senv ''KUCERO_NODE_NAME''
      in if nodeName = '''' then
           Returned (Inl (Error ''KUCERO_NODE_NAME environment variable required''))
         else case shift_pollingPeriod (rand_draw senv) (pollingPeriod fl) of
           Panicked m \<Rightarrow> Panicked m
         | Returned period \<Rightarrow>
             (let fl = fl\<lparr>pollingPeriod := period\<rparr>
              in case BuildConfigFromFlags senv (apiServerHost fl) (kubeconfigPath fl) of
                   Some err \<Rightarrow> Returned (Inl err)
                 | None \<Rightarrow>
                     (case kubernetes_NewForConfig senv of
                        Some err \<Rightarrow> Returned (Inl err)
                      | None \<Rightarrow>
                          (case nodes_Get senv nodeName of
                             Inl err \<Rightarrow> Returned (Inl err)
                           | Inr corev1Node \<Rightarrow>
                               (let master = map_of (node_labels corev1Node) ''node-role.kubernetes.io/master'' \<noteq> None;
                                    controlPlane = map_of (node_labels corev1Node) ''node-role.kubernetes.io/control-plane'' \<noteq> None
                                in Returned (Inr (fl, corev1Node, master \<or> controlPlane)))))))"

text \<open>The main goroutine from start to end.\<close>

definition root :: "daemon_env \<Rightarrow> startup_env \<Rightarrow> flags \<Rightarrow> wakeup list \<Rightarrow> host \<Rightarrow> exit_status \<times> host" where
  "root env senv fl wakeups h =
     (case root_node senv fl of
        Panicked m \<Rightarrow> (Crashed m, h)
      | Returned (Inl err) \<Rightarrow> (Fatal err, h)
      | Returned (Inr (fl, corev1Node, isControlPlaneNode)) \<Rightarrow>
          (case rotateCertificateWhenNeeded env fl (node_name corev1Node) isControlPlaneNode wakeups h of
             (Panicked m, h) \<Rightarrow> (Crashed m, h)
           | (Returned _, h) \<Rightarrow> (Exited, h)))"

text \<open>\<open>init\<close>: \<open>utilruntime.Must\<close> panics on an error.\<close>

definition program_init :: "startup_env \<Rightarrow> unit outcome" where
  "program_init senv =
     (case AddToScheme senv of Some err \<Rightarrow> Panicked ''AddToScheme'' | None \<Rightarrow> Returned ())"

text \<open>\<open>main\<close>: an error of the command line is logged, and the process ends normally.\<close>

definition main :: "daemon_env \<Rightarrow> startup_env \<Rightarrow> string list \<Rightarrow> wakeup list \<Rightarrow> host \<Rightarrow> exit_status \<times> host" where
  "main env senv args wakeups h =
     (case program_init senv of
        Panicked m \<Rightarrow> (Crashed m, h)
      | Returned _ \<Rightarrow>
          (case cobra_Execute senv args default_flags of
             Inl err \<Rightarrow> (Exited, h)
           | Inr None \<Rightarrow> (Exited, h)
           | Inr (Some fl) \<Rightarrow> root env senv fl wakeups h))"

text \<open>The flags with which \<open>rotateCertificateWhenNeeded\<close> is entered, the node and its role, if it is entered.\<close>

definition enters_loop :: "startup_env \<Rightarrow> string list \<Rightarrow> flags \<Rightarrow> corev1_Node \<Rightarrow> bool \<Rightarrow> bool" where
  "enters_loop senv args fl corev1Node isControlPlaneNode \<longleftrightarrow>
     program_init senv = Returned () \<and>
     (\<exists>fl0. cobra_Execute senv args default_flags = Inr (Some fl0) \<and>
        root_node senv fl0 = Returned (Inr (fl, corev1Node, isControlPlaneNode)))"

text \<open>How the goroutine of the controller ends the process, if it does.\<close>

fun controller_exit :: "go_error option outcome \<Rightarrow> exit_status option" where
  "controller_exit (Panicked m) = Some (Crashed m)"
| "controller_exit (Returned (Some err)) = Some (Fatal err)"
| "controller_exit (Returned None) = None"

text \<open>The calls the controller may have made when the main goroutine ends: any part of its run.\<close>

definition controller_calls ::
  "startup_env \<Rightarrow> manager_env \<Rightarrow> csr_env \<Rightarrow> string list \<Rightarrow> api_event list \<Rightarrow> bool" where
  "controller_calls senv menv cenv args calls \<longleftrightarrow> calls = [] \<or>
     (\<exists>fl corev1Node isControlPlaneNode res r.
        enters_loop senv args fl corev1Node isControlPlaneNode \<and>
        start_controller menv cenv fl isControlPlaneNode = Some (res, Some r) \<and> prefix calls (r_log r))"

text \<open>
  The runs of the process, by the exit status, what the certificate loop did and the API calls of
  the controller: the main goroutine to its end, with any part of the controller's run beside it; or, once
  the loop has been entered, any part of it until the controller ends the process.
\<close>

inductive process ::
  "daemon_env \<Rightarrow> startup_env \<Rightarrow> manager_env \<Rightarrow> csr_env \<Rightarrow> string list \<Rightarrow> wakeup list \<Rightarrow> host
     \<Rightarrow> exit_status \<Rightarrow> event list \<Rightarrow> api_event list \<Rightarrow> bool"
  for env senv menv cenv args wakeups h where
  main_ends:
    "main env senv args wakeups h = (status, h') \<Longrightarrow>
     controller_calls senv menv cenv args calls \<Longrightarrow>
     process env senv menv cenv args wakeups h status (events_between h h') calls"
| controller_ends:
    "enters_loop senv args fl corev1Node isControlPlaneNode \<Longrightarrow>
     start_controller menv cenv fl isControlPlaneNode = Some (res, r) \<Longrightarrow>
     controller_exit res = Some status \<Longrightarrow>
     rotateCertificateWhenNeeded env fl (node_name corev1Node) isControlPlaneNode wakeups h = (q, h') \<Longrightarrow>
     start_lock env h = (meta, h1) \<Longrightarrow>
     prefix (events_between h h1) es \<Longrightarrow> prefix es (events_between h h') \<Longrightarrow>
     process env senv menv cenv args wakeups h status es (case r of None \<Rightarrow> [] | Some r \<Rightarrow> r_log r)"

subsection \<open>The process keeps the discipline of the lock\<close>

lemma disciplined_prefix: "prefix xs ys \<Longrightarrow> disciplined held ys \<Longrightarrow> disciplined held xs"
  by (auto simp: prefix_def)

text \<open>The main goroutine either enters the loop or does nothing.\<close>

lemma main_cases:
  assumes "main env senv args wakeups h = (status, h')"
  obtains (entered) fl n cp q where "enters_loop senv args fl n cp"
      "rotateCertificateWhenNeeded env fl (node_name n) cp wakeups h = (q, h')"
      "status = (case q of Panicked m \<Rightarrow> Crashed m | Returned _ \<Rightarrow> Exited)"
    | (ended) "h' = h" "\<not> (\<exists>fl n cp. enters_loop senv args fl n cp)"
proof (cases "\<exists>fl n cp. enters_loop senv args fl n cp")
  case True
  then obtain fl n cp where loop: "enters_loop senv args fl n cp" by blast
  obtain q h1 where run: "rotateCertificateWhenNeeded env fl (node_name n) cp wakeups h = (q, h1)" by (metis surj_pair)
  have "h1 = h'" "status = (case q of Panicked m \<Rightarrow> Crashed m | Returned _ \<Rightarrow> Exited)"
    using assms loop run by (auto simp: main_def enters_loop_def root_def split: outcome.splits)
  with loop run show thesis using entered by blast
next
  case False
  then have "h' = h"
    using assms by (auto simp: main_def enters_loop_def root_def program_init_def split: outcome.splits sum.splits option.splits)
  with False show thesis using ended by blast
qed

lemma main_disciplined:
  assumes "main env senv args wakeups h = (status, h')"
  shows "disciplined False (events_between h h') \<and> (status = Exited \<longrightarrow> \<not> held_after False (events_between h h'))"
  using assms
proof (cases rule: main_cases)
  case (entered fl n cp q)
  then show ?thesis using daemon_disciplined [OF entered(2)] by (cases q) (auto simp: events_between_def)
next
  case ended
  then show ?thesis by (simp add: events_between_def)
qed

lemma process_disciplined:
  assumes "process env senv menv cenv args wakeups h status es calls"
  shows "disciplined False es" "status = Exited \<Longrightarrow> \<not> held_after False es"
proof -
  have "disciplined False es \<and> (status = Exited \<longrightarrow> \<not> held_after False es)"
    using assms
  proof cases
    case (main_ends h')
    then show ?thesis using main_disciplined by blast
  next
    case (controller_ends fl n cp res r q h' meta h1)
    have "disciplined False (events_between h h')"
      using daemon_disciplined [OF controller_ends(5)] by (auto simp: events_between_def)
    moreover have "status \<noteq> Exited" using controller_ends(4) by (cases res rule: controller_exit.cases) auto
    ultimately show ?thesis using disciplined_prefix [OF controller_ends(8)] by blast
  qed
  then show "disciplined False es" "status = Exited \<Longrightarrow> \<not> held_after False es" by blast+
qed

text \<open>The calls of the controller are part of one run of it.\<close>

lemma process_calls:
  assumes "process env senv menv cenv args wakeups h status es calls"
  shows "controller_calls senv menv cenv args calls"
  using assms
proof cases
  case (controller_ends fl n cp res r q h' meta h1)
  show ?thesis
  proof (cases r)
    case (Some r')
    with controller_ends(1,3) have "start_controller menv cenv fl cp = Some (res, Some r')" "prefix calls (r_log r')"
      by simp_all
    with controller_ends(2) show ?thesis unfolding controller_calls_def by blast
  qed (simp add: controller_calls_def controller_ends(1))
qed

lemma no_controller_calls [simp]: "controller_calls senv menv cenv args []"
  by (simp add: controller_calls_def)

lemma controller_calls_run:
  assumes "controller_calls senv menv cenv args (pre @ c # post)"
  obtains fl n res r post' where "enters_loop senv args fl n True" "enableKubeletCSRController fl"
    "controller_goroutine menv cenv fl = (res, Some r)" "NewForConfigOrDie menv = None" "r_log r = pre @ c # post'"
  using assms controller_client
  by (fastforce simp: controller_calls_def start_controller_def prefix_def split: if_splits)

text \<open>A command line that cobra refuses ends the process like a normal run.\<close>

lemma bad_flags_exit_normally:
  assumes "AddToScheme senv = None" "cobra_Execute senv args default_flags = Inl err"
  shows "main env senv args wakeups h = (Exited, h)"
  using assms by (simp add: main_def program_init_def)

text \<open>Without a successful attempt to take the lock nothing is changed.\<close>

lemma never_held:
  "EvLockAcquire True None \<notin> set es \<Longrightarrow> \<not> held \<Longrightarrow> disciplined held es \<Longrightarrow> e \<in> set es \<Longrightarrow> lock_free e"
proof (induction es arbitrary: held)
  case (Cons x xs)
  have "\<not> held_after held [x]" using Cons.prems(1,2) by (cases x) (auto, metis not_None_eq)
  then show ?case using Cons by auto
qed simp


subsection \<open>Properties of the process\<close>

text \<open>A worker node of a given name, with the default flags and nothing wrong at the start.\<close>

definition worker_startup :: "string \<Rightarrow> startup_env" where
  "worker_startup n = \<lparr>AddToScheme = None, cobra_Execute = (\<lambda>args fl. Inr (Some fl)),
     os_Getenv = (\<lambda>_. n), rand_draw = 12345, BuildConfigFromFlags = (\<lambda>_ _. None),
     kubernetes_NewForConfig = None, nodes_Get = (\<lambda>name. Inr \<lparr>node_name = name, node_labels = []\<rparr>)\<rparr>"

lemma worker_root_node:
  assumes "n \<noteq> ''''"
  shows "\<exists>p. root_node (worker_startup n) default_flags =
    Returned (Inr (default_flags\<lparr>pollingPeriod := p\<rparr>, \<lparr>node_name = n, node_labels = []\<rparr>, False))"
proof -
  obtain p where "shift_pollingPeriod 12345 (pollingPeriod default_flags) = Returned p"
    using shift_pollingPeriod_range [of "pollingPeriod default_flags" 12345] by auto
  with assms show ?thesis by (intro exI [of _ p]) (simp add: root_node_def worker_startup_def)
qed

lemma root_node_shifts:
  assumes "root_node senv fl = Returned (Inr (fl', n, isControlPlaneNode))"
  shows "\<exists>p. shift_pollingPeriod (rand_draw senv) (pollingPeriod fl) = Returned p \<and> fl' = fl\<lparr>pollingPeriod := p\<rparr>"
  using assms by (auto simp: root_node_def Let_def split: if_splits outcome.splits option.splits sum.splits)

lemma worker_enters:
  assumes "n \<noteq> ''''"
  shows "\<exists>p. enters_loop (worker_startup n) args (default_flags\<lparr>pollingPeriod := p\<rparr>) \<lparr>node_name = n, node_labels = []\<rparr> False"
  using worker_root_node [OF assms] by (auto simp: enters_loop_def program_init_def worker_startup_def)

lemma enters_loop_unique:
  "enters_loop senv args fl n cp \<Longrightarrow> enters_loop senv args fl' n' cp' \<Longrightarrow> fl' = fl \<and> n' = n \<and> cp' = cp"
  by (auto simp: enters_loop_def)

lemma worker_main:
  assumes "n \<noteq> ''''" "main env (worker_startup n) args ws h = (status, h')"
  shows "h' = snd (rotateCertificateWhenNeeded env default_flags n False ws h)"
proof -
  obtain p where enters: "enters_loop (worker_startup n) args (default_flags\<lparr>pollingPeriod := p\<rparr>) \<lparr>node_name = n, node_labels = []\<rparr> False"
    using worker_enters [OF assms(1)] by blast
  have "rotateCertificateWhenNeeded env (default_flags\<lparr>pollingPeriod := p\<rparr>) n False ws h =
      rotateCertificateWhenNeeded env default_flags n False ws h"
    by (simp add: rotateCertificateWhenNeeded_def)
  with enters show ?thesis
    by (cases rule: main_cases [OF assms(2)]) (auto dest: enters_loop_unique [OF enters])
qed

text \<open>A control-plane node of a given name, with the flags of the controller.\<close>

definition control_startup :: "string \<Rightarrow> startup_env" where
  "control_startup n = (worker_startup n)\<lparr>cobra_Execute := (\<lambda>args fl. Inr (Some controller_flags)),
     nodes_Get := (\<lambda>name. Inr \<lparr>node_name = name, node_labels = [(''node-role.kubernetes.io/master'', '''')]\<rparr>)\<rparr>"

lemma control_enters:
  assumes "n \<noteq> ''''"
  shows "\<exists>p. enters_loop (control_startup n) args (controller_flags\<lparr>pollingPeriod := p\<rparr>)
    \<lparr>node_name = n, node_labels = [(''node-role.kubernetes.io/master'', '''')]\<rparr> True"
proof -
  have period: "pollingPeriod controller_flags = pollingPeriod default_flags" by (simp add: controller_flags_def)
  obtain p where "shift_pollingPeriod 12345 (pollingPeriod default_flags) = Returned p"
    using shift_pollingPeriod_range [of "pollingPeriod default_flags" 12345] by auto
  with assms show ?thesis
    by (intro exI [of _ p]) (simp add: enters_loop_def program_init_def root_node_def control_startup_def worker_startup_def period)
qed

lemma control_calls:
  "controller_calls (control_startup ''node'') sample_manager_env sample_csr_env []
     (r_log (snd (Reconcile sample_csr_env ''csr-1'' sample_reconciler)))"
proof -
  obtain p where enters: "enters_loop (control_startup ''node'') [] (controller_flags\<lparr>pollingPeriod := p\<rparr>)
      \<lparr>node_name = ''node'', node_labels = [(''node-role.kubernetes.io/master'', '''')]\<rparr> True"
    using control_enters [of "''node''" "[]"] by auto
  have "controller_goroutine sample_manager_env sample_csr_env (controller_flags\<lparr>pollingPeriod := p\<rparr>) =
      controller_goroutine sample_manager_env sample_csr_env controller_flags"
    by (simp add: controller_goroutine_def cong: option.case_cong sum.case_cong)
  moreover have "enableKubeletCSRController controller_flags" by (simp add: controller_flags_def default_flags_def)
  ultimately have "start_controller sample_manager_env sample_csr_env (controller_flags\<lparr>pollingPeriod := p\<rparr>) True =
      Some (Returned None, Some (snd (Reconcile sample_csr_env ''csr-1'' sample_reconciler)))"
    by (simp add: start_controller_def sample_controller)
  with enters show ?thesis unfolding controller_calls_def by blast
qed

lemma control_main:
  assumes "main env (control_startup ''node'') [] ws h = (status, h')"
  shows "h' = snd (rotateCertificateWhenNeeded env controller_flags ''node'' True ws h)"
proof -
  obtain p where enters: "enters_loop (control_startup ''node'') [] (controller_flags\<lparr>pollingPeriod := p\<rparr>)
      \<lparr>node_name = ''node'', node_labels = [(''node-role.kubernetes.io/master'', '''')]\<rparr> True"
    using control_enters [of "''node''" "[]"] by auto
  have "rotateCertificateWhenNeeded env (controller_flags\<lparr>pollingPeriod := p\<rparr>) ''node'' True ws h =
      rotateCertificateWhenNeeded env controller_flags ''node'' True ws h"
    by (simp add: rotateCertificateWhenNeeded_def)
  with enters show ?thesis
    by (cases rule: main_cases [OF assms]) (auto dest: enters_loop_unique [OF enters])
qed

lemma control_turn:
  "(let es = events_between sample_worker (snd (rotateCertificateWhenNeeded sample_daemon_env controller_flags ''node'' True
      [Tick, Quit] sample_worker))
    in EvLockAcquire True None \<in> set es \<and> EvNodeDrain ''node'' None \<in> set es \<and> EvLockRelease None \<in> set es)"
  by code_simp

text \<open>
  Claim C2. What a whole run of the process changes, and when, from its start, for any sequence of ticks and
  whichever goroutine ends it. The certificate loop changes the node (commands other than kubeadm's
  version and expiration queries, file writes, cordon, drain, uncordon) only after a successful attempt
  to take the lock and before releasing it, and a process that ends normally does not hold the lock.
  The controller takes no lock. It makes API calls only on a control-plane node with its flag set; it
  writes the status of a CSR only right after reading that CSR and an access review that allowed it, and
  it approves a CSR only right after such a write was accepted, and only the object that came back.
\<close>

theorem process_changes_guarded:
  assumes "process env senv menv cenv args wakeups h status es calls"
  shows "disciplined False es \<and> (status = Exited \<longrightarrow> \<not> held_after False es) \<and>
    (calls \<noteq> [] \<longrightarrow> (\<exists>fl n. enters_loop senv args fl n True \<and> enableKubeletCSRController fl)) \<and>
    (\<forall>pre csr csr' ans post. calls = pre @ ApiStatusPatch csr csr' ans # post \<longrightarrow>
       (\<exists>pre' name. pre = pre' @ [ApiGet name (Got csr), ApiSubjectAccessReview (create_csr_review csr) (Inr True)])) \<and>
    (\<forall>pre n c u post. calls = pre @ ApiUpdateApproval n c u # post \<longrightarrow>
       (\<exists>pre' name csr csr' c'. pre = pre' @ [ApiGet name (Got csr), ApiSubjectAccessReview (create_csr_review csr) (Inr True),
          ApiStatusPatch csr csr' (Inr c')] \<and> n = csr_Name c' \<and> c = approved_object cenv pre c'))"
proof (intro conjI allI impI)
  note run = process_calls [OF assms]
  show "disciplined False es" using process_disciplined(1) [OF assms] .
  show "\<not> held_after False es" if "status = Exited" using process_disciplined(2) [OF assms that] .
  show "\<exists>fl n. enters_loop senv args fl n True \<and> enableKubeletCSRController fl" if "calls \<noteq> []"
    by (rule controller_calls_run [of senv menv cenv args "[]" "hd calls" "tl calls"]) (use run that in auto)
  show "\<exists>pre' name. pre = pre' @ [ApiGet name (Got csr), ApiSubjectAccessReview (create_csr_review csr) (Inr True)]"
    if calls: "calls = pre @ ApiStatusPatch csr csr' ans # post" for pre csr csr' ans post
    using run unfolding calls by (rule controller_calls_run) (auto elim: controller_patch)
  show "\<exists>pre' name csr csr' c'. pre = pre' @ [ApiGet name (Got csr), ApiSubjectAccessReview (create_csr_review csr) (Inr True),
          ApiStatusPatch csr csr' (Inr c')] \<and> n = csr_Name c' \<and> c = approved_object cenv pre c'"
    if calls: "calls = pre @ ApiUpdateApproval n c u # post" for pre n c u post
    using run unfolding calls by (rule controller_calls_run) (blast elim: controller_approval)
qed

theorem process_changes_guarded_witness:
  "\<exists>status es calls. process sample_daemon_env (control_startup ''node'') sample_manager_env sample_csr_env []
      [Tick, Quit] sample_worker status es calls \<and> disciplined False es \<and>
    EvLockAcquire True None \<in> set es \<and> EvNodeDrain ''node'' None \<in> set es \<and> EvLockRelease None \<in> set es \<and>
    (\<exists>pre post. calls = pre @ ApiUpdateApproval ''csr-1'' sample_approved None # post \<and>
       sample_approved = approved_object sample_csr_env pre
         (set_certificate ''CERTIFICATEder'' (sample_csr kubeletServerUsages)))"
proof -
  let ?csr = "sample_csr kubeletServerUsages"
  let ?crt = "set_certificate ''CERTIFICATEder'' ?csr"
  obtain status h' where main: "main sample_daemon_env (control_startup ''node'') [] [Tick, Quit] sample_worker = (status, h')"
    by (metis surj_pair)
  note run = process.main_ends [OF main control_calls]
  define pre where "pre = [ApiGet ''csr-1'' (Got ?csr), allowed_review ?csr, ApiStatusPatch ?csr ?crt (Inr ?crt)]"
  obtain post where calls: "r_log (snd (Reconcile sample_csr_env ''csr-1'' sample_reconciler)) =
      pre @ ApiUpdateApproval ''csr-1'' sample_approved None # post"
    by (simp add: sample_patch_log pre_def)
  note guarded = process_changes_guarded [OF run]
  then have approved: "\<exists>pre' name csr csr' c'. pre = pre' @ [ApiGet name (Got csr), allowed_review csr, ApiStatusPatch csr csr' (Inr c')] \<and>
      sample_approved = approved_object sample_csr_env pre c'"
    using calls by blast
  have "disciplined False (events_between sample_worker h')" using guarded by blast
  moreover have "sample_approved = approved_object sample_csr_env pre ?crt"
    using approved unfolding pre_def by auto
  moreover have "EvLockAcquire True None \<in> set (events_between sample_worker h')"
    "EvNodeDrain ''node'' None \<in> set (events_between sample_worker h')"
    "EvLockRelease None \<in> set (events_between sample_worker h')"
    using control_turn control_main [OF main] by (simp_all add: Let_def)
  ultimately show ?thesis using run calls by blast
qed

text \<open>
  A restarted process releases a lock it finds held by its node but does not make the node
  schedulable again: a run that does not itself take the lock cordons and uncordons nothing. A node
  whose process was stopped between cordon and uncordon is uncordoned by a later turn that takes the lock only.
\<close>

lemma restart_never_uncordons:
  assumes "process env senv menv cenv args wakeups h status es calls"
    and "EvLockAcquire True None \<notin> set es"
  shows "EvCordonOrUncordon node b err \<notin> set es"
  using never_held [OF assms(2) _ process_disciplined(1) [OF assms(1)]] by fastforce

text \<open>A node whose lock is still held from an earlier run.\<close>

definition held_lock_env :: daemon_env where
  "held_lock_env = sample_daemon_env\<lparr>lock_Test := (\<lambda>h meta. ((True, None), meta))\<rparr>"

text \<open>
  Checks come early enough: the period drawn at the start is at least the configured one
  (of one second to 48 days), less than twice as long, and
  nothing else of the flags changes. When \<open>renew-before\<close> covers \<open>k\<close> times twice the
  configured period, a certificate that a check leaves alone is still valid \<open>k\<close> periods later,
  so \<open>k\<close> more turns come before it expires (with the default flags 360).
\<close>

lemma next_checks_before_expiry:
  assumes "root_node senv fl = Returned (Inr (fl', corev1Node, isControlPlaneNode))"
    and "sint time_Second \<le> sint (pollingPeriod fl)" and "sint (pollingPeriod fl) \<le> 2 ^ 22 * sint time_Second"
    and "2 * int k * sint (pollingPeriod fl) \<le> sint (flag_expiryTimeToRotate fl)"
    and "checkCertificateExpiry name expiry (flag_expiryTimeToRotate fl') (Clock_Now env) h = (False, h')"
  shows "sint (pollingPeriod fl) \<le> sint (pollingPeriod fl') \<and> sint (pollingPeriod fl') < 2 * sint (pollingPeriod fl) \<and>
    fl' = fl\<lparr>pollingPeriod := pollingPeriod fl'\<rparr> \<and>
    Before (os_now env h + int k * sint (pollingPeriod fl')) expiry"
proof -
  obtain p where shift: "shift_pollingPeriod (rand_draw senv) (pollingPeriod fl) = Returned p"
    and fl': "fl' = fl\<lparr>pollingPeriod := p\<rparr>"
    using root_node_shifts [OF assms(1)] by blast
  have p: "sint (pollingPeriod fl) \<le> sint p" "sint p < 2 * sint (pollingPeriod fl)"
    using shift_pollingPeriod_range [OF assms(2,3), of "rand_draw senv"] shift by auto
  have "\<not> due expiry (os_now env h) (flag_expiryTimeToRotate fl)"
    using assms(5) by (simp add: checkCertificateExpiry_due Clock_Now_eq fl')
  moreover have "int k * sint p \<le> int k * (2 * sint (pollingPeriod fl))"
    using p(2) by (intro mult_left_mono) simp_all
  ultimately have "os_now env h + int k * sint p < expiry"
    using assms(4) by (simp add: due_def)
  with p show ?thesis by (simp add: fl' Before_def)
qed

end
