(* ===== verification/Cluster.thy ===== *)
theory Cluster
  imports Process
begin

text \<open>
  Several nodes and one lock. A run of the cluster is the list of all events of all nodes with
  their instants, in the order they happen. On each node one process of kucero runs after
  another: a process may be stopped at any point, and what it was doing stays undone until the next
  one.

  The lock of \<open>weaveworks/kured\<close> is not part of the sources; what kucero relies on is the named
  hypothesis \<open>lock_contract\<close>: an attempt to take the lock is not granted while another node has a lease
  that has neither been given back nor outlived its time to live. A node that still has the
  lease gets it again without renewing it, and a release that failed leaves the lease in doubt.

  The abstract specification is a mutex with at most one owner (\<open>mutex_run\<close>); the runs of the
  cluster refine it.
\<close>

datatype node_event = Did event | Stopped

type_synonym cluster_event = "time \<times> string \<times> node_event"

definition node_log :: "string \<Rightarrow> cluster_event list \<Rightarrow> node_event list" where
  "node_log n tr = map (\<lambda>(t, m, x). x) (filter (\<lambda>(t, m, x). m = n) tr)"

text \<open>A node is in its section from a successful attempt to take the lock until it releases it or stops.\<close>

fun held_step :: "bool \<Rightarrow> node_event \<Rightarrow> bool" where
  "held_step held (Did e) = held_after held [e]"
| "held_step held Stopped = False"

definition in_section :: "string \<Rightarrow> cluster_event list \<Rightarrow> bool" where
  "in_section n tr \<longleftrightarrow> foldl held_step False (node_log n tr)"

subsection \<open>The lock as the nodes see it\<close>

text \<open>Whose lease it is, since when, and whether it is in doubt.\<close>

type_synonym lease = "(string \<times> time \<times> bool) option"

fun lease_step :: "duration \<Rightarrow> lease \<Rightarrow> cluster_event \<Rightarrow> lease" where
  "lease_step ttl l (t, n, Did (EvLockAcquire True None)) =
     (case l of
        Some (m, s, doubt) \<Rightarrow> if m = n \<and> t < Add s ttl then Some (n, s, False) else Some (n, t, False)
      | None \<Rightarrow> Some (n, t, False))"
| "lease_step ttl l (t, n, Did (EvLockRelease err)) =
     (case l of
        Some (m, s, doubt) \<Rightarrow> if m = n then (if err = None then None else Some (n, s, True)) else l
      | None \<Rightarrow> None)"
| "lease_step ttl l x = l"

definition lease_after :: "duration \<Rightarrow> cluster_event list \<Rightarrow> lease" where
  "lease_after ttl tr = foldl (lease_step ttl) None tr"

fun may_grant :: "duration \<Rightarrow> lease \<Rightarrow> time \<Rightarrow> string \<Rightarrow> bool" where
  "may_grant ttl None t n = True"
| "may_grant ttl (Some (m, s, doubt)) t n = (m = n \<or> doubt \<or> Add s ttl \<le> t)"

fun grants_ok :: "duration \<Rightarrow> lease \<Rightarrow> cluster_event list \<Rightarrow> bool" where
  "grants_ok ttl l [] = True"
| "grants_ok ttl l ((t, n, x) # tr) =
     ((x = Did (EvLockAcquire True None) \<longrightarrow> may_grant ttl l t n) \<and> grants_ok ttl (lease_step ttl l (t, n, x)) tr)"

definition lock_contract :: "cluster_event list \<Rightarrow> bool" where
  "lock_contract tr \<longleftrightarrow> grants_ok lock_ttl None tr"

text \<open>
  Sections are short: while a node is in its section under its lease, nothing happens in the
  cluster at or after the end of that lease.
\<close>

definition prompt :: "cluster_event list \<Rightarrow> bool" where
  "prompt tr \<longleftrightarrow> (\<forall>pre t n x post m s doubt. tr = pre @ (t, n, x) # post \<and> in_section m pre \<and>
     lease_after lock_ttl pre = Some (m, s, doubt) \<longrightarrow> t < Add s lock_ttl)"

text \<open>
  A process on a node, in any environment, with any command line and wakeups, which is seen up to some
  point. The process of a node asks for the node of its name.
\<close>

definition daemon_log :: "string \<Rightarrow> event list \<Rightarrow> bool" where
  "daemon_log n es \<longleftrightarrow> (\<exists>env senv menv cenv args wakeups h status all_events calls.
     process env senv menv cenv args wakeups h status all_events calls \<and> prefix es all_events \<and>
     (\<forall>fl corev1Node isControlPlaneNode.
        enters_loop senv args fl corev1Node isControlPlaneNode \<longrightarrow> node_name corev1Node = n))"

inductive node_runs :: "string \<Rightarrow> node_event list \<Rightarrow> bool" for n where
  running: "daemon_log n es \<Longrightarrow> node_runs n (map Did es)"
| restarted: "daemon_log n es \<Longrightarrow> node_runs n xs \<Longrightarrow> node_runs n (map Did es @ Stopped # xs)"

text \<open>All nodes run kucero, and the lock keeps its contract.\<close>

definition cluster_run :: "cluster_event list \<Rightarrow> bool" where
  "cluster_run tr \<longleftrightarrow> lock_contract tr \<and> (\<forall>n. node_runs n (node_log n tr))"

subsection \<open>A node that has the lock\<close>

lemma node_log_simps [simp]:
  "node_log n [] = []"
  "node_log n ((t, m, x) # tr) = (if m = n then x # node_log n tr else node_log n tr)"
  "node_log n (tr @ tr') = node_log n tr @ node_log n tr'"
  by (simp_all add: node_log_def)

lemma in_section_Nil [simp]: "\<not> in_section n []"
  by (simp add: in_section_def)

lemma in_section_snoc [simp]:
  "in_section n (tr @ [(t, m, x)]) \<longleftrightarrow> (if m = n then held_step (in_section n tr) x else in_section n tr)"
  by (simp add: in_section_def)

lemma lease_after_snoc [simp]: "lease_after ttl (tr @ [x]) = lease_step ttl (lease_after ttl tr) x"
  by (simp add: lease_after_def)

lemma grants_ok_append:
  "grants_ok ttl l (xs @ ys) \<longleftrightarrow> grants_ok ttl l xs \<and> grants_ok ttl (foldl (lease_step ttl) l xs) ys"
proof (induction xs arbitrary: l)
  case (Cons x xs)
  obtain t n e where "x = (t, n, e)" by (cases x)
  with Cons.IH [of "lease_step ttl l x"] show ?case by simp
qed simp

lemma lock_contract_snoc:
  "lock_contract (tr @ [(t, n, x)]) \<longleftrightarrow>
     lock_contract tr \<and> (x = Did (EvLockAcquire True None) \<longrightarrow> may_grant lock_ttl (lease_after lock_ttl tr) t n)"
  by (simp add: lock_contract_def grants_ok_append lease_after_def)

lemma lock_contract_prefix: "lock_contract (xs @ ys) \<Longrightarrow> lock_contract xs"
  by (simp add: lock_contract_def grants_ok_append)

lemma prompt_prefix: "prompt (xs @ ys) \<Longrightarrow> prompt xs"
  unfolding prompt_def by (metis append.assoc append_Cons)

text \<open>The events that matter to the lock; all others leave the lease and the section as they are.\<close>

lemma node_event_cases:
  obtains (taken) "x = Did (EvLockAcquire True None)"
    | (refused) b err where "x = Did (EvLockAcquire b err)" "\<not> (b \<and> err = None)"
        "lease_step ttl l (t, n, x) = l" "\<not> held_step held x"
    | (released) err where "x = Did (EvLockRelease err)" "\<not> held_step held x"
    | (stopped) "x = Stopped"
    | (other) "lease_step ttl l (t, n, x) = l" "held_step held x = held"
proof (cases x)
  case (Did e)
  then show thesis
  proof (cases e)
    case (EvLockAcquire b err)
    with Did taken refused show thesis by (cases b; cases err) auto
  qed (use released other in auto)
qed (use stopped in auto)

text \<open>The invariant: a node in its section has the lease.\<close>

lemma section_has_lease:
  assumes "lock_contract tr" "prompt tr" "in_section n tr"
  shows "\<exists>s. lease_after lock_ttl tr = Some (n, s, False)"
  using assms
proof (induction tr arbitrary: n rule: rev_induct)
  case (snoc y tr)
  obtain t m x where y: "y = (t, m, x)" by (cases y)
  have IH: "\<exists>s. lease_after lock_ttl tr = Some (k, s, False)" if "in_section k tr" for k
    using snoc.IH [OF lock_contract_prefix [OF snoc.prems(1)] prompt_prefix [OF snoc.prems(2)] that] .
  have short: "t < Add s lock_ttl" if "in_section k tr" "lease_after lock_ttl tr = Some (k, s, d)" for k s d
    using snoc.prems(2) that unfolding prompt_def y by blast
  have sect: "if m = n then held_step (in_section n tr) x else in_section n tr" using snoc.prems(3) by (simp add: y)
  show ?case
  proof (cases rule: node_event_cases [where x = x and ttl = lock_ttl and l = "lease_after lock_ttl tr" and t = t and n = m
        and held = "in_section n tr"])
    case taken
    have "may_grant lock_ttl (lease_after lock_ttl tr) t m"
      using snoc.prems(1) taken by (simp add: y lock_contract_snoc)
    then have "k = m" if "in_section k tr" for k
      using IH [OF that] short [OF that] by force
    then have "n = m" using sect by (auto split: if_splits)
    then show ?thesis by (auto simp: y taken split: option.splits)
  next
    case (refused b err)
    then show ?thesis using IH sect by (auto simp: y split: if_splits)
  next
    case (released err)
    then have "in_section n tr" "m \<noteq> n" using sect by (auto split: if_splits)
    then show ?thesis using IH [of n] by (auto simp: y released)
  next
    case stopped
    then show ?thesis using IH sect by (auto simp: y split: if_splits)
  next
    case other
    then show ?thesis using IH sect by (auto simp: y split: if_splits)
  qed
qed simp

lemma section_exclusive:
  assumes "lock_contract tr" "prompt tr" "in_section n tr" "in_section m tr"
  shows "m = n"
  using section_has_lease [OF assms(1,2,3)] section_has_lease [OF assms(1,2,4)] by auto


subsection \<open>Every change is made in a section\<close>

text \<open>The discipline of the lock on a node, across the processes that run on it.\<close>

fun changes :: "node_event \<Rightarrow> bool" where
  "changes (Did e) = (\<not> lock_free e)"
| "changes Stopped = False"

fun node_disciplined :: "bool \<Rightarrow> node_event list \<Rightarrow> bool" where
  "node_disciplined held [] = True"
| "node_disciplined held (x # xs) = ((held \<or> \<not> changes x) \<and> node_disciplined (held_step held x) xs)"

lemma node_disciplined_append:
  "node_disciplined held (xs @ ys) \<longleftrightarrow> node_disciplined held xs \<and> node_disciplined (foldl held_step held xs) ys"
  by (induction xs arbitrary: held) auto

lemma node_disciplined_Did: "disciplined held es \<Longrightarrow> node_disciplined held (map Did es)"
  by (induction es arbitrary: held) auto

lemma daemon_log_disciplined: "daemon_log n es \<Longrightarrow> disciplined False es"
  unfolding daemon_log_def using process_disciplined(1) disciplined_prefix by blast

lemma node_runs_disciplined: "node_runs n xs \<Longrightarrow> node_disciplined False xs"
  by (induction rule: node_runs.induct)
     (auto simp: node_disciplined_append dest!: daemon_log_disciplined node_disciplined_Did)

lemma change_in_section:
  assumes "node_runs n (node_log n tr)" "tr = pre @ (t, n, x) # post" "changes x"
  shows "in_section n pre"
  using node_runs_disciplined [OF assms(1)] assms(3)
  by (simp add: assms(2) node_disciplined_append in_section_def)

subsection \<open>The mutex the cluster implements\<close>

datatype mutex_action = Enter string | Work string event | Leave string

inductive mutex_run :: "mutex_action list \<Rightarrow> string option \<Rightarrow> bool" where
  start: "mutex_run [] None"
| enter: "mutex_run as owner \<Longrightarrow> owner = None \<or> owner = Some n \<Longrightarrow> mutex_run (as @ [Enter n]) (Some n)"
| work: "mutex_run as (Some n) \<Longrightarrow> mutex_run (as @ [Work n e]) (Some n)"
| leave: "mutex_run as (Some n) \<Longrightarrow> mutex_run (as @ [Leave n]) None"

text \<open>What an event of the cluster is for the mutex, after the events \<open>pre\<close>.\<close>

fun action_of :: "cluster_event list \<Rightarrow> cluster_event \<Rightarrow> mutex_action list" where
  "action_of pre (t, n, Did e) =
     (if e = EvLockAcquire True None then [Enter n]
      else if \<not> lock_free e then [Work n e]
      else if in_section n pre \<and> \<not> held_after True [e] then [Leave n] else [])"
| "action_of pre (t, n, Stopped) = (if in_section n pre then [Leave n] else [])"

fun actions_from :: "cluster_event list \<Rightarrow> cluster_event list \<Rightarrow> mutex_action list" where
  "actions_from pre [] = []"
| "actions_from pre (x # tr) = action_of pre x @ actions_from (pre @ [x]) tr"

abbreviation actions_of :: "cluster_event list \<Rightarrow> mutex_action list" where
  "actions_of tr \<equiv> actions_from [] tr"

lemma actions_from_snoc: "actions_from pre (tr @ [x]) = actions_from pre tr @ action_of (pre @ tr) x"
  by (induction tr arbitrary: pre) auto

definition owner_is :: "cluster_event list \<Rightarrow> string option \<Rightarrow> bool" where
  "owner_is tr owner \<longleftrightarrow> (\<forall>n. in_section n tr \<longleftrightarrow> owner = Some n)"

lemma held_after_one:
  "lock_free e \<Longrightarrow> e \<noteq> EvLockAcquire True None \<Longrightarrow> held_after held [e] \<longleftrightarrow> held \<and> held_after True [e]"
  "\<not> lock_free e \<Longrightarrow> held_after held [e] = held"
  by (cases e; auto)+

text \<open>One event of the cluster is a step of the mutex, or none.\<close>

lemma mutex_simulates:
  assumes run: "mutex_run as owner" and own: "owner_is tr owner"
    and excl: "\<And>k. in_section k (tr @ [(t, n, x)]) \<Longrightarrow> x = Did (EvLockAcquire True None) \<Longrightarrow> k = n"
    and inside: "changes x \<Longrightarrow> in_section n tr"
  shows "\<exists>owner'. mutex_run (as @ action_of tr (t, n, x)) owner' \<and> owner_is (tr @ [(t, n, x)]) owner'"
proof (cases x)
  case Stopped
  then show ?thesis
    using run own mutex_run.leave [of as n]
    by (cases "in_section n tr") (auto simp: owner_is_def)
next
  case (Did e)
  consider (enter) "e = EvLockAcquire True None" | (work) "\<not> lock_free e"
    | (leave) "lock_free e" "e \<noteq> EvLockAcquire True None" "in_section n tr" "\<not> held_after True [e]"
    | (none) "lock_free e" "e \<noteq> EvLockAcquire True None" "\<not> in_section n tr \<or> held_after True [e]"
    by blast
  then show ?thesis
  proof cases
    case enter
    have "k = n" if "in_section k tr" for k using excl [of k] that Did enter by (auto split: if_splits)
    then have "owner = None \<or> owner = Some n" using own by (cases owner) (auto simp: owner_is_def)
    with enter Did own mutex_run.enter [OF run] excl show ?thesis
      by (intro exI [of _ "Some n"]) (auto simp: owner_is_def split: if_splits)
  next
    case work
    then have "in_section n tr" using inside Did by simp
    then have "owner = Some n" using own by (simp add: owner_is_def)
    moreover have "e \<noteq> EvLockAcquire True None" using work by auto
    ultimately show ?thesis using work Did own mutex_run.work [of as n e] run
      by (intro exI [of _ "Some n"]) (simp add: owner_is_def held_after_one(2))
  next
    case leave
    then have "owner = Some n" using own by (simp add: owner_is_def)
    moreover have "in_section k (tr @ [(t, n, x)]) \<longleftrightarrow> in_section k tr \<and> k \<noteq> n" for k
      using leave Did by auto
    ultimately show ?thesis using leave Did own mutex_run.leave [of as n] run
      by (intro exI [of _ None]) (simp add: owner_is_def)
  next
    case none
    then have "in_section k (tr @ [(t, n, x)]) \<longleftrightarrow> in_section k tr" for k
      using held_after_one(1) [of e "in_section n tr"] Did by auto
    with none Did own run show ?thesis by (intro exI [of _ owner]) (auto simp: owner_is_def)
  qed
qed

lemma cluster_mutex:
  assumes "lock_contract tr" "prompt tr" "\<And>n. node_disciplined False (node_log n tr)"
  shows "\<exists>owner. mutex_run (actions_of tr) owner \<and> owner_is tr owner"
  using assms
proof (induction tr rule: rev_induct)
  case Nil
  then show ?case using mutex_run.start by (auto simp: owner_is_def)
next
  case (snoc y tr)
  obtain t n x where y: "y = (t, n, x)" by (cases y)
  have nd: "node_disciplined False (node_log k tr)" for k
    using snoc.prems(3) [of k] by (simp add: node_disciplined_append)
  obtain owner where IH: "mutex_run (actions_of tr) owner" "owner_is tr owner"
    using snoc.IH [OF lock_contract_prefix [OF snoc.prems(1)] prompt_prefix [OF snoc.prems(2)] nd] by blast
  have "k = n" if "in_section k (tr @ [(t, n, x)])" "x = Did (EvLockAcquire True None)" for k
    using section_exclusive [OF snoc.prems(1,2), of n k] that by (simp add: y)
  moreover have "in_section n tr" if "changes x"
    using snoc.prems(3) [of n] that by (simp add: y node_disciplined_append in_section_def)
  ultimately show ?case using mutex_simulates [OF IH] by (simp add: y actions_from_snoc)
qed


subsection \<open>Properties of the cluster\<close>

text \<open>
  The first turn of a worker node up to the drain, all of it at one instant; and the start of the process
  that comes after one that was stopped there.
\<close>

definition worker_turn :: "string \<Rightarrow> event list" where
  "worker_turn n = [EvLockTest False None,
     EvLoadKubeconfig ''/etc/kubernetes/kubelet.conf'' (Some (Error ''no such file or directory'')),
     EvReadFile ''/var/lib/kubelet/config.yaml'' None, EvLockAcquire True None,
     EvCordonOrUncordon n True None, EvNodeDrain n None]"

definition turn_at :: "time \<Rightarrow> string \<Rightarrow> cluster_event list" where
  "turn_at t n = map (\<lambda>e. (t, n, Did e)) (worker_turn n)"

lemma node_log_at: "node_log m (map (\<lambda>e. (t, n, Did e)) es) = (if m = n then map Did es else [])"
  by (induction es) auto

lemma daemon_log_worker:
  fixes env :: daemon_env
  assumes "n \<noteq> ''''" "prefix es (events_between h (snd (rotateCertificateWhenNeeded env default_flags n False ws h)))"
  shows "daemon_log n es"
proof -
  obtain status h' where main: "main env (worker_startup n) [] ws h = (status, h')" by (metis surj_pair)
  have "prefix es (events_between h h')" using assms(2) worker_main [OF assms(1) main] by simp
  moreover obtain p where enters: "enters_loop (worker_startup n) [] (default_flags\<lparr>pollingPeriod := p\<rparr>)
      \<lparr>node_name = n, node_labels = []\<rparr> False" using worker_enters [OF assms(1)] by blast
  have "enters_loop (worker_startup n) [] fl corev1Node cp \<Longrightarrow> node_name corev1Node = n" for fl corev1Node cp
    using enters_loop_unique [OF enters, of fl corev1Node cp] by simp
  ultimately show ?thesis unfolding daemon_log_def using process.main_ends [OF main no_controller_calls] by blast
qed

text \<open>A process without a node name ends at once.\<close>

lemma daemon_log_empty: "daemon_log n []"
proof -
  obtain status h' where main: "main sample_daemon_env (worker_startup '''') [] [] sample_worker = (status, h')"
    by (metis surj_pair)
  have "\<not> enters_loop (worker_startup '''') [] fl corev1Node cp" for fl corev1Node cp
    by (simp add: enters_loop_def worker_startup_def root_node_def)
  then show ?thesis unfolding daemon_log_def using process.main_ends [OF main no_controller_calls] Nil_prefix by blast
qed

lemma node_runs_empty [simp]: "node_runs n []"
  using node_runs.running [OF daemon_log_empty] by simp

lemma worker_logs:
  "list_all (\<lambda>n. take 6 (log (snd (rotateCertificateWhenNeeded sample_daemon_env default_flags n False [Tick] sample_worker)))
     = worker_turn n) [''a'', ''b'']"
  by code_simp

lemma daemon_log_turn: "n \<in> {''a'', ''b''} \<Longrightarrow> daemon_log n (worker_turn n)"
proof -
  assume n: "n \<in> {''a'', ''b''}"
  then have "worker_turn n =
      take 6 (log (snd (rotateCertificateWhenNeeded sample_daemon_env default_flags n False [Tick] sample_worker)))"
    using worker_logs by auto
  then show ?thesis using n
    by (intro daemon_log_worker [where ws = "[Tick]" and env = sample_daemon_env and h = sample_worker])
       (auto simp: take_is_prefix events_between_def sample_worker_def)
qed

definition restart_log :: "event list" where
  "restart_log = [EvLockTest True None, EvLockRelease None]"

lemma daemon_log_restart: "n \<noteq> '''' \<Longrightarrow> daemon_log n restart_log"
  by (rule daemon_log_worker [where ws = "[]" and env = held_lock_env and h = sample_worker])
     (simp_all add: rotateCertificateWhenNeeded_def start_lock_def holding_def release_def held_lock_env_def
        restart_log_def events_between_def sample_daemon_env_def daemon_env.defs kubelet_env.defs)

lemma node_runs_turn: "n \<in> {''a'', ''b''} \<Longrightarrow> node_runs n (map Did (worker_turn n))"
  by (rule node_runs.running [OF daemon_log_turn])

lemma node_runs_restarted: "node_runs ''a'' (map Did (worker_turn ''a'') @ Stopped # map Did restart_log)"
  by (intro node_runs.restarted node_runs.running daemon_log_turn daemon_log_restart) simp_all


text \<open>A trace at one instant is prompt.\<close>

lemma instant_lease:
  "list_all (\<lambda>x. fst x = t) tr \<Longrightarrow> lease_after ttl tr = Some (m, s, d) \<Longrightarrow> s = t"
proof (induction tr arbitrary: m s d rule: rev_induct)
  case (snoc y tr)
  obtain k x where y: "y = (t, k, x)" using snoc.prems(1) by (cases y) auto
  have "list_all (\<lambda>x. fst x = t) tr" using snoc.prems(1) by simp
  note IH = snoc.IH [OF this]
  show ?case
    by (cases rule: node_event_cases [where x = x and ttl = ttl and l = "lease_after ttl tr" and t = t and n = k and held = True])
       (use snoc.prems(2) IH in \<open>auto simp: y split: option.splits if_splits\<close>)
qed (simp add: lease_after_def)

lemma instant_prompt: "list_all (\<lambda>x. fst x = t) tr \<Longrightarrow> prompt tr"
  unfolding prompt_def using instant_lease [of t] by (fastforce simp: Add_def lock_ttl_def)

text \<open>
  Node a is stopped while it drains; its next process gives the lock back, and node b takes it.
\<close>

definition handover :: "cluster_event list" where
  "handover = turn_at 0 ''a'' @ [(0, ''a'', Stopped)] @ map (\<lambda>e. (0, ''a'', Did e)) restart_log @ turn_at 0 ''b''"

lemma handover_log:
  "node_log n handover =
     (if n = ''a'' then map Did (worker_turn ''a'') @ Stopped # map Did restart_log
      else if n = ''b'' then map Did (worker_turn ''b'') else [])"
  by (simp add: handover_def turn_at_def node_log_at)

lemma handover_ok: "cluster_run handover" "prompt handover"
proof -
  have "lock_contract handover"
    by (simp add: lock_contract_def handover_def turn_at_def worker_turn_def restart_log_def)
  moreover have "node_runs n (node_log n handover)" for n
    using node_runs_restarted node_runs_turn [of "''b''"] by (simp add: handover_log)
  ultimately show "cluster_run handover" by (simp add: cluster_run_def)
  show "prompt handover"
    by (rule instant_prompt [of 0]) (auto simp: handover_def turn_at_def list_all_iff)
qed

text \<open>
  Claim C3. Across the cluster, kucero changes one node at a time: in every run of the cluster in which
  the lock keeps its contract and no section outlives its lease of \<open>lock_ttl\<close>, whenever a node changes
  anything (cordon, drain, command, file), that node has the lock and no other node does.
  Processes may be stopped at any point and started again.
\<close>

theorem cluster_mutual_exclusion:
  assumes "cluster_run tr" and "prompt tr"
    and "tr = pre @ (t, n, Did e) # post" and "\<not> lock_free e"
  shows "in_section n pre \<and> (\<forall>m. in_section m pre \<longrightarrow> m = n)"
proof -
  have "lock_contract pre" "prompt pre"
    using assms(1,2) lock_contract_prefix prompt_prefix unfolding cluster_run_def assms(3) by blast+
  moreover have "node_runs n (node_log n tr)" using assms(1) by (simp add: cluster_run_def)
  then have "in_section n pre" using change_in_section [OF _ assms(3)] assms(4) by simp
  ultimately show ?thesis using section_exclusive by blast
qed

theorem cluster_mutual_exclusion_witness:
  "in_section ''b'' (butlast handover) \<and> \<not> in_section ''a'' (butlast handover)"
proof -
  have split: "handover = butlast handover @ (0, ''b'', Did (EvNodeDrain ''b'' None)) # []"
    by (simp add: handover_def turn_at_def worker_turn_def restart_log_def)
  have "\<not> lock_free (EvNodeDrain ''b'' None)" by simp
  from cluster_mutual_exclusion [OF handover_ok split this] show ?thesis by auto
qed

text \<open>
  Claim C5. The cluster implements a mutex: every run of it in which the lock keeps its contract and no
  section outlives its lease is, event by event, a run of a mutex with at most one owner, in which
  only the owner works; the owner at the end is the one node in its section, if there is
  one. Stopping a process gives the mutex up.
\<close>

theorem cluster_refines_mutex:
  assumes "cluster_run tr" and "prompt tr"
  shows "\<exists>owner. mutex_run (actions_of tr) owner \<and> (\<forall>n. in_section n tr \<longleftrightarrow> owner = Some n)"
  using assms cluster_mutex [of tr] node_runs_disciplined by (auto simp: cluster_run_def owner_is_def)

theorem cluster_refines_mutex_witness:
  "mutex_run [Enter ''a'', Work ''a'' (EvCordonOrUncordon ''a'' True None), Work ''a'' (EvNodeDrain ''a'' None), Leave ''a'',
     Enter ''b'', Work ''b'' (EvCordonOrUncordon ''b'' True None), Work ''b'' (EvNodeDrain ''b'' None)] (Some ''b'')"
proof -
  obtain owner where run: "mutex_run (actions_of handover) owner" "\<forall>n. in_section n handover \<longleftrightarrow> owner = Some n"
    using cluster_refines_mutex [OF handover_ok] by blast
  have "in_section ''b'' handover" by (simp add: in_section_def handover_log worker_turn_def)
  then have "owner = Some ''b''" using run(2) by blast
  moreover have "actions_of handover =
      [Enter ''a'', Work ''a'' (EvCordonOrUncordon ''a'' True None), Work ''a'' (EvNodeDrain ''a'' None), Leave ''a'',
       Enter ''b'', Work ''b'' (EvCordonOrUncordon ''b'' True None), Work ''b'' (EvNodeDrain ''b'' None)]"
    by code_simp
  ultimately show ?thesis using run(1) by simp
qed







end
