(* ===== verification/Renewal.thy ===== *)
theory Renewal
  imports Process
begin

text \<open>
  From the expiration table to the renewal, on a control-plane node: what one turn of the loop reads from kubeadm,
  which certificates it finds due and what it does about them, across \<open>Kubeadm\<close>, \<open>Node\<close> and
  \<open>Daemon\<close>; and the turns of the loop one after another.
\<close>

subsection \<open>One turn\<close>

text \<open>The parts of a turn on a control-plane node that takes the lock and returns.\<close>

lemma control_plane_turn:
  assumes "tick env (Node_New env True name d client server) node meta h = (Returned (), meta', h')"
    and "EvLockAcquire True None \<in> set (events_between h h')"
  obtains h1 certs err h2 h3 where
    "runs (\<lambda>e. query_event e \<and> config_event e) h h1"
    "Kubeadm_CheckExpiration env (Kubeadm_New env name d) h1 = (Returned (certs, err), h2)"
    "log h3 = log h2 @ [EvLockAcquire True None]"
    "\<exists>cs. rotate_under_lock env (Node_New env True name d client server) node meta' cs certs h3 = (Returned (), h')"
proof -
  let ?nd = "Node_New env True name d client server"
  have fields: "node_CheckConfig ?nd = CheckConfig env (Kubelet_New name client server)"
    "node_CheckExpiration ?nd = Kubeadm_CheckExpiration env (Kubeadm_New env name d)"
    by (simp_all add: Node_New_def Let_def)
  obtain cs e0 h1 where conf: "CheckConfig env (Kubelet_New name client server) h = ((cs, e0), h1)"
    by (metis surj_pair)
  have q1: "runs (\<lambda>e. query_event e \<and> config_event e) h h1" by (rule CheckConfig_config(1) [OF conf])
  obtain q h2 where exp: "Kubeadm_CheckExpiration env (Kubeadm_New env name d) h1 = (q, h2)" by (metis surj_pair)
  have q2: "runs query_event h1 h2" by (rule Kubeadm_check_queries [OF exp])
  obtain certs err where q: "q = Returned (certs, err)"
    using assms(1) conf exp unfolding tick_def fields by (auto split: outcome.splits)
  have "runs query_event h h2" using runs_mono [OF q1] q2 runs_trans by blast
  then have absent: "EvLockAcquire True None \<notin> set (events_between h h2)"
    using events_between_runs [of query_event h h2 "EvLockAcquire True None"] by auto
  then have "h' \<noteq> h2" using assms(2) by blast
  obtain b holder e meta1 where acq: "lock_Acquire env h2 meta lock_ttl = ((b, holder, e), meta1)"
    by (metis surj_pair)
  have due: "0 < length cs \<or> 0 < length certs"
    using assms(1) conf exp q \<open>h' \<noteq> h2\<close> unfolding tick_def fields by (auto split: if_splits)
  have "b \<and> e = None"
  proof (rule ccontr)
    assume "\<not> (b \<and> e = None)"
    then have "h' = emit (EvLockAcquire b e) h2"
      using assms(1) conf exp q due acq unfolding tick_def fields acquire_def
      by (auto simp: Let_def split: if_splits)
    with \<open>runs query_event h h2\<close> assms(2) absent \<open>\<not> (b \<and> e = None)\<close> show False
      by (auto simp: runs_def events_between_def)
  qed
  then have "rotate_under_lock env ?nd node meta' cs certs (emit (EvLockAcquire True None) h2) = (Returned (), h')"
    using assms(1) conf exp q due acq unfolding tick_def fields acquire_def
    by (auto simp: Let_def split: if_splits prod.splits)
  with q1 exp q show thesis by (intro that) auto
qed

text \<open>The expiration table is read nowhere else in a turn.\<close>

fun no_table :: "event \<Rightarrow> bool" where
  "no_table (EvOutput args _) = (\<forall>b. args \<noteq> certs_args b [''check-expiration''])"
| "no_table _ = True"

lemma certs_args_not_version: "certs_args b args \<noteq> version_args"
  by (simp add: certs_args_def certs_cmd_def version_args_def kubeadm_cmd_def nsenter_def NewCommandWithStdout_def)

lemma config_no_table: "config_event e \<Longrightarrow> no_table e"
  by (cases e) auto

lemma cert_block_no_table: "cert_block env c es r \<Longrightarrow> list_all no_table es"
  by (erule cert_blockE) (auto simp: certs_args_not_version [symmetric])

lemma loop_trace_no_table: "loop_trace env cs errs es r \<Longrightarrow> list_all no_table es"
  by (induction rule: loop_trace.induct) (auto dest: cert_block_no_table)

lemma Kubeadm_Rotate_no_table: "Kubeadm_Rotate env k cs h = (r, h') \<Longrightarrow> runs no_table h h'"
  unfolding runs_def by (drule Kubeadm_Rotate_log) (auto dest: loop_trace_no_table)

lemma rotation_in_section:
  assumes "rotate_under_lock env (Node_New env True name d client server) node meta cs certs h = (Returned (), h')"
  shows "\<exists>es. log h' = log h @ es \<and> list_all no_table es \<and>
    (\<forall>c path. c \<in> set certs \<and> map_of certificates c = Some path \<longrightarrow> renewal_tried env c path es)"
proof -
  let ?nd = "Node_New env True name d client server"
  have fields: "node_UpdateConfig ?nd = UpdateConfig env (Kubelet_New name client server)"
    "node_Rotate ?nd = Kubeadm_Rotate env (Kubeadm_New env name d)"
    by (simp_all add: Node_New_def Let_def)
  define h0 where "h0 = (if \<not> Unschedulable meta then snd (Drain env node (snd (Cordon env node h))) else h)"
  define hk where "hk = (if 0 < length cs then snd (UpdateConfig env (Kubelet_New name client server) cs h0) else h0)"
  obtain q hk' where rot: "(if 0 < length certs then Kubeadm_Rotate env (Kubeadm_New env name d) certs hk
      else (Returned None, hk)) = (q, hk')" by (metis surj_pair)
  have body: "(case q of Panicked m \<Rightarrow> (Panicked m, hk')
     | Returned err \<Rightarrow> (Returned (), release env (if \<not> Unschedulable meta then snd (Uncordon env node hk') else hk'))) =
     (Returned (), h')"
    using assms unfolding rotate_under_lock_def Let_def fields h0_def [symmetric] hk_def [symmetric] rot
    by (cases q) simp_all
  obtain x where q: "q = Returned x" using body by (cases q) simp_all
  have "runs no_table h h0"
    using cordon_logs(1) [of env node h] cordon_logs(2) [of env node "snd (Cordon env node h)"]
    by (auto simp: h0_def runs_def)
  moreover have "runs no_table h0 hk"
    using UpdateConfig_config [of env "Kubelet_New name client server" cs h0, OF surjective_pairing]
      runs_mono [of config_event] config_no_table by (auto simp: hk_def)
  ultimately have "runs no_table h hk" by (rule runs_trans)
  then obtain pre where pre: "log hk = log h @ pre" "list_all no_table pre" by (auto simp: runs_def)
  have "runs no_table hk' h'"
    using body q cordon_logs(3) [of env node hk'] by (auto simp: release_def Let_def runs_def)
  then obtain post where post: "log h' = log hk' @ post" "list_all no_table post" by (auto simp: runs_def)
  have "runs no_table hk hk'" using rot Kubeadm_Rotate_no_table by (auto split: if_splits)
  then obtain es where es: "log hk' = log hk @ es" "list_all no_table es" by (auto simp: runs_def)
  have "renewal_tried env c path es" if "c \<in> set certs" "map_of certificates c = Some path" for c path
    using rot q that Kubeadm_Rotate_tried [of env "Kubeadm_New env name d" certs hk x hk' c path] es(1)
    by (auto split: if_splits)
  then have "renewal_tried env c path (pre @ es @ post)"
    if "c \<in> set certs" "map_of certificates c = Some path" for c path
    using that renewal_tried_append by blast
  with pre es post show ?thesis by (intro exI [of _ "pre @ es @ post"]) auto
qed

lemma checked_certificates:
  assumes "range_order env"
    and check: "Kubeadm_CheckExpiration env (Kubeadm_New env name d) h = (Returned (certs, err), h')"
    and out: "EvOutput (certs_args b [''check-expiration'']) (Inr out) \<in> set (events_between h h')"
    and c: "map_of (parsekubeadmAlphaCertsCheckExpiration (os_lookupName env) out) c = Some t"
    and due: "\<forall>now. EvNow now \<in> set (events_between h h') \<longrightarrow> due t now d"
  shows "c \<in> set certs"
proof -
  note differ = certs_args_not_version
  have "err = None"
  proof (rule ccontr)
    assume "err \<noteq> None"
    with check have "(\<exists>e. events_between h h' = [EvOutput version_args (Inl e)]) \<or>
        (\<exists>v b' e. events_between h h' = [EvOutput version_args (Inr v), EvOutput (certs_args b' [''check-expiration'']) (Inl e)])"
      by (auto simp: Kubeadm_CheckExpiration_def kubeadmAlphaCertsCheckExpiration_def Cmd_Output_kubeadm
          events_between_def Let_def split: prod.splits sum.splits outcome.splits)
    with out differ show False by auto
  qed
  with CheckExpiration_spec [OF assms(1)] check obtain ver b' out' ks ts where
    ev: "events_between h h' = [EvOutput version_args (Inr ver),
      EvOutput (certs_args b' [''check-expiration'']) (Inr out')] @ map EvNow ts"
    and ks: "mset ks = mset (map fst (parsekubeadmAlphaCertsCheckExpiration (os_lookupName env) out'))"
    "length ts = length ks"
    "certs = map fst (filter (due_now (parsekubeadmAlphaCertsCheckExpiration (os_lookupName env) out') d) (zip ks ts))"
    unfolding Let_def by blast
  have "out' = out" using out ev differ by auto
  with c have "c \<in> set ks" using ks(1) by (metis domI dom_map_of_conv_image_fst list.set_map mset_eq_set)
  then obtain i where i: "i < length ks" "ks ! i = c" by (auto simp: in_set_conv_nth)
  then have "ts ! i \<in> set ts" using ks(2) by simp
  then have "due t (ts ! i) d" using due ev by auto
  then have "due_now (parsekubeadmAlphaCertsCheckExpiration (os_lookupName env) out') d (c, ts ! i)"
    using c \<open>out' = out\<close> by (simp add: due_now_def)
  moreover have "(c, ts ! i) \<in> set (zip ks ts)" using i ks(2) by (force simp: in_set_zip)
  ultimately show ?thesis unfolding ks(3) by force
qed

lemma due_certificates_tried:
  assumes "range_order env"
    and run: "tick env (Node_New env True name d client server) node meta h = (Returned (), meta', h')"
    and held: "EvLockAcquire True None \<in> set (events_between h h')"
    and out: "EvOutput (certs_args b [''check-expiration'']) (Inr out) \<in> set (events_between h h')"
    and c: "map_of (parsekubeadmAlphaCertsCheckExpiration (os_lookupName env) out) c = Some t"
    and due: "\<forall>now. EvNow now \<in> set (events_between h h') \<longrightarrow> due t now d"
    and known: "map_of certificates c = Some path"
  shows "renewal_tried env c path (events_between h h')"
proof -
  obtain h1 certs err h2 h3 where q1: "runs (\<lambda>e. query_event e \<and> config_event e) h h1"
    and check: "Kubeadm_CheckExpiration env (Kubeadm_New env name d) h1 = (Returned (certs, err), h2)"
    and h3: "log h3 = log h2 @ [EvLockAcquire True None]"
    and "\<exists>cs. rotate_under_lock env (Node_New env True name d client server) node meta' cs certs h3 = (Returned (), h')"
    by (rule control_plane_turn [OF run held])
  then obtain cs where sect: "rotate_under_lock env (Node_New env True name d client server) node meta' cs certs h3 = (Returned (), h')"
    by blast
  obtain a1 where a1: "log h1 = log h @ a1" "list_all no_table a1"
    using q1 config_no_table by (auto simp: runs_def list_all_iff)
  obtain a2 where a2: "log h2 = log h1 @ a2" using Kubeadm_check_queries [OF check] by (auto simp: runs_def)
  obtain a3 where a3: "log h' = log h3 @ a3" "list_all no_table a3"
    and tried: "c \<in> set certs \<Longrightarrow> renewal_tried env c path a3"
    using rotation_in_section [OF sect] known by blast
  have ev: "events_between h h' = a1 @ a2 @ EvLockAcquire True None # a3"
    "events_between h1 h2 = a2"
    using a1 a2 a3 h3 by (simp_all add: events_between_def)
  have "EvOutput (certs_args b [''check-expiration'']) (Inr out) \<in> set a2"
    using out a1(2) a3(2) unfolding ev list_all_iff by (auto dest!: bspec)
  then have "c \<in> set certs" using checked_certificates [OF assms(1) check _ c] due unfolding ev by auto
  then have "renewal_tried env c path a3" using tried by blast
  then show ?thesis
    unfolding ev using renewal_tried_appendI(1) [of env c path a3 "a1 @ a2 @ [EvLockAcquire True None]"] by simp
qed


text \<open>A control-plane node on which everything works and the API server's certificate is due.\<close>

definition sample_control_plane_env :: daemon_env where
  "sample_control_plane_env = kubelet_env.extend
     (host_env.extend sample_env (kubelet_env.fields sample_Load sample_Write (\<lambda>b. Inr (Kubelet_Conf.reads []))))
     (daemon_env.fields (\<lambda>h meta. ((False, None), meta)) (\<lambda>h meta ttl. ((True, ''node'', None), meta)) (\<lambda>h. None))"

lemma sample_control_plane_simps:
  "os_output sample_control_plane_env = os_output sample_env"
  "os_run sample_control_plane_env = os_run sample_env" "os_now sample_control_plane_env = os_now sample_env"
  "range_keys sample_control_plane_env = range_keys sample_env"
  "os_lookupName sample_control_plane_env = os_lookupName sample_env"
  "semver_AtLeast sample_control_plane_env = semver_AtLeast sample_env"
  "os_read_fault sample_control_plane_env h path = None"
  "clientcmd_LoadFromFile sample_control_plane_env = sample_Load"
  "lock_Acquire sample_control_plane_env h meta ttl = ((True, ''node'', None), meta)"
  by (simp_all add: sample_control_plane_env_def sample_env_def host_env.defs kubelet_env.defs daemon_env.defs)

lemma sample_control_plane_version: "at_least_1_20 sample_control_plane_env out = at_least_1_20 sample_env out"
  by (simp add: at_least_1_20_def sample_control_plane_simps)

lemma sample_control_plane_tick:
  "\<exists>h'. tick sample_control_plane_env (Node_New sample_control_plane_env True ''node'' thirty_days True True)
       ''node'' \<lparr>Unschedulable = False\<rparr> sample_host = (Returned (), \<lparr>Unschedulable = False\<rparr>, h') \<and>
     EvLockAcquire True None \<in> set (events_between sample_host h') \<and>
     EvOutput (certs_args True [''check-expiration'']) (Inr sample_output) \<in> set (events_between sample_host h') \<and>
     (\<forall>now. EvNow now \<in> set (events_between sample_host h') \<longrightarrow> now = Date 2021 5 1 0 0 0 0)"
proof -
  have "certs_args True [''check-expiration''] \<noteq> version_args" by code_simp
  moreover have "map_of certificates ''apiserver'' = Some ''/etc/kubernetes/pki/apiserver.crt''" by code_simp
  ultimately show ?thesis
    by (simp add: tick_def Node_New_def CheckConfig_def configs_def checkEtcKubernetesKubeletConf_def
        checkVarLibKubeletConfigYaml_def LoadFromFile_def ReadFile_def sample_Load_def sample_host_def
        Kubeadm_CheckExpiration_def Kubeadm_New_def kubeadmAlphaCertsCheckExpiration_def
        Cmd_Output_kubeadm sample_commands sample_parse checkCertificateExpiry_due Clock_Now_eq sample_due
        sample_control_plane_simps sample_control_plane_version acquire_def rotate_under_lock_def Cordon_def Drain_def
        Uncordon_def release_def RestartKubelet_def
        Kubeadm_Rotate_def backupCertificate_def rotateCertificate_def kubeadmAlphaCertsRenew_def Cmd_Run_def
        Let_def events_between_def del: append_Cons)
qed

text \<open>
  Claim C9. No due certificate is forgotten: in a turn of a control-plane node that takes the lock and
  returns, every certificate of the expiration table read in that turn that kucero knows and
  that is due at every clock reading of the turn is renewed, unless its own backup failed or
  kubeadm's version could not be asked; failures of other certificates do not stop it.
\<close>

theorem due_certificates_are_rotated:
  assumes "range_order env"
    and "tick env (Node_New env True name d client server) node meta h = (Returned (), meta', h')"
    and "EvLockAcquire True None \<in> set (events_between h h')"
    and "EvOutput (certs_args b [''check-expiration'']) (Inr out) \<in> set (events_between h h')"
    and "map_of (parsekubeadmAlphaCertsCheckExpiration (os_lookupName env) out) c = Some t"
    and "\<forall>now. EvNow now \<in> set (events_between h h') \<longrightarrow> due t now d"
    and "map_of certificates c = Some path"
  shows "(\<exists>b r. EvRun (renew_args b c) r \<in> set (events_between h h')) \<or>
         (\<exists>now e. EvRun (backup_args env path now) (Some e) \<in> set (events_between h h')) \<or>
         (\<exists>e. EvOutput version_args (Inl e) \<in> set (events_between h h'))"
  using due_certificates_tried [OF assms] by (rule renewal_tried_events)

theorem due_certificates_are_rotated_witness:
  "\<exists>h'. (\<exists>b r. EvRun (renew_args b ''apiserver'') r \<in> set (events_between sample_host h')) \<or>
     (\<exists>now e. EvRun (backup_args sample_control_plane_env ''/etc/kubernetes/pki/apiserver.crt'' now) (Some e) \<in> set (events_between sample_host h')) \<or>
     (\<exists>e. EvOutput version_args (Inl e) \<in> set (events_between sample_host h'))"
proof -
  obtain h' where run: "tick sample_control_plane_env (Node_New sample_control_plane_env True ''node'' thirty_days True True)
       ''node'' \<lparr>Unschedulable = False\<rparr> sample_host = (Returned (), \<lparr>Unschedulable = False\<rparr>, h')"
    and ev: "EvLockAcquire True None \<in> set (events_between sample_host h')"
     "EvOutput (certs_args True [''check-expiration'']) (Inr sample_output) \<in> set (events_between sample_host h')"
     "\<forall>now. EvNow now \<in> set (events_between sample_host h') \<longrightarrow> now = Date 2021 5 1 0 0 0 0"
    using sample_control_plane_tick by blast
  have order: "range_order sample_control_plane_env"
    using sample_range_order by (simp add: range_order_def sample_control_plane_simps)
  have entry: "map_of (parsekubeadmAlphaCertsCheckExpiration (os_lookupName sample_control_plane_env) sample_output) ''apiserver'' =
      Some (Date 2021 5 12 2 29 0 0)"
    by (simp add: sample_control_plane_simps sample_commands sample_parse)
  have due: "\<forall>now. EvNow now \<in> set (events_between sample_host h') \<longrightarrow> due (Date 2021 5 12 2 29 0 0) now thirty_days"
    using ev(3) sample_due(1) by blast
  have known: "map_of certificates ''apiserver'' = Some ''/etc/kubernetes/pki/apiserver.crt''" by code_simp
  from due_certificates_are_rotated [OF order run ev(1,2) entry due known] show ?thesis by blast
qed


subsection \<open>Turn after turn\<close>

text \<open>The state in which the turn number \<open>j\<close> starts; \<open>None\<close> when a turn before it panicked.\<close>

primrec turn_start ::
  "'e daemon_env_scheme \<Rightarrow> Node \<Rightarrow> string \<Rightarrow> nodeMeta \<Rightarrow> host \<Rightarrow> nat \<Rightarrow> (nodeMeta \<times> host) option" where
  "turn_start env nd node meta h 0 = Some (meta, h)"
| "turn_start env nd node meta h (Suc j) =
     (case turn_start env nd node meta h j of
        None \<Rightarrow> None
      | Some (meta, h) \<Rightarrow>
          (case tick env nd node meta h of
             (Panicked m, meta, h) \<Rightarrow> None
           | (Returned _, meta, h) \<Rightarrow> Some (meta, h)))"

lemma turn_start_shift:
  "turn_start env nd node meta h (Suc j) =
     (case tick env nd node meta h of
        (Panicked m, meta, h) \<Rightarrow> None
      | (Returned _, meta, h) \<Rightarrow> turn_start env nd node meta h j)"
proof (induction j)
  case (Suc j)
  have "turn_start env nd node meta h (Suc (Suc j)) =
      (case turn_start env nd node meta h (Suc j) of None \<Rightarrow> None
       | Some (meta, h) \<Rightarrow> (case tick env nd node meta h of
             (Panicked m, meta, h) \<Rightarrow> None | (Returned _, meta, h) \<Rightarrow> Some (meta, h)))"
    by (rule turn_start.simps(2))
  also have "\<dots> = (case tick env nd node meta h of
        (Panicked m, meta, h) \<Rightarrow> None | (Returned _, meta, h) \<Rightarrow> turn_start env nd node meta h (Suc j))"
    unfolding Suc.IH by (simp split: prod.split outcome.split)
  finally show ?case .
qed (simp split: prod.split outcome.split)

text \<open>These are the turns of the loop.\<close>

lemma loop_is_turns:
  "certificate_loop env nd node meta (replicate n Tick) h = (Returned (), h') \<longleftrightarrow>
     (\<exists>meta'. turn_start env nd node meta h n = Some (meta', h'))"
proof (induction n arbitrary: meta h)
  case (Suc n)
  obtain r meta1 h1 where t: "tick env nd node meta h = (r, meta1, h1)" by (metis surj_pair)
  show ?case unfolding turn_start_shift using Suc.IH [of meta1 h1] t by (cases r) simp_all
qed simp

text \<open>
  The turns are on time: every clock reading of turn \<open>j\<close> falls into the \<open>j\<close>-th polling period, that
  is, the ticks come when they should and a turn is done before the next tick.
\<close>

definition on_time ::
  "'e daemon_env_scheme \<Rightarrow> Node \<Rightarrow> string \<Rightarrow> nodeMeta \<Rightarrow> host \<Rightarrow> time \<Rightarrow> duration \<Rightarrow> bool" where
  "on_time env nd node meta h start period \<longleftrightarrow>
     (\<forall>j meta1 h1 r meta2 h2 now.
        turn_start env nd node meta h j = Some (meta1, h1) \<and> tick env nd node meta1 h1 = (r, meta2, h2) \<and>
        EvNow now \<in> set (events_between h1 h2) \<longrightarrow>
        start + int j * sint period \<le> now \<and> now < start + (int j + 1) * sint period)"

lemma renewal_window:
  fixes p d start t :: int
  assumes "0 < p" "(int k + 1) * p \<le> d" "start + (int k + 1) * p \<le> t"
  obtains j0 where "t - d \<le> start + int j0 * p" "start + int (j0 + k) * p \<le> t"
proof (cases "start + d \<le> t")
  case False
  have "start + int (0 + k) * p \<le> t" using assms(1,3) by (simp add: algebra_simps)
  with False show thesis using that [of 0] by simp
next
  case True
  define q where "q = (t - d - start + p - 1) div p"
  have x: "t - d - start + p - 1 = p * q + (t - d - start + p - 1) mod p" by (simp add: q_def)
  have "0 \<le> (t - d - start + p - 1) mod p" "(t - d - start + p - 1) mod p < p" using assms(1) by simp_all
  with x have q: "t - d - start \<le> p * q" "p * q \<le> t - d - start + p - 1" by linarith+
  have "0 \<le> q" using assms(1) True by (simp add: q_def pos_imp_zdiv_nonneg_iff)
  then have "int (nat q) = q" by simp
  moreover have "start + (q + int k) * p \<le> t" using q(2) assms(2) by (simp add: algebra_simps)
  ultimately show thesis using that [of "nat q"] q(1) by (simp add: mult.commute)
qed


text \<open>The turns of the main goroutine after \<open>root\<close> has found the node and the lock has been looked after.\<close>

definition loop_node :: "'e daemon_env_scheme \<Rightarrow> flags \<Rightarrow> string \<Rightarrow> bool \<Rightarrow> Node" where
  "loop_node env fl node isControlPlaneNode = Node_New env isControlPlaneNode node (flag_expiryTimeToRotate fl)
     (flag_enableKubeletClientCertRotation fl) (flag_enableKubeletServerCertRotation fl)"

lemma daemon_is_turns:
  assumes "start_lock env h = (meta, h1)"
  shows "rotateCertificateWhenNeeded env fl node cp (replicate n Tick) h = (Returned (), h') \<longleftrightarrow>
    (\<exists>meta'. turn_start env (loop_node env fl node cp) node meta h1 n = Some (meta', h'))"
  using assms by (simp add: rotateCertificateWhenNeeded_def loop_node_def loop_is_turns)

lemma drawn_period:
  assumes "root_node senv fl = Returned (Inr (fl', n, cp))"
    and "sint time_Second \<le> sint (pollingPeriod fl)" and "sint (pollingPeriod fl) \<le> 2 ^ 22 * sint time_Second"
  shows "0 < sint (pollingPeriod fl')" "sint (pollingPeriod fl') \<le> 2 * sint (pollingPeriod fl)"
    "flag_expiryTimeToRotate fl' = flag_expiryTimeToRotate fl"
proof -
  obtain p where shift: "shift_pollingPeriod (rand_draw senv) (pollingPeriod fl) = Returned p"
    and fl': "fl' = fl\<lparr>pollingPeriod := p\<rparr>" using root_node_shifts [OF assms(1)] by blast
  have "sint (pollingPeriod fl) \<le> sint p" "sint p < 2 * sint (pollingPeriod fl)"
    using shift_pollingPeriod_range [OF assms(2,3), of "rand_draw senv"] shift by auto
  with assms(2) show "0 < sint (pollingPeriod fl')" "sint (pollingPeriod fl') \<le> 2 * sint (pollingPeriod fl)"
    "flag_expiryTimeToRotate fl' = flag_expiryTimeToRotate fl"
    by (simp_all add: fl')
qed

lemma on_time_due:
  assumes "on_time env nd node meta h start p"
    and "turn_start env nd node meta h j = Some (meta1, h1)" "tick env nd node meta1 h1 = (r, meta2, h2)"
    and "t - sint d \<le> start + int j * sint p"
  shows "\<forall>now. EvNow now \<in> set (events_between h1 h2) \<longrightarrow> due t now d"
proof (intro allI impI)
  fix now assume "EvNow now \<in> set (events_between h1 h2)"
  then have "start + int j * sint p \<le> now" using assms(1-3) unfolding on_time_def by blast
  with assms(4) show "due t now d" by (simp add: due_def)
qed


subsection \<open>A node whose clock goes on\<close>

text \<open>The sample control-plane node with a clock that advances by one period with every table that is read.\<close>

fun table_read :: "event \<Rightarrow> nat" where
  "table_read (EvOutput args _) = (if args = version_args then 0 else 1)"
| "table_read _ = 0"

definition tables :: "event list \<Rightarrow> nat" where
  "tables es = sum_list (map table_read es)"

lemma tables_simps [simp]:
  "tables [] = 0" "tables (e # es) = table_read e + tables es" "tables (xs @ ys) = tables xs + tables ys"
  by (simp_all add: tables_def)

definition clock_env :: "time \<Rightarrow> int \<Rightarrow> daemon_env" where
  "clock_env start p = sample_control_plane_env\<lparr>os_now := (\<lambda>h. start + p * (int (tables (log h)) - 1))\<rparr>"

lemma clock_env_simps:
  "os_output (clock_env start p) = os_output sample_env"
  "os_run (clock_env start p) = os_run sample_env"
  "os_now (clock_env start p) h = start + p * (int (tables (log h)) - 1)"
  "range_keys (clock_env start p) = range_keys sample_env"
  "os_lookupName (clock_env start p) = os_lookupName sample_env"
  "os_read_fault (clock_env start p) h path = None"
  "clientcmd_LoadFromFile (clock_env start p) = sample_Load"
  "lock_Acquire (clock_env start p) h meta ttl = ((True, ''node'', None), meta)"
  "at_least_1_20 (clock_env start p) out = at_least_1_20 sample_env out"
  by (simp_all add: clock_env_def sample_control_plane_simps sample_control_plane_version at_least_1_20_def)

lemma two_names: "[a] @ [b] = [a, b]"
  by simp

lemma clock_turn:
  assumes "files h = Map.empty"
  shows "\<exists>h'. tick (clock_env start p) (Node_New (clock_env start p) True ''node'' d True True) ''node''
      \<lparr>Unschedulable = False\<rparr> h = (Returned (), \<lparr>Unschedulable = False\<rparr>, h') \<and>
     files h' = Map.empty \<and> tables (log h') = tables (log h) + 1 \<and>
     (\<forall>now. EvNow now \<in> set (events_between h h') \<longrightarrow> now = start + p * int (tables (log h))) \<and>
     (due (Date 2021 5 12 2 29 0 0) (start + p * int (tables (log h))) d \<longrightarrow>
        EvLockAcquire True None \<in> set (events_between h h') \<and>
        EvOutput (certs_args True [''check-expiration'']) (Inr sample_output) \<in> set (events_between h h'))"
proof -
  have "certs_args True [''check-expiration''] \<noteq> version_args" by code_simp
  moreover have "map_of certificates ''apiserver'' = Some ''/etc/kubernetes/pki/apiserver.crt''"
    "map_of certificates ''etcd-ca'' = None" by code_simp+
  ultimately show ?thesis using assms
    by (cases "due (Date 2021 5 12 2 29 0 0) (start + p * int (tables (log h))) d";
        cases "due (Date 2030 3 11 1 51 0 0) (start + p * int (tables (log h))) d")
      (simp_all add: tick_def Node_New_def CheckConfig_def configs_def checkEtcKubernetesKubeletConf_def
        checkVarLibKubeletConfigYaml_def LoadFromFile_def ReadFile_def sample_Load_def
        Kubeadm_CheckExpiration_def Kubeadm_New_def kubeadmAlphaCertsCheckExpiration_def
        Cmd_Output_kubeadm sample_commands sample_parse checkCertificateExpiry_due Clock_Now_eq
        clock_env_simps acquire_def rotate_under_lock_def Cordon_def Drain_def
        Uncordon_def release_def RestartKubelet_def
        Kubeadm_Rotate_def backupCertificate_def rotateCertificate_def kubeadmAlphaCertsRenew_def Cmd_Run_def
        Let_def events_between_def two_names del: append_Cons)
qed

lemma clock_turns:
  assumes "files h = Map.empty" "tables (log h) = 0"
  shows "\<exists>h'. turn_start (clock_env start p) (Node_New (clock_env start p) True ''node'' d True True) ''node''
      \<lparr>Unschedulable = False\<rparr> h j = Some (\<lparr>Unschedulable = False\<rparr>, h') \<and> files h' = Map.empty \<and> tables (log h') = j"
proof (induction j)
  case (Suc j)
  then obtain h1 where h1: "turn_start (clock_env start p) (Node_New (clock_env start p) True ''node'' d True True) ''node''
      \<lparr>Unschedulable = False\<rparr> h j = Some (\<lparr>Unschedulable = False\<rparr>, h1)" "files h1 = Map.empty" "tables (log h1) = j"
    by blast
  from clock_turn [OF h1(2), of start p d] h1 show ?case by auto
qed (use assms in simp)

lemma clock_on_time:
  assumes "files h = Map.empty" "tables (log h) = 0" "0 < sint period"
  shows "on_time (clock_env start (sint period)) (Node_New (clock_env start (sint period)) True ''node'' d True True) ''node''
      \<lparr>Unschedulable = False\<rparr> h start period"
  unfolding on_time_def
proof (intro allI impI)
  let ?env = "clock_env start (sint period)" and ?nd = "Node_New (clock_env start (sint period)) True ''node'' d True True"
  fix j meta1 h1 r meta2 h2 now
  assume turn: "turn_start ?env ?nd ''node'' \<lparr>Unschedulable = False\<rparr> h j = Some (meta1, h1) \<and>
    tick ?env ?nd ''node'' meta1 h1 = (r, meta2, h2) \<and> EvNow now \<in> set (events_between h1 h2)"
  then have "meta1 = \<lparr>Unschedulable = False\<rparr>" "files h1 = Map.empty" "tables (log h1) = j"
    using clock_turns [OF assms(1,2), of start "sint period" d j] by auto
  then have "now = start + sint period * int j"
    using turn clock_turn [of h1 start "sint period" d] by auto
  then show "start + int j * sint period \<le> now \<and> now < start + (int j + 1) * sint period"
    using assms(3) by (simp add: algebra_simps)
qed

end
