(* ===== verification/Spec2Isabelle.thy ===== *)
theory Spec2Isabelle
  imports Kucero_Prelude Config_Settles Settled_Node CSR_Manager Process Cluster Renewal
begin

text \<open>
  Verification development for kucero (KUbernetes CErtificate ROtation), a daemon that runs on
  every node of a Kubernetes cluster.

  \<^bold>\<open>The program.\<close> Each node runs one process (cmd/kucero). Its certificate loop wakes up at every
  polling period, checks the kubelet's configuration and, on control-plane nodes, the expiry of the
  certificates kubeadm manages; when something is due it takes the cluster-wide lock, cordons
  and drains its node, updates the configuration, backs up and renews the certificates,
  restarts the kubelet, uncordons the node and releases the lock. On control-plane nodes a second
  goroutine is a controller that signs and approves the certificate signing requests of kubelets
  with the CA of the cluster.

  \<^bold>\<open>The theories\<close>, from the language up; file names are below src/.

  \<^item> \<open>Kucero_Prelude\<close>: errors as values, \<open>outcome\<close> (return or panic), Go maps as association lists.
    \<open>Go_Strings\<close>, \<open>Go_Regexp\<close>, \<open>Go_Sort\<close>, \<open>Go_Time\<close>, \<open>Go_Time_Parse\<close>: what the sources use of Go's standard
    library, executable. \<open>Go_Calendar\<close> shows when two formatted instants agree. A duration is a 64-bit word, an instant an integer number of nanoseconds.
  \<^item> \<open>X509\<close>, \<open>Capi\<close>: the data of crypto/x509 and of the certificates API.
  \<^item> \<open>Policies\<close>, \<open>Authority\<close>: pkg/pki/authority (policies.go, authority.go). The locale
    \<open>signing_policy\<close> is the Go interface of that name, \<open>sort_interface\<close> that of package sort. Shown: the
    translation of usages, what exactly is handed to \<open>x509.CreateCertificate\<close> and when, and that
    it is well-formed.
  \<^item> \<open>Signer\<close>: pkg/pki/signer (ca_provider.go, signer.go). Its states are the inductive
    \<open>signer_state\<close>; shown: a CA that was loaded is never lost, lifetimes stay within their bounds,
    issued certificates are valid, signing never panics.
  \<^item> \<open>CSR_Helper\<close>, \<open>CSR_Controller\<close>: controllers (helper.go, certificatesigningrequest_controller.go) and
    pkg/pki/cert/parser.go. The reconciler has the signer and the log of its API calls. The
    inductive \<open>reconcile_trace\<close> is the abstract specification of a reconciliation; \<open>Reconcile\<close>
    refines it.
  \<^item> \<open>CSR_Manager\<close>: the goroutine of cmd/kucero/main.go that makes the manager, the signer and the
    reconciler, and the run of its queue. The locale \<open>reconciler_interface\<close> is what is promised of a
    reconciler, and finds for each call of the run the reconciliation that made it. Shown for whole runs: who gets a
    certificate, that it is valid when it is issued, and that the goroutine never panics.
  \<^item> \<open>Host\<close>: pkg/host (command.go, kubelet.go, kubectl.go) and pkg/pki/clock. The state \<open>host\<close> is the file system and
    the log of everything the daemon did to the outside, each with its answer.
  \<^item> \<open>Kubeadm_Output\<close>, \<open>Kubeadm\<close>: pkg/pki/cert/kubeadm (exec.go, kubeadm.go) and pkg/pki/cert/null. Shown:
    kubeadm's tables are read back exactly, what is due, no renewal without a
    backup, what a rotation does and reports, and exactly when two backups get the same name.
  \<^item> \<open>Kubelet_Conf\<close>, \<open>Config_Settles\<close>: pkg/pki/conf/kubelet (exec.go, kubelet.go). The locale
    \<open>settling_file\<close> is the contract of the two files; shown: one update settles the configuration, and
    where the text edit does not. The style of \<open>config.yaml\<close> for which this holds is \<open>config_lines\<close>; the
    repository's own test files are in it. \<open>Settled_Node\<close>: the loop leaves a worker with settled files
    alone, and every node on which nothing is due; a due certificate that kucero does not manage disturbs its node in vain.
  \<^item> \<open>Node\<close>: pkg/pki/node/node.go, the interface values of \<open>cert.Certificate\<close> and \<open>conf.Config\<close> as the records
    \<open>cert_Certificate\<close> and \<open>conf_Config\<close>, what is promised of them as the locales
    \<open>certificate_interface\<close> and \<open>config_interface\<close> with the implementations as
    interpretations. \<open>node_interface\<close> is what the loop relies on.
  \<^item> \<open>Flags\<close>, \<open>Daemon\<close>: the flags with their defaults, cmd/kucero/lock.go and the loop of
    cmd/kucero/main.go, from the answers of the lock to the events of a turn.
  \<^item> \<open>Process\<close>: \<open>init\<close>, \<open>main\<close> and \<open>root\<close> of cmd/kucero/main.go, from the command line to the loop, and the
    process as its two goroutines, either of which may end it; a run of \<open>process\<close> has the events of the loop and the
    API calls of the controller. Shown: in every run the discipline of the lock for the loop, and what precedes the CSR
    writes of the controller, which takes no lock; how early checks come before an expiry, what a restart does, what wrong flags do.
  \<^item> \<open>Cluster\<close>: all nodes and the lock; nodes may stop at any event and start again. Shown: while sections are
    shorter than the lease of the lock, the runs refine those of a mutex with at most one owner (\<open>mutex_run\<close>) and one
    node is changed at a time; and that a minute after a lease began, and not before, a second node can get in.
  \<^item> \<open>Renewal\<close>: from the expiration table to the renewal, across \<open>Kubeadm\<close>, \<open>Node\<close> and \<open>Daemon\<close>: a
    turn that gets the lock renews what is due, and the instants at which turns start.
  \<^item> This theory: the two put together with the flags and the start of the process, kubeadm is told to renew certificates before they expire.

  \<^bold>\<open>Conventions.\<close> A Go function that mutates its receiver or the outside takes and returns the
  state; a returned error is a value, a panic is \<open>Panicked\<close>, \<open>logrus.Fatal\<close> the end of
  the run with its error. Ranging over a Go map goes through a function that gives the order, of which
  properties assume at most that it is a permutation.

  \<^bold>\<open>Parameters.\<close> Code outside the repository is a field of a record of functions: the operating
  system, clientcmd, YAML, kubectl's drain helpers (\<open>host_env\<close>, \<open>kubelet_env\<close>), the lock of
  kured (\<open>daemon_env\<close>), the API server and controller-runtime (\<open>csr_env\<close>, \<open>manager_env\<close>,
  \<open>startup_env\<close>), cryptography and the loader of CA files (\<open>x509_lib\<close>, \<open>ca_lib\<close>). They may answer anything at
  any time, a function of the state with its whole log. Where a property relies on more, it is a named
  hypothesis with a concrete instance in its witness: \<open>range_order\<close> (a permutation of the keys),
  \<open>yaml_top_level\<close>, \<open>kubeconfig_roundtrip\<close>, \<open>clientcmd_file\<close>, \<open>no_faults\<close>,
  \<open>restart_keeps_files\<close>, \<open>raw_is_input\<close>, \<open>expiration_in_seconds\<close>, \<open>draws_below\<close>, \<open>queries_keep_files\<close>, \<open>on_time\<close> (each turn reads
  the clock within its own period after the start), and for the cluster \<open>lock_contract\<close>
  and \<open>prompt\<close>.

  \<^bold>\<open>Bounds.\<close> Nothing needs fuel: every loop of the sources runs over a finite list and is a
  structural recursion, and the loop of the daemon runs over the list of its wakeups. \<open>Seconds_int\<close>
  computes \<open>int(d.Seconds())\<close> without floating point, exact for periods up to 2^22 seconds (48 days), which the properties
  assume. Dates are read with four-digit years, as the layout has them; the names of backups
  are compared for such years too (\<open>four_digit_day\<close>). \<open>TrimSpace\<close> is that of ASCII, which is what kubeadm
  prints. \<open>sort.Sort\<close> is insertion sort, which the library uses up to twelve elements, and the slices
  sorted here have no more (\<open>sorted_usages_at_most_twelve\<close>).

  \<^bold>\<open>Not modelled.\<close> How cobra reads the command line and what the registration of API types does (parameters of
  \<open>startup_env\<close>: any flags record or error may result, the defaults are \<open>default_flags\<close>), log messages, the scheduling of the
  goroutines beyond the point where one ends the process, and the Kubernetes manifests, demos and documentation, which
  have no program logic.
\<close>

section \<open>Certificates are renewed before they expire\<close>

text \<open>
  Claim C4. On a control-plane node kucero has kubeadm renew certificates in time. Take a daemon whose
  \<open>renew-before\<close> covers \<open>k + 1\<close> times twice its configured polling period (one second to 48 days), whose
  turns are on time, and a certificate that kucero knows and that is valid for at least \<open>k + 1\<close> times
  twice the configured period after the start. Then there are \<open>k\<close> turns in a row, all of them within
  \<open>renew-before\<close> of the expiry and over before it, and in any of them that takes the lock,
  returns and finds the certificate with that expiry in kubeadm's table, the certificate's file is backed up and
  kubeadm is told to renew it; unless that backup failed, or the query for kubeadm's version
  right after it. With the default flags \<open>k\<close> may be 359. Whether kubeadm then succeeds is up to kubeadm.
\<close>

theorem renewed_before_expiry:
  assumes "range_order env"
    and "root_node senv fl = Returned (Inr (fl', corev1Node, True))"
    and "sint time_Second \<le> sint (pollingPeriod fl)" and "sint (pollingPeriod fl) \<le> 2 ^ 22 * sint time_Second"
    and "2 * (int k + 1) * sint (pollingPeriod fl) \<le> sint (flag_expiryTimeToRotate fl)"
    and "start_lock env h0 = (meta, h)"
    and "on_time env (loop_node env fl' node True) node meta h start (pollingPeriod fl')"
    and "start + 2 * (int k + 1) * sint (pollingPeriod fl) \<le> expiry" and "map_of certificates c = Some path"
  shows "\<exists>j0. \<forall>j. j0 \<le> j \<and> j < j0 + k \<longrightarrow>
    expiry - sint (flag_expiryTimeToRotate fl) \<le> start + int j * sint (pollingPeriod fl') \<and>
    start + (int j + 1) * sint (pollingPeriod fl') \<le> expiry \<and>
    (\<forall>meta1 h1 meta2 h2 b out.
       turn_start env (loop_node env fl' node True) node meta h j = Some (meta1, h1) \<and>
       tick env (loop_node env fl' node True) node meta1 h1 = (Returned (), meta2, h2) \<and>
       EvLockAcquire True None \<in> set (events_between h1 h2) \<and>
       EvOutput (certs_args b [''check-expiration'']) (Inr out) \<in> set (events_between h1 h2) \<and>
       map_of (parsekubeadmAlphaCertsCheckExpiration (os_lookupName env) out) c = Some expiry \<longrightarrow>
       renewal_tried env c path (events_between h1 h2))"
proof -
  define p where "p = sint (pollingPeriod fl')"
  note drawn = drawn_period [OF assms(2-4)]
  have "(int k + 1) * p \<le> (int k + 1) * (2 * sint (pollingPeriod fl))"
    using drawn(2) by (intro mult_left_mono) (simp_all add: p_def)
  then have "(int k + 1) * p \<le> sint (flag_expiryTimeToRotate fl)" "start + (int k + 1) * p \<le> expiry"
    using assms(5,8) by (simp_all add: algebra_simps)
  then obtain j0 where j0: "expiry - sint (flag_expiryTimeToRotate fl) \<le> start + int j0 * p" "start + int (j0 + k) * p \<le> expiry"
    using renewal_window [of p k "sint (flag_expiryTimeToRotate fl)" start expiry] drawn(1)
    by (auto simp: p_def)
  show ?thesis
  proof (intro exI [of _ j0] allI impI conjI)
    fix j assume j: "j0 \<le> j \<and> j < j0 + k"
    have "(int j + 1) * p \<le> int (j0 + k) * p" using j drawn(1) by (intro mult_right_mono) (simp_all add: p_def)
    then show "start + (int j + 1) * sint (pollingPeriod fl') \<le> expiry" using j0(2) by (simp add: p_def)
    have "int j0 * p \<le> int j * p" using j drawn(1) by (intro mult_right_mono) (simp_all add: p_def)
    then show window: "expiry - sint (flag_expiryTimeToRotate fl) \<le> start + int j * sint (pollingPeriod fl')"
      using j0(1) by (simp add: p_def)
    fix meta1 h1 meta2 h2 b out
    assume turn: "turn_start env (loop_node env fl' node True) node meta h j = Some (meta1, h1) \<and>
       tick env (loop_node env fl' node True) node meta1 h1 = (Returned (), meta2, h2) \<and>
       EvLockAcquire True None \<in> set (events_between h1 h2) \<and>
       EvOutput (certs_args b [''check-expiration'']) (Inr out) \<in> set (events_between h1 h2) \<and>
       map_of (parsekubeadmAlphaCertsCheckExpiration (os_lookupName env) out) c = Some expiry"
    have "\<forall>now. EvNow now \<in> set (events_between h1 h2) \<longrightarrow> due expiry now (flag_expiryTimeToRotate fl')"
      using on_time_due [OF assms(7)] turn drawn(3) window by metis
    with turn assms(1,9) show "renewal_tried env c path (events_between h1 h2)"
      unfolding loop_node_def by (blast intro: due_certificates_tried)
  qed
qed

text \<open>A control-plane node whose clock starts on the first of April 2021.\<close>

definition april :: time where
  "april = Date 2021 4 1 0 0 0 0"

definition control_plane_startup :: startup_env where
  "control_plane_startup = (worker_startup ''node'')\<lparr>nodes_Get :=
     (\<lambda>name. Inr \<lparr>node_name = name, node_labels = [(''node-role.kubernetes.io/control-plane'', '''')]\<rparr>)\<rparr>"

theorem renewed_before_expiry_witness:
  "\<exists>p j meta1 h1 meta2 h2. april + (int j + 1) * sint (p :: duration) \<le> Date 2021 5 12 2 29 0 0 \<and>
     turn_start (clock_env april (sint p)) (loop_node (clock_env april (sint p)) (default_flags\<lparr>pollingPeriod := p\<rparr>) ''node'' True)
        ''node'' \<lparr>Unschedulable = False\<rparr> (snd (start_lock (clock_env april (sint p)) sample_host)) j = Some (meta1, h1) \<and>
     tick (clock_env april (sint p)) (loop_node (clock_env april (sint p)) (default_flags\<lparr>pollingPeriod := p\<rparr>) ''node'' True)
        ''node'' meta1 h1 = (Returned (), meta2, h2) \<and>
     renewal_tried (clock_env april (sint p)) ''apiserver'' ''/etc/kubernetes/pki/apiserver.crt'' (events_between h1 h2)"
proof -
  let ?n = "\<lparr>node_name = ''node'', node_labels = [(''node-role.kubernetes.io/control-plane'', '''')]\<rparr>"
  obtain p where p: "shift_pollingPeriod 12345 (pollingPeriod default_flags) = Returned p" "0 < sint p"
    using shift_pollingPeriod_range [of "pollingPeriod default_flags" 12345] by auto
  have node: "root_node control_plane_startup default_flags =
      Returned (Inr (default_flags\<lparr>pollingPeriod := p\<rparr>, ?n, True))"
    using p(1) by (simp add: root_node_def control_plane_startup_def worker_startup_def)
  let ?env = "clock_env april (sint p)" and ?fl = "default_flags\<lparr>pollingPeriod := p\<rparr>"
  let ?d = "flag_expiryTimeToRotate default_flags" and ?expiry = "Date 2021 5 12 2 29 0 0"
  have order: "range_order ?env" using sample_range_order by (simp add: range_order_def clock_env_simps)
  define h where "h = snd (start_lock ?env sample_host)"
  have test: "lock_Test ?env = (\<lambda>h meta. ((False, None), meta))"
    by (simp add: clock_env_def sample_control_plane_env_def daemon_env.defs kubelet_env.defs host_env.defs)
  then have lock: "start_lock ?env sample_host = (\<lparr>Unschedulable = False\<rparr>, h)"
    and h: "files h = Map.empty" "tables (log h) = 0"
    by (simp_all add: h_def start_lock_def holding_def sample_host_def)
  have nd: "loop_node ?env ?fl ''node'' True = Node_New ?env True ''node'' ?d True True"
    by (simp add: loop_node_def, simp add: default_flags_def)
  have time: "on_time ?env (loop_node ?env ?fl ''node'' True) ''node'' \<lparr>Unschedulable = False\<rparr> h april (pollingPeriod ?fl)"
    unfolding nd using clock_on_time [OF h p(2), of april] by simp
  have "april + 720 * 3600 * 1000000000 \<le> ?expiry" by code_simp
  then have later: "april + 2 * (int 359 + 1) * sint (pollingPeriod default_flags) \<le> ?expiry" by simp
  have known: "map_of certificates ''apiserver'' = Some ''/etc/kubernetes/pki/apiserver.crt''" by code_simp
  obtain j where window: "?expiry - sint ?d \<le> april + int j * sint p" and before: "april + (int j + 1) * sint p \<le> ?expiry"
    and renews: "\<And>meta1 h1 meta2 h2 b out.
       turn_start ?env (loop_node ?env ?fl ''node'' True) ''node'' \<lparr>Unschedulable = False\<rparr> h j = Some (meta1, h1) \<Longrightarrow>
       tick ?env (loop_node ?env ?fl ''node'' True) ''node'' meta1 h1 = (Returned (), meta2, h2) \<Longrightarrow>
       EvLockAcquire True None \<in> set (events_between h1 h2) \<Longrightarrow>
       EvOutput (certs_args b [''check-expiration'']) (Inr out) \<in> set (events_between h1 h2) \<Longrightarrow>
       map_of (parsekubeadmAlphaCertsCheckExpiration (os_lookupName ?env) out) ''apiserver'' = Some ?expiry \<Longrightarrow>
       renewal_tried ?env ''apiserver'' ''/etc/kubernetes/pki/apiserver.crt'' (events_between h1 h2)"
    using renewed_before_expiry [OF order node _ _ _ lock time later known] by fastforce
  obtain h1 where h1: "turn_start ?env (loop_node ?env ?fl ''node'' True) ''node'' \<lparr>Unschedulable = False\<rparr> h j =
      Some (\<lparr>Unschedulable = False\<rparr>, h1)" "files h1 = Map.empty" "tables (log h1) = j"
    unfolding nd using clock_turns [OF h, of april "sint p" ?d j] by auto
  have "due ?expiry (april + sint p * int (tables (log h1))) ?d"
    using window h1(3) by (simp add: due_def mult.commute)
  then obtain h2 where h2: "tick ?env (loop_node ?env ?fl ''node'' True) ''node'' \<lparr>Unschedulable = False\<rparr> h1 =
      (Returned (), \<lparr>Unschedulable = False\<rparr>, h2)" "EvLockAcquire True None \<in> set (events_between h1 h2)"
      "EvOutput (certs_args True [''check-expiration'']) (Inr sample_output) \<in> set (events_between h1 h2)"
    unfolding nd using clock_turn [OF h1(2), of april "sint p" ?d] by auto
  have "map_of (parsekubeadmAlphaCertsCheckExpiration (os_lookupName ?env) sample_output) ''apiserver'' = Some ?expiry"
    by (simp add: clock_env_simps sample_commands sample_parse)
  from renews [OF h1(1) h2 this] before h1(1) h2(1) show ?thesis unfolding h_def by blast
qed

end
